(* ===== verification/Step_System.thy ===== *)
theory Step_System
  imports Main
begin

text \<open>
  The interface of a state machine given as a step relation: a predicate that every step keeps, and a
  measure that every step lowers. The clients' facts carry the predicate to every reachable state and
  bound the length of every run. The pool of workers provides both, the daemon the first. A third interface
  relates two machines, so that what holds of the abstract one carries over.
\<close>

locale step_invariant =
  fixes step :: "'s \<Rightarrow> 's \<Rightarrow> bool"
    and inv :: "'s \<Rightarrow> bool"
  assumes inv_step: "step s t \<Longrightarrow> inv s \<Longrightarrow> inv t"
begin

lemma inv_reachable: "step\<^sup>*\<^sup>* s t \<Longrightarrow> inv s \<Longrightarrow> inv t"
  by (induction rule: rtranclp_induct) (auto intro: inv_step)

end

locale terminating_steps = step_invariant step inv
  for step :: "'s \<Rightarrow> 's \<Rightarrow> bool" and inv :: "'s \<Rightarrow> bool" +
  fixes size_of :: "'s \<Rightarrow> nat"
  assumes size_step: "step s t \<Longrightarrow> inv s \<Longrightarrow> size_of t < size_of s"
begin

text \<open>A run of \<open>n\<close> steps needs a start of size \<open>n\<close> at least.\<close>

lemma run_bound: "(step ^^ n) s t \<Longrightarrow> inv s \<Longrightarrow> size_of t + n \<le> size_of s"
proof (induction n arbitrary: t)
  case (Suc n)
  from Suc.prems(1) obtain u where u: "(step ^^ n) s u" "step u t" by auto
  then have "inv u" using inv_reachable Suc.prems(2) relpowp_imp_rtranclp by metis
  with Suc.IH [OF u(1) Suc.prems(2)] size_step [OF u(2)] show ?case by simp
qed simp

end

text \<open>A machine that does what an abstract one does, step by step or without a visible step.\<close>

locale stuttering_simulation =
  fixes step :: "'s \<Rightarrow> 's \<Rightarrow> bool"
    and abstract_step :: "'a \<Rightarrow> 'a \<Rightarrow> bool"
    and abstraction :: "'s \<Rightarrow> 'a"
  assumes simulates: "step s t \<Longrightarrow> abstraction t = abstraction s \<or> abstract_step (abstraction s) (abstraction t)"
begin

lemma run_simulated: "step\<^sup>*\<^sup>* s t \<Longrightarrow> abstract_step\<^sup>*\<^sup>* (abstraction s) (abstraction t)"
proof (induction rule: rtranclp_induct)
  case (step t u)
  with simulates [of t u] show ?case by (metis rtranclp.rtrancl_into_rtrancl)
qed simp

lemma abstract_invariant:
  assumes "step_invariant abstract_step P" and "step\<^sup>*\<^sup>* s t" and "P (abstraction s)"
  shows "P (abstraction t)"
  using step_invariant.inv_reachable [OF assms(1) run_simulated [OF assms(2)] assms(3)] .

end

end
