(* ===== verification/Prelude.thy ===== *)
theory Prelude
  imports "HOL-Library.Word"
begin

text \<open>
  The types, generic operations and lemmas that every component of the development shares.

  \<^item> Machine integers are words of their width; a signed Rust integer is the word of the same
    width read through \<open>sint\<close>. A byte (\<open>u8\<close>) is an Isabelle \<open>char\<close>, which has exactly eight bits,
    so a byte string literal \<open>b"T:"\<close> of the source is written \<open>''T:''\<close> here, and a \<open>Bytes\<close>,
    \<open>&[u8]\<close> or \<open>String\<close> value is a list of bytes.
  \<^item> \<open>Result<T, E>\<close> is the sum type \<open>'e + 'a\<close> (\<open>Inl\<close> the error); \<open>bind_res\<close> is the \<open>?\<close> operator.
  \<^item> \<open>Vec::insert\<close> and \<open>Vec::remove\<close>, \<open>memchr\<close>, \<open>to_le_bytes\<close> and \<open>str::from_utf8\<close> of the Rust
    libraries are given as executable functions with the lemmas the components use.
\<close>

unbundle bit_operations_syntax

named_theorems result_simps \<open>equations of the error monad\<close>
named_theorems list_ops \<open>facts on insert_at, remove_at and find_index\<close>

section \<open>Types\<close>

type_synonym u8 = char
type_synonym bytes = "u8 list"
type_synonym u16 = "16 word"
type_synonym u32 = "32 word"
type_synonym u64 = "64 word"
type_synonym i16 = "16 word"
type_synonym i32 = "32 word"
type_synonym i64 = "64 word"
type_synonym usize = nat

lemma unat_small: "n < 2 ^ LENGTH('a) \<Longrightarrow> unat (word_of_nat n :: 'a::len word) = n"
  by (simp add: unsigned_of_nat take_bit_nat_eq_self)

lemma sint_small:
  "- (2 ^ (LENGTH('a) - 1)) \<le> i \<Longrightarrow> i < 2 ^ (LENGTH('a) - 1) \<Longrightarrow> sint (word_of_int i :: 'a::len word) = i"
  by (simp add: signed_of_int signed_take_bit_int_eq_self)

section \<open>Results\<close>

definition bind_res :: "'e + 'a \<Rightarrow> ('a \<Rightarrow> 'e + 'b) \<Rightarrow> 'e + 'b" where
  "bind_res r f = (case r of Inl e \<Rightarrow> Inl e | Inr x \<Rightarrow> f x)"

definition ok_or :: "'a option \<Rightarrow> 'e \<Rightarrow> 'e + 'a" where
  "ok_or r e = (case r of None \<Rightarrow> Inl e | Some x \<Rightarrow> Inr x)"

definition is_ok :: "'e + 'a \<Rightarrow> bool" where
  "is_ok r = (case r of Inl _ \<Rightarrow> False | Inr _ \<Rightarrow> True)"

lemma bind_res_Inl [simp, result_simps]: "bind_res (Inl e) f = Inl e"
  by (simp add: bind_res_def)

lemma bind_res_Inr [simp, result_simps]: "bind_res (Inr x) f = f x"
  by (simp add: bind_res_def)

lemma ok_or_None [simp, result_simps]: "ok_or None e = Inl e"
  by (simp add: ok_or_def)

lemma ok_or_Some [simp, result_simps]: "ok_or (Some x) e = Inr x"
  by (simp add: ok_or_def)

lemma is_ok_simps [simp]: "is_ok (Inr x)" "\<not> is_ok (Inl e)"
  by (simp_all add: is_ok_def)

lemma bind_res_Inr_iff: "bind_res r f = Inr y \<longleftrightarrow> (\<exists>x. r = Inr x \<and> f x = Inr y)"
  by (cases r) auto

lemma bind_res_Inl_iff: "bind_res r f = Inl e \<longleftrightarrow> r = Inl e \<or> (\<exists>x. r = Inr x \<and> f x = Inl e)"
  by (cases r) auto

section \<open>Vectors\<close>

text \<open>\<open>Vec::insert(i, x)\<close> and \<open>Vec::remove(i)\<close>, for an index in range (\<open>i \<le> len\<close>, \<open>i < len\<close>):
  the callers test the index first, as the source does.\<close>

definition insert_at :: "nat \<Rightarrow> 'a \<Rightarrow> 'a list \<Rightarrow> 'a list" where
  "insert_at i x xs = take i xs @ x # drop i xs"

definition remove_at :: "nat \<Rightarrow> 'a list \<Rightarrow> 'a list" where
  "remove_at i xs = take i xs @ drop (Suc i) xs"

lemma length_insert_at [simp, list_ops]: "length (insert_at i x xs) = Suc (length xs)"
  by (simp add: insert_at_def)

lemma length_remove_at [simp, list_ops]:
  "i < length xs \<Longrightarrow> length (remove_at i xs) = length xs - 1"
  by (simp add: remove_at_def)

lemma nth_insert_at [list_ops]:
  assumes "i \<le> length xs" and "j \<le> length xs"
  shows "insert_at i x xs ! j = (if j < i then xs ! j else if j = i then x else xs ! (j - 1))"
proof (cases "j \<le> i")
  case True
  with assms show ?thesis by (auto simp: insert_at_def nth_append)
next
  case False
  then obtain k where "j = Suc (i + k)"
    by (metis less_imp_Suc_add not_le)
  with assms show ?thesis by (simp add: insert_at_def nth_append)
qed

lemma nth_remove_at [list_ops]:
  assumes "i < length xs" and "j < length xs - 1"
  shows "remove_at i xs ! j = (if j < i then xs ! j else xs ! Suc j)"
  using assms by (auto simp: remove_at_def nth_append)

lemma insert_at_length [simp]: "insert_at (length xs) x xs = xs @ [x]"
  by (simp add: insert_at_def)

lemma set_insert_at [simp]: "set (insert_at i x xs) = insert x (set xs)"
  by (metis (no_types, lifting) Un_insert_right append_take_drop_id insert_at_def list.simps(15)
      set_append)

lemma remove_insert_at [simp]: "i \<le> length xs \<Longrightarrow> remove_at i (insert_at i x xs) = xs"
  by (simp add: insert_at_def remove_at_def)

lemma insert_remove_at: "i < length xs \<Longrightarrow> insert_at i (xs ! i) (remove_at i xs) = xs"
  by (simp add: insert_at_def remove_at_def id_take_nth_drop [symmetric])

section \<open>First index satisfying a predicate\<close>

text \<open>\<open>Iterator::position\<close>; \<open>memchr\<close> and \<open>memchr2\<close> are its instances for one and two needles.\<close>

fun find_index :: "('a \<Rightarrow> bool) \<Rightarrow> 'a list \<Rightarrow> nat option" where
  "find_index P [] = None"
| "find_index P (x # xs) = (if P x then Some 0 else map_option Suc (find_index P xs))"

definition memchr :: "u8 \<Rightarrow> bytes \<Rightarrow> nat option" where
  "memchr c xs = find_index (\<lambda>x. x = c) xs"

definition memchr2 :: "u8 \<Rightarrow> u8 \<Rightarrow> bytes \<Rightarrow> nat option" where
  "memchr2 a b xs = find_index (\<lambda>x. x = a \<or> x = b) xs"

lemma find_SomeD: "List.find P xs = Some x \<Longrightarrow> x \<in> set xs \<and> P x"
  by (auto simp: find_Some_iff)

lemma find_index_None [list_ops]: "find_index P xs = None \<longleftrightarrow> (\<forall>x \<in> set xs. \<not> P x)"
  by (induction xs) auto

lemma find_index_Some [list_ops]:
  "find_index P xs = Some i \<longleftrightarrow> i < length xs \<and> P (xs ! i) \<and> (\<forall>j < i. \<not> P (xs ! j))"
proof (induction xs arbitrary: i)
  case Nil
  then show ?case by simp
next
  case (Cons x xs)
  show ?case
  proof (cases i)
    case 0
    then show ?thesis by auto
  next
    case (Suc k)
    with Cons.IH [of k] show ?thesis
      by (auto simp: less_Suc_eq_0_disj)
  qed
qed

lemma find_index_less: "find_index P xs = Some i \<Longrightarrow> i < length xs"
  by (simp add: find_index_Some)

lemma find_index_append:
  "find_index P (xs @ ys) =
     (case find_index P xs of Some i \<Rightarrow> Some i
      | None \<Rightarrow> map_option (\<lambda>i. length xs + i) (find_index P ys))"
proof (induction xs)
  case Nil
  show ?case by (cases "find_index P ys") simp_all
next
  case (Cons x xs)
  then show ?case by (cases "find_index P ys") (auto split: option.splits)
qed

lemma find_index_split:
  assumes "find_index P xs = Some i"
  shows "xs = take i xs @ xs ! i # drop (Suc i) xs \<and> P (xs ! i) \<and> (\<forall>x \<in> set (take i xs). \<not> P x)"
  using assms by (auto simp: find_index_Some id_take_nth_drop [symmetric] in_set_conv_nth)

section \<open>Little-endian bytes\<close>

text \<open>\<open>to_le_bytes\<close> and \<open>from_le_bytes\<close> of an unsigned value of \<open>k\<close> bytes.\<close>

primrec to_le :: "nat \<Rightarrow> nat \<Rightarrow> bytes" where
  "to_le 0 n = []"
| "to_le (Suc k) n = char_of (n mod 256) # to_le k (n div 256)"

primrec from_le :: "bytes \<Rightarrow> nat" where
  "from_le [] = 0"
| "from_le (b # bs) = of_char b + 256 * from_le bs"

lemma length_to_le [simp]: "length (to_le k n) = k"
  by (induction k arbitrary: n) simp_all

lemma from_le_to_le: "n < 256 ^ k \<Longrightarrow> from_le (to_le k n) = n"
proof (induction k arbitrary: n)
  case 0
  then show ?case by simp
next
  case (Suc k)
  then have "n div 256 < 256 ^ k"
    by (simp add: less_mult_imp_div_less mult.commute)
  with Suc.IH show ?case by simp
qed

lemma from_le_bound: "from_le bs < 256 ^ length bs"
proof (induction bs)
  case Nil
  then show ?case by simp
next
  case (Cons b bs)
  from Cons.IH have "256 * Suc (from_le bs) \<le> 256 * 256 ^ length bs"
    by (intro mult_le_mono) simp_all
  moreover have "c + 256 * f < 256 * m" if "c < 256" and "256 * Suc f \<le> 256 * m" for c f m :: nat
    using that by simp
  ultimately have "of_char b + 256 * from_le bs < 256 * 256 ^ length bs"
    by (blast intro: nat_of_char_less_256)
  then show ?case by simp
qed

lemma to_le_from_le: "to_le (length bs) (from_le bs) = bs"
proof (induction bs)
  case Nil
  then show ?case by simp
next
  case (Cons b bs)
  have "of_char b < (256::nat)" by simp
  with Cons.IH show ?case by simp
qed

section \<open>UTF-8\<close>

text \<open>\<open>core::str::from_utf8\<close> accepts exactly the well-formed sequences of the Unicode standard
  (table 3-7): no overlong forms, no surrogates, nothing above U+10FFFF.\<close>

definition byte_in :: "u8 \<Rightarrow> nat \<Rightarrow> nat \<Rightarrow> bool" where
  "byte_in b lo hi \<longleftrightarrow> lo \<le> of_char b \<and> of_char b \<le> hi"

fun utf8_valid :: "bytes \<Rightarrow> bool" where
  "utf8_valid [] = True"
| "utf8_valid [a] = byte_in a 0 127"
| "utf8_valid [a, b] =
     (if byte_in a 0 127 then utf8_valid [b]
      else byte_in a 194 223 \<and> byte_in b 128 191)"
| "utf8_valid [a, b, c] =
     (if byte_in a 0 127 then utf8_valid [b, c]
      else if byte_in a 194 223 then byte_in b 128 191 \<and> utf8_valid [c]
      else (byte_in a 224 224 \<and> byte_in b 160 191 \<or> byte_in a 225 236 \<and> byte_in b 128 191 \<or>
            byte_in a 237 237 \<and> byte_in b 128 159 \<or> byte_in a 238 239 \<and> byte_in b 128 191) \<and>
           byte_in c 128 191)"
| "utf8_valid (a # b # c # d # rest) =
     (if byte_in a 0 127 then utf8_valid (b # c # d # rest)
      else if byte_in a 194 223 then byte_in b 128 191 \<and> utf8_valid (c # d # rest)
      else if byte_in a 224 239 then
        (byte_in a 224 224 \<and> byte_in b 160 191 \<or> byte_in a 225 236 \<and> byte_in b 128 191 \<or>
         byte_in a 237 237 \<and> byte_in b 128 159 \<or> byte_in a 238 239 \<and> byte_in b 128 191) \<and>
        byte_in c 128 191 \<and> utf8_valid (d # rest)
      else (byte_in a 240 240 \<and> byte_in b 144 191 \<or> byte_in a 241 243 \<and> byte_in b 128 191 \<or>
            byte_in a 244 244 \<and> byte_in b 128 143) \<and>
           byte_in c 128 191 \<and> byte_in d 128 191 \<and> utf8_valid rest)"

definition is_ascii :: "bytes \<Rightarrow> bool" where
  "is_ascii bs \<longleftrightarrow> (\<forall>b \<in> set bs. byte_in b 0 127)"

lemma utf8_valid_ascii: "is_ascii bs \<Longrightarrow> utf8_valid bs"
  by (induction bs rule: utf8_valid.induct) (auto simp: is_ascii_def)

section \<open>Decimal numbers\<close>

text \<open>\<open>u8::is_ascii_digit\<close>, the value of a digit string, and the \<open>Display\<close> form of an unsigned
  integer, which \<open>format!("{n}")\<close> prints.\<close>

definition is_digit :: "u8 \<Rightarrow> bool" where
  "is_digit c \<longleftrightarrow> byte_in c 48 57"

definition digit_val :: "u8 \<Rightarrow> nat" where
  "digit_val c = of_char c - 48"

definition dec_value :: "bytes \<Rightarrow> nat" where
  "dec_value ds = foldl (\<lambda>n c. 10 * n + digit_val c) 0 ds"

fun show_nat :: "nat \<Rightarrow> bytes" where
  "show_nat n = (if n < 10 then [char_of (48 + n)]
                 else show_nat (n div 10) @ [char_of (48 + n mod 10)])"

declare show_nat.simps [simp del]

lemma digit_char [simp]:
  assumes "d < 10"
  shows "is_digit (char_of (48 + d :: nat))" and "digit_val (char_of (48 + d :: nat)) = d"
  using assms by (simp_all add: is_digit_def digit_val_def byte_in_def)

lemma digit_val_less: "is_digit c \<Longrightarrow> digit_val c < 10"
  by (auto simp: is_digit_def digit_val_def byte_in_def)

lemma dec_value_Nil [simp]: "dec_value [] = 0"
  by (simp add: dec_value_def)

lemma dec_value_snoc [simp]: "dec_value (ds @ [c]) = 10 * dec_value ds + digit_val c"
  by (simp add: dec_value_def)

lemma dec_value_less: "list_all is_digit ds \<Longrightarrow> dec_value ds < 10 ^ length ds"
proof (induction ds rule: rev_induct)
  case Nil
  then show ?case by simp
next
  case (snoc c ds)
  then have "digit_val c < 10" by (simp add: digit_val_less)
  with snoc show ?case by simp
qed

lemma show_nat_nonempty [simp]: "show_nat n \<noteq> []"
  by (subst show_nat.simps) simp

lemma show_nat_digits [simp]: "list_all is_digit (show_nat n)"
proof (induction n rule: show_nat.induct)
  case (1 n)
  then show ?case by (subst show_nat.simps) simp
qed

lemma dec_value_show_nat [simp]: "dec_value (show_nat n) = n"
proof (induction n rule: show_nat.induct)
  case (1 n)
  show ?case
  proof (cases "n < 10")
    case True
    then show ?thesis by (simp add: show_nat.simps [of n] dec_value_def)
  next
    case False
    with "1.IH" show ?thesis by (subst show_nat.simps) simp
  qed
qed

end
