(* ===== verification/Pull_Loop.thy ===== *)
theory Pull_Loop
  imports Prelude
begin

text \<open>
  The interface of a source that hands out items one at a time and is emptied by a
  \<open>while let Some(x) = source.next()\<close> loop. \<open>pending\<close> is what the provider promises is still to
  come; the client's facts say that the loop returns exactly that and leaves the source exhausted.
  The frame splitter and the field scanner provide it.
\<close>

locale pull_loop =
  fixes pull :: "'s \<Rightarrow> 'a option \<times> 's"
    and drain :: "'s \<Rightarrow> 'a list \<times> 's"
    and pending :: "'s \<Rightarrow> 'a list"
  assumes pull_empty: "pending s = [] \<Longrightarrow> pull s = (None, s)"
    and pull_item: "pending s = x # xs \<Longrightarrow> \<exists>t. pull s = (Some x, t) \<and> pending t = xs"
    and drain_stop: "pull s = (None, t) \<Longrightarrow> drain s = ([], t)"
    and drain_step: "pull s = (Some x, t) \<Longrightarrow> drain s = (x # fst (drain t), snd (drain t))"
begin

lemma drain_spec: "fst (drain s) = pending s \<and> pending (snd (drain s)) = []"
proof (induction "pending s" arbitrary: s)
  case Nil
  then have "pull s = (None, s)" by (simp add: pull_empty)
  then have "drain s = ([], s)" by (rule drain_stop)
  with Nil show ?case by simp
next
  case (Cons x xs)
  from Cons.hyps(2) obtain t where t: "pull s = (Some x, t)" "pending t = xs"
    using pull_item by metis
  have "drain s = (x # fst (drain t), snd (drain t))"
    using t(1) by (rule drain_step)
  with Cons.hyps(1) [OF t(2) [symmetric]] Cons.hyps(2) t(2) show ?case by simp
qed

lemma drain_items: "fst (drain s) = pending s"
  using drain_spec by blast

lemma drain_exhausts: "pull (snd (drain s)) = (None, snd (drain s))"
  using drain_spec pull_empty by blast

lemma pull_None_iff: "fst (pull s) = None \<longleftrightarrow> pending s = []"
  using pull_empty pull_item by (cases "pending s") fastforce+

lemma drain_twice: "drain (snd (drain s)) = ([], snd (drain s))"
  using drain_exhausts drain_stop by blast

end

end
