(* ===== verification/Enums.thy ===== *)
theory Enums
  imports Prelude
begin

text \<open>
  \<^verbatim>\<open>crates/cedro-protocol/src/enums.rs\<close>: the coded values of the protocol. Each enum is a datatype
  with the source's variants under a prefix of its own (two enums share variant names), and each
  \<open>from_code\<close> or \<open>from_byte\<close> is the \<open>match\<close> of the source as a chain of tests. A code that is not
  in the table is kept in the \<open>Unknown\<close> variant; the \<open>_code\<close> functions read a code back from a
  variant and state that nothing is lost (they are not in the source).
\<close>

section \<open>Numeric codes\<close>

datatype MarketCode =
    MC_Bovespa | MC_DowJones | MC_Bmf | MC_Indices | MC_Money | MC_Forex | MC_Indicators
  | MC_Nyse | MC_Nasdaq | MC_Cfd | MC_Bitcoin | MC_Datagro | MC_Inews | MC_Amex
  | MC_TesouroDireto | MC_NyseFmv | MC_NasdaqFmv | MC_AmexFmv | MC_Unknown u16

definition MarketCode_from_code :: "u16 \<Rightarrow> MarketCode" where
  "MarketCode_from_code code =
     (if code = 1 then MC_Bovespa
      else if code = 2 then MC_DowJones
      else if code = 3 then MC_Bmf
      else if code = 4 then MC_Indices
      else if code = 5 then MC_Money
      else if code = 7 then MC_Forex
      else if code = 8 then MC_Indicators
      else if code = 10 then MC_Nyse
      else if code = 12 then MC_Nasdaq
      else if code = 13 then MC_Cfd
      else if code = 30 then MC_Bitcoin
      else if code = 44 then MC_Datagro
      else if code = 45 then MC_Inews
      else if code = 52 then MC_Amex
      else if code = 64 then MC_TesouroDireto
      else if code = 76 then MC_NyseFmv
      else if code = 77 then MC_NasdaqFmv
      else if code = 78 then MC_AmexFmv
      else MC_Unknown code)"

datatype AssetType =
    AT_Spot | AT_Option | AT_Index | AT_Commodity | AT_Currency | AT_Term | AT_Future
  | AT_Auction | AT_Bond | AT_Fractional | AT_OptionExercise | AT_Indicator | AT_Etf
  | AT_Volume | AT_OptionOnSpot | AT_OptionOnFuture | AT_Test | AT_Strategy | AT_Corp
  | AT_Secloan | AT_TesouroDireto | AT_Unknown u16

definition AssetType_from_code :: "u16 \<Rightarrow> AssetType" where
  "AssetType_from_code code =
     (if code = 1 then AT_Spot
      else if code = 2 then AT_Option
      else if code = 3 then AT_Index
      else if code = 4 then AT_Commodity
      else if code = 5 then AT_Currency
      else if code = 6 then AT_Term
      else if code = 7 then AT_Future
      else if code = 8 then AT_Auction
      else if code = 9 then AT_Bond
      else if code = 10 then AT_Fractional
      else if code = 11 then AT_OptionExercise
      else if code = 12 then AT_Indicator
      else if code = 13 then AT_Etf
      else if code = 15 then AT_Volume
      else if code = 16 then AT_OptionOnSpot
      else if code = 17 then AT_OptionOnFuture
      else if code = 18 then AT_Test
      else if code = 19 then AT_Strategy
      else if code = 20 then AT_Corp
      else if code = 21 then AT_Secloan
      else if code = 22 then AT_TesouroDireto
      else AT_Unknown code)"

datatype InstrumentStatus =
    IS_Normal | IS_Auction | IS_Suspended | IS_Frozen | IS_Empty | IS_Unknown i16

definition InstrumentStatus_from_code :: "i16 \<Rightarrow> InstrumentStatus" where
  "InstrumentStatus_from_code code =
     (if code = 101 then IS_Normal
      else if code = 102 then IS_Auction
      else if code = 105 then IS_Suspended
      else if code = 118 then IS_Frozen
      else if code = - 1 then IS_Empty
      else IS_Unknown code)"

datatype AssetStatus =
    AS_Normal | AS_Frozen | AS_Suspended | AS_Auction | AS_Inhibited | AS_Unknown u16

definition AssetStatus_from_code :: "u16 \<Rightarrow> AssetStatus" where
  "AssetStatus_from_code code =
     (if code = 0 then AS_Normal
      else if code = 1 then AS_Frozen
      else if code = 2 then AS_Suspended
      else if code = 3 then AS_Auction
      else if code = 4 then AS_Inhibited
      else AS_Unknown code)"

datatype OptionStyle =
    OS_American | OS_European | OS_None | OS_Unknown u8

definition OptionStyle_from_byte :: "u8 \<Rightarrow> OptionStyle" where
  "OptionStyle_from_byte b =
     (if b = CHR ''A'' then OS_American
      else if b = CHR ''E'' then OS_European
      else if b = CHR ''0'' then OS_None
      else OS_Unknown b)"

datatype OptionDirection =
    OD_Put | OD_Call | OD_Unknown u8

definition OptionDirection_from_byte :: "u8 \<Rightarrow> OptionDirection" where
  "OptionDirection_from_byte b =
     (if b = CHR ''P'' then OD_Put
      else if b = CHR ''C'' then OD_Call
      else OD_Unknown b)"

datatype TradeAggressor =
    TA_Undefined | TA_Buyer | TA_Seller | TA_Unknown u8

definition TradeAggressor_from_byte :: "u8 \<Rightarrow> TradeAggressor" where
  "TradeAggressor_from_byte b =
     (if b = CHR ''I'' then TA_Undefined
      else if b = CHR ''A'' then TA_Buyer
      else if b = CHR ''V'' then TA_Seller
      else TA_Unknown b)"

datatype TradeCondition =
    TC_NotDirect | TC_Direct | TC_Rlp | TC_Rfq | TC_MidpointTrade | TC_OpeningPrice
  | TC_PointInTimeAuction | TC_Unknown u16

definition TradeCondition_from_code :: "u16 \<Rightarrow> TradeCondition" where
  "TradeCondition_from_code code =
     (if code = 0 then TC_NotDirect
      else if code = 1 then TC_Direct
      else if code = 2 then TC_Rlp
      else if code = 3 then TC_Rfq
      else if code = 4 then TC_MidpointTrade
      else if code = 5 then TC_OpeningPrice
      else if code = 6 then TC_PointInTimeAuction
      else TC_Unknown code)"

section \<open>The phase of an asset group\<close>

datatype AssetGroupPhase =
    AG_PreOpen | AG_Open | AG_PreClose | AG_Close | AG_PreAfterOpen | AG_AfterOpen | AG_AfterClose
  | AG_Final | AG_Closed | AG_Paused | AG_Unknown u8 u8

text \<open>\<open>let mut buf = [0u8; 2]\<close> with the first \<open>min(len, 2)\<close> bytes copied in.\<close>

definition two_bytes :: "bytes \<Rightarrow> u8 \<times> u8" where
  "two_bytes raw = (case raw of [] \<Rightarrow> (char_of (0::nat), char_of (0::nat))
                    | [a] \<Rightarrow> (a, char_of (0::nat)) | a # b # _ \<Rightarrow> (a, b))"

definition AssetGroupPhase_from_code :: "bytes \<Rightarrow> AssetGroupPhase" where
  "AssetGroupPhase_from_code code =
     (if code = ''P'' then AG_PreOpen
      else if code = ''A'' then AG_Open
      else if code = ''PN'' then AG_PreClose
      else if code = ''N'' then AG_Close
      else if code = ''E'' then AG_PreAfterOpen
      else if code = ''R'' then AG_AfterOpen
      else if code = ''NE'' then AG_AfterClose
      else if code = ''F'' then AG_Final
      else if code = ''NO'' then AG_Closed
      else if code = ''T'' then AG_Paused
      else (let (a, b) = two_bytes code in AG_Unknown a b))"

section \<open>Sides\<close>

datatype Side = Buy | Sell

definition Side_from_byte :: "u8 \<Rightarrow> Side option" where
  "Side_from_byte b =
     (if b = CHR ''A'' then Some Buy else if b = CHR ''V'' then Some Sell else None)"

primrec Side_as_byte :: "Side \<Rightarrow> u8" where
  "Side_as_byte Buy = CHR ''A''"
| "Side_as_byte Sell = CHR ''V''"

primrec Side_fmt :: "Side \<Rightarrow> bytes" where
  "Side_fmt Buy = ''buy''"
| "Side_fmt Sell = ''sell''"

section \<open>Codes read back\<close>

primrec MarketCode_code :: "MarketCode \<Rightarrow> u16" where
  "MarketCode_code MC_Bovespa = 1"
| "MarketCode_code MC_DowJones = 2"
| "MarketCode_code MC_Bmf = 3"
| "MarketCode_code MC_Indices = 4"
| "MarketCode_code MC_Money = 5"
| "MarketCode_code MC_Forex = 7"
| "MarketCode_code MC_Indicators = 8"
| "MarketCode_code MC_Nyse = 10"
| "MarketCode_code MC_Nasdaq = 12"
| "MarketCode_code MC_Cfd = 13"
| "MarketCode_code MC_Bitcoin = 30"
| "MarketCode_code MC_Datagro = 44"
| "MarketCode_code MC_Inews = 45"
| "MarketCode_code MC_Amex = 52"
| "MarketCode_code MC_TesouroDireto = 64"
| "MarketCode_code MC_NyseFmv = 76"
| "MarketCode_code MC_NasdaqFmv = 77"
| "MarketCode_code MC_AmexFmv = 78"
| "MarketCode_code (MC_Unknown c) = c"

primrec AssetType_code :: "AssetType \<Rightarrow> u16" where
  "AssetType_code AT_Spot = 1"
| "AssetType_code AT_Option = 2"
| "AssetType_code AT_Index = 3"
| "AssetType_code AT_Commodity = 4"
| "AssetType_code AT_Currency = 5"
| "AssetType_code AT_Term = 6"
| "AssetType_code AT_Future = 7"
| "AssetType_code AT_Auction = 8"
| "AssetType_code AT_Bond = 9"
| "AssetType_code AT_Fractional = 10"
| "AssetType_code AT_OptionExercise = 11"
| "AssetType_code AT_Indicator = 12"
| "AssetType_code AT_Etf = 13"
| "AssetType_code AT_Volume = 15"
| "AssetType_code AT_OptionOnSpot = 16"
| "AssetType_code AT_OptionOnFuture = 17"
| "AssetType_code AT_Test = 18"
| "AssetType_code AT_Strategy = 19"
| "AssetType_code AT_Corp = 20"
| "AssetType_code AT_Secloan = 21"
| "AssetType_code AT_TesouroDireto = 22"
| "AssetType_code (AT_Unknown c) = c"

primrec InstrumentStatus_code :: "InstrumentStatus \<Rightarrow> i16" where
  "InstrumentStatus_code IS_Normal = 101"
| "InstrumentStatus_code IS_Auction = 102"
| "InstrumentStatus_code IS_Suspended = 105"
| "InstrumentStatus_code IS_Frozen = 118"
| "InstrumentStatus_code IS_Empty = - 1"
| "InstrumentStatus_code (IS_Unknown c) = c"

primrec AssetStatus_code :: "AssetStatus \<Rightarrow> u16" where
  "AssetStatus_code AS_Normal = 0"
| "AssetStatus_code AS_Frozen = 1"
| "AssetStatus_code AS_Suspended = 2"
| "AssetStatus_code AS_Auction = 3"
| "AssetStatus_code AS_Inhibited = 4"
| "AssetStatus_code (AS_Unknown c) = c"

primrec OptionStyle_code :: "OptionStyle \<Rightarrow> u8" where
  "OptionStyle_code OS_American = CHR ''A''"
| "OptionStyle_code OS_European = CHR ''E''"
| "OptionStyle_code OS_None = CHR ''0''"
| "OptionStyle_code (OS_Unknown c) = c"

primrec OptionDirection_code :: "OptionDirection \<Rightarrow> u8" where
  "OptionDirection_code OD_Put = CHR ''P''"
| "OptionDirection_code OD_Call = CHR ''C''"
| "OptionDirection_code (OD_Unknown c) = c"

primrec TradeAggressor_code :: "TradeAggressor \<Rightarrow> u8" where
  "TradeAggressor_code TA_Undefined = CHR ''I''"
| "TradeAggressor_code TA_Buyer = CHR ''A''"
| "TradeAggressor_code TA_Seller = CHR ''V''"
| "TradeAggressor_code (TA_Unknown c) = c"

primrec TradeCondition_code :: "TradeCondition \<Rightarrow> u16" where
  "TradeCondition_code TC_NotDirect = 0"
| "TradeCondition_code TC_Direct = 1"
| "TradeCondition_code TC_Rlp = 2"
| "TradeCondition_code TC_Rfq = 3"
| "TradeCondition_code TC_MidpointTrade = 4"
| "TradeCondition_code TC_OpeningPrice = 5"
| "TradeCondition_code TC_PointInTimeAuction = 6"
| "TradeCondition_code (TC_Unknown c) = c"

lemma MarketCode_code_from_code [simp]: "MarketCode_code (MarketCode_from_code code) = code"
  by (simp add: MarketCode_from_code_def)

lemma AssetType_code_from_code [simp]: "AssetType_code (AssetType_from_code code) = code"
  by (simp add: AssetType_from_code_def)

lemma InstrumentStatus_code_from_code [simp]: "InstrumentStatus_code (InstrumentStatus_from_code code) = code"
  by (simp add: InstrumentStatus_from_code_def)

lemma AssetStatus_code_from_code [simp]: "AssetStatus_code (AssetStatus_from_code code) = code"
  by (simp add: AssetStatus_from_code_def)

lemma OptionStyle_code_from_byte [simp]: "OptionStyle_code (OptionStyle_from_byte b) = b"
  by (simp add: OptionStyle_from_byte_def)

lemma OptionDirection_code_from_byte [simp]: "OptionDirection_code (OptionDirection_from_byte b) = b"
  by (simp add: OptionDirection_from_byte_def)

lemma TradeAggressor_code_from_byte [simp]: "TradeAggressor_code (TradeAggressor_from_byte b) = b"
  by (simp add: TradeAggressor_from_byte_def)

lemma TradeCondition_code_from_code [simp]: "TradeCondition_code (TradeCondition_from_code code) = code"
  by (simp add: TradeCondition_from_code_def)

lemma Side_from_as_byte [simp]: "Side_from_byte (Side_as_byte s) = Some s"
  by (cases s) (simp_all add: Side_from_byte_def)

lemma Side_from_byte_Some: "Side_from_byte b = Some s \<longleftrightarrow> b = Side_as_byte s"
  by (cases s) (auto simp: Side_from_byte_def)

lemma Side_from_byte_None: "Side_from_byte b = None \<longleftrightarrow> b \<noteq> CHR ''A'' \<and> b \<noteq> CHR ''V''"
  by (simp add: Side_from_byte_def)

text \<open>A phase code of more than two bytes is cut: two different codes give one value.\<close>

lemma AssetGroupPhase_truncates:
  "AssetGroupPhase_from_code ''ZZ1'' = AssetGroupPhase_from_code ''ZZ2''"
  by (simp add: AssetGroupPhase_from_code_def two_bytes_def)

end
