(* ===== verification/F64.thy ===== *)
theory F64
  imports Prelude
begin

text \<open>
  The part of Rust's \<open>f64\<close> the program uses. An \<open>f64\<close> is its IEEE 754 binary64 bit pattern
  (\<open>f64::to_bits\<close>), a 64-bit word. \<open>str::parse::<f64>\<close> is documented to accept the grammar below
  and to return the double nearest to the decimal number, ties to the even mantissa; it is given
  here by exact arithmetic on natural numbers.
\<close>

type_synonym f64 = u64

section \<open>Rounding a ratio to a double\<close>

fun nat_bits :: "nat \<Rightarrow> nat" where
  "nat_bits n = (if n = 0 then 0 else Suc (nat_bits (n div 2)))"

declare nat_bits.simps [simp del]

text \<open>\<open>num / den \<ge> 2 ^ e\<close>, and the exponent \<open>e\<close> with \<open>2 ^ e \<le> num / den < 2 ^ (e + 1)\<close>.\<close>

definition ratio_ge :: "nat \<Rightarrow> nat \<Rightarrow> int \<Rightarrow> bool" where
  "ratio_ge num den e \<longleftrightarrow>
     (if 0 \<le> e then den * 2 ^ nat e \<le> num else den \<le> num * 2 ^ nat (- e))"

definition ratio_exp :: "nat \<Rightarrow> nat \<Rightarrow> int" where
  "ratio_exp num den =
     (let e = int (nat_bits num) - int (nat_bits den)
      in if ratio_ge num den e then e else e - 1)"

definition round_half_even :: "nat \<Rightarrow> nat \<Rightarrow> nat" where
  "round_half_even a b =
     (let q = a div b; r = a mod b
      in if 2 * r < b then q else if b < 2 * r then Suc q else if even q then q else Suc q)"

definition inf_bits :: nat where
  "inf_bits = 2047 * 2 ^ 52"

definition ratio_mantissa :: "nat \<Rightarrow> nat \<Rightarrow> int \<Rightarrow> nat" where
  "ratio_mantissa num den q =
     (if 0 \<le> q then round_half_even num (den * 2 ^ nat q)
      else round_half_even (num * 2 ^ nat (- q)) den)"

text \<open>The magnitude bits of \<open>num / den\<close>: the biased exponent above a 52-bit fraction. The mantissa
  carries its hidden bit, which adds one to the exponent field; below \<open>2 ^ -1022\<close> the exponent is
  clamped and the hidden bit is missing, and an exponent past the largest is infinity.\<close>

definition f64_magnitude :: "nat \<Rightarrow> nat \<Rightarrow> nat" where
  "f64_magnitude num den =
     (if num = 0 then 0
      else let e = max (ratio_exp num den) (- 1022)
           in min (nat (e + 1022) * 2 ^ 52 + ratio_mantissa num den (e - 52)) inf_bits)"

definition f64_with_sign :: "bool \<Rightarrow> nat \<Rightarrow> f64" where
  "f64_with_sign neg mag = word_of_nat (mag + (if neg then 2 ^ 63 else 0))"

definition f64_of_decimal :: "bool \<Rightarrow> nat \<Rightarrow> int \<Rightarrow> f64" where
  "f64_of_decimal neg m e =
     f64_with_sign neg
       (if 0 \<le> e then f64_magnitude (m * 10 ^ nat e) 1 else f64_magnitude m (10 ^ nat (- e)))"

section \<open>The grammar\<close>

definition parse_exponent :: "bytes \<Rightarrow> int option" where
  "parse_exponent s =
     (let (neg, ds) = (case s of
            c # r \<Rightarrow> if c = CHR ''-'' then (True, r) else if c = CHR ''+'' then (False, r) else (False, s)
          | [] \<Rightarrow> (False, s))
      in if ds \<noteq> [] \<and> list_all is_digit ds
         then Some (if neg then - int (dec_value ds) else int (dec_value ds)) else None)"

definition parse_number :: "bytes \<Rightarrow> (nat \<times> int) option" where
  "parse_number s =
     (let ip = takeWhile is_digit s; r1 = dropWhile is_digit s;
          (fp, r2) = (case r1 of
             c # r \<Rightarrow> if c = CHR ''.'' then (takeWhile is_digit r, dropWhile is_digit r) else ([], r1)
           | [] \<Rightarrow> ([], r1));
          m = dec_value (ip @ fp); k = int (length fp)
      in if ip = [] \<and> fp = [] then None
         else case r2 of
           [] \<Rightarrow> Some (m, - k)
         | c # r \<Rightarrow>
             if c = CHR ''e'' \<or> c = CHR ''E'' then map_option (\<lambda>x. (m, x - k)) (parse_exponent r)
             else None)"

definition ascii_lower :: "bytes \<Rightarrow> bytes" where
  "ascii_lower s = map (\<lambda>c. if byte_in c 65 90 then char_of (of_char c + 32 :: nat) else c) s"

definition parse_inf_nan :: "bytes \<Rightarrow> nat option" where
  "parse_inf_nan s =
     (let l = ascii_lower s
      in if l = ''nan'' then Some (inf_bits + 2 ^ 51)
         else if l = ''inf'' \<or> l = ''infinity'' then Some inf_bits else None)"

definition f64_from_str :: "bytes \<Rightarrow> f64 option" where
  "f64_from_str s =
     (case s of [] \<Rightarrow> None
      | c # r \<Rightarrow>
          let neg = (c = CHR ''-''); body = (if c = CHR ''-'' \<or> c = CHR ''+'' then r else s)
          in if body = [] then None
             else (case parse_number body of
               Some (m, e) \<Rightarrow> Some (f64_of_decimal neg m e)
             | None \<Rightarrow> map_option (f64_with_sign neg) (parse_inf_nan body)))"

definition f64_zero :: f64 where
  "f64_zero = 0"

lemmas f64_eval = f64_from_str_def parse_number_def parse_inf_nan_def parse_exponent_def
  f64_of_decimal_def f64_with_sign_def f64_magnitude_def ratio_mantissa_def round_half_even_def
  ratio_exp_def ratio_ge_def nat_bits.simps inf_bits_def dec_value_def digit_val_def is_digit_def
  byte_in_def ascii_lower_def

text \<open>Decimals of the protocol's documentation against the bit patterns of IEEE 754, and texts
  that are no numbers.\<close>

lemma f64_examples:
  "f64_from_str ''59.95'' = Some 0x404DF9999999999A"
  "f64_from_str ''-0.1'' = Some 0xBFB999999999999A"
  "f64_from_str ''abc'' = None"
  "f64_from_str ''.'' = None"
  by (simp_all add: f64_eval)

end
