(* ===== verification/Types.thy ===== *)
theory Types
  imports Enums F64
begin

text \<open>
  \<^verbatim>\<open>crates/cedro-protocol/src/types.rs\<close>: the typed messages the parsers produce. A struct is a
  record whose fields carry a prefix of the struct (several structs share field names), an enum is
  a datatype with the source's variants under a prefix; \<open>Bytes\<close> is a byte list and \<open>f64\<close> a bit
  pattern.
\<close>

section \<open>Quotes\<close>

datatype QuoteFieldId = QuoteFieldId u16

datatype QuoteFieldValue =
    QV_Float f64
  | QV_Int i64
  | QV_Time u32
  | QV_Date u32
  | QV_DateTime u64
  | QV_Char u8
  | QV_Phase u8 u8
  | QV_Str bytes

type_synonym QuoteDiff = "(QuoteFieldId \<times> QuoteFieldValue) list"

section \<open>Detailed and aggregated books\<close>

record BookEntry =
  be_position :: u32
  be_side :: Side
  be_price :: f64
  be_quantity :: u64
  be_broker_id :: u32
  be_timestamp_ddmmhhmm :: u32
  be_order_id :: "bytes option"
  be_offer_type :: "u8 option"

datatype BookDelete = BD_Single Side u32 | BD_PrefixInclusive Side u32 | BD_ClearAll

datatype BookOp =
    BO_Add BookEntry
  | BO_Update u32 BookEntry
  | BO_Delete BookDelete
  | BO_EndOfInitial

record AggBookLevel =
  al_position :: u32
  al_side :: Side
  al_price :: f64
  al_quantity :: u64
  al_offer_count :: u32
  al_timestamp_ddmmhhmm :: u32

datatype AggBookOp =
    AB_Add AggBookLevel
  | AB_Update AggBookLevel
  | AB_Delete BookDelete
  | AB_EndOfInitial

section \<open>Trades\<close>

record Trade =
  tr_operation_code :: u8
  tr_time_hhmmss :: u32
  tr_price :: f64
  tr_broker_buy_id :: u32
  tr_broker_sell_id :: u32
  tr_quantity :: u64
  tr_trade_id :: bytes
  tr_request_id :: "bytes option"
  tr_condition :: TradeCondition
  tr_aggressor :: TradeAggressor
  tr_original_conditions :: bytes

datatype TradeOperation =
    TO_Add Trade
  | TO_Delete bytes
  | TO_RemoveAll
  | TO_EndOfSubscribe
  | TO_EndOfSnapshot bytes

section \<open>News, volume at price, server time, catalog and brokers\<close>

record NewsHeadline =
  nh_agency :: bytes
  nh_code :: bytes
  nh_date :: u32
  nh_time :: u32
  nh_category :: u32
  nh_title :: bytes

datatype NewsMessage =
    NM_Headline NewsHeadline
  | NM_HistoryItem bytes NewsHeadline
  | NM_HistoryEnd bytes
  | NM_Body (nm_request_id: bytes) (nm_agency: bytes) (nm_code: bytes) (nm_body_raw: bytes)

record VapEntry =
  va_ticker :: bytes
  va_price :: f64
  va_buyer_trades :: f64
  va_buyer_volume :: f64
  va_seller_trades :: f64
  va_seller_volume :: f64
  va_direct_trades :: f64
  va_direct_volume :: f64
  va_undefined_trades :: f64
  va_undefined_volume :: f64
  va_period_minutes :: "u32 option"
  va_rlp_trades :: f64
  va_rlp_volume :: f64
  va_auction_trades :: f64
  va_auction_volume :: f64

record ServerTime =
  sv_date :: u32
  sv_time :: u32

datatype MqcItem = MQ_Symbol bytes bytes | MQ_End bytes

record GpnItem =
  gp_exchange :: bytes
  gp_code :: bytes
  gp_name :: bytes
  gp_cedro_id :: bytes
  gp_active :: bool

section \<open>Protocol errors\<close>

record CedroError =
  ce_code :: u16
  ce_context :: "bytes list"

definition is_client_bug :: "CedroError \<Rightarrow> bool" where
  "is_client_bug e \<longleftrightarrow> ce_code e = 1 \<or> ce_code e = 4 \<or> ce_code e = 5 \<or> ce_code e = 10 \<or>
     ce_code e = 13 \<or> ce_code e = 14"

definition is_transient_server :: "CedroError \<Rightarrow> bool" where
  "is_transient_server e \<longleftrightarrow> ce_code e = 11 \<or> ce_code e = 15"

definition is_migration :: "CedroError \<Rightarrow> bool" where
  "is_migration e \<longleftrightarrow> ce_code e = 12"

definition is_forced_disconnect :: "CedroError \<Rightarrow> bool" where
  "is_forced_disconnect e \<longleftrightarrow> 6 \<le> ce_code e \<and> ce_code e \<le> 9"

section \<open>Messages\<close>

datatype ProtocolMessage =
    PM_Quote bytes u32 QuoteDiff
  | PM_Book bytes BookOp
  | PM_AggBook bytes AggBookOp
  | PM_Trade bytes TradeOperation
  | PM_News NewsMessage
  | PM_Vap VapEntry
  | PM_ServerTime ServerTime
  | PM_MqcItem MqcItem
  | PM_GpnItem GpnItem
  | PM_Error CedroError

lemmas error_class_defs = is_client_bug_def is_transient_server_def is_migration_def
  is_forced_disconnect_def

lemma forced_disconnect_codes:
  "is_forced_disconnect e \<longleftrightarrow> ce_code e \<in> {6, 7, 8, 9}"
proof -
  have "6 \<le> c \<and> c \<le> 9 \<longleftrightarrow> c = 6 \<or> c = 7 \<or> c = 8 \<or> c = 9" for c :: u16
    by unat_arith
  then show ?thesis by (simp add: is_forced_disconnect_def)
qed

end
