(* ===== verification/Scanner.thy ===== *)
theory Scanner
  imports Pull_Loop Types
begin

text \<open>
  \<^verbatim>\<open>crates/cedro-protocol/src/parser/scanner.rs\<close> and the error type of \<^verbatim>\<open>parser/mod.rs\<close>: the
  tokenizer over \<open>:\<close>-separated fields and the number parsers. The scanner is the source's record
  of a buffer and an index into it; \<open>split_on\<close>, the list of all fields, is the reference, and
  \<open>scan_tokens\<close> the fields a scanner has still to deliver. A parser that threads a
  \<open>&mut Scanner\<close> and uses \<open>?\<close> is a function from a scanner to an error or a value with the next
  scanner (\<open>sc_bind\<close>). The \<open>debug_assert_eq!\<close> on the header token of each frame parser is compiled
  out of a release build and has no place in the model; that the dispatcher makes every one of
  them true is a property of \<open>parse_frame\<close>.
\<close>

named_theorems scan_simps \<open>parsing steps as equations on the tokens still to come\<close>
named_theorems parser_defs \<open>definitions of the frame parsers\<close>

section \<open>Parse errors\<close>

datatype ParseError =
    PE_Empty
  | PE_UnknownHeader bytes
  | PE_MissingField (pe_position: usize) (pe_expected: string)
  | PE_InvalidField (pe_field: string) (pe_reason: string)
  | PE_BadEncoding string
  | PE_BadInteger string
  | PE_BadFloat string
  | PE_NotImplemented string

section \<open>The scanner\<close>

record Scanner =
  sc_buf :: bytes
  sc_pos :: usize
  sc_field_index :: usize

definition Scanner_new :: "bytes \<Rightarrow> Scanner" where
  "Scanner_new buf = \<lparr>sc_buf = buf, sc_pos = 0, sc_field_index = 0\<rparr>"

definition scan_next :: "Scanner \<Rightarrow> bytes option \<times> Scanner" where
  "scan_next s =
     (if sc_pos s > length (sc_buf s) then (None, s)
      else if sc_pos s = length (sc_buf s) then
        (Some [], s\<lparr>sc_pos := length (sc_buf s) + 1, sc_field_index := sc_field_index s + 1\<rparr>)
      else
        let rest = drop (sc_pos s) (sc_buf s) in
        case memchr (CHR '':'') rest of
          Some rel \<Rightarrow>
            (Some (take rel (drop (sc_pos s) (sc_buf s))),
             s\<lparr>sc_pos := sc_pos s + (rel + 1), sc_field_index := sc_field_index s + 1\<rparr>)
        | None \<Rightarrow>
            (Some (drop (sc_pos s) (sc_buf s)),
             s\<lparr>sc_pos := length (sc_buf s) + 1, sc_field_index := sc_field_index s + 1\<rparr>))"

definition fields_consumed :: "Scanner \<Rightarrow> usize" where
  "fields_consumed s = sc_field_index s"

definition scan_rest :: "Scanner \<Rightarrow> bytes" where
  "scan_rest s = (if sc_pos s > length (sc_buf s) then [] else drop (sc_pos s) (sc_buf s))"

definition take_rest :: "Scanner \<Rightarrow> bytes \<times> Scanner" where
  "take_rest s =
     (if sc_pos s > length (sc_buf s) then [] else drop (sc_pos s) (sc_buf s),
      s\<lparr>sc_pos := length (sc_buf s) + 1\<rparr>)"

section \<open>Parsers\<close>

type_synonym 'a parser = "Scanner \<Rightarrow> ParseError + 'a \<times> Scanner"

definition sc_return :: "'a \<Rightarrow> 'a parser" where
  "sc_return x s = Inr (x, s)"

definition sc_fail :: "ParseError \<Rightarrow> 'a parser" where
  "sc_fail e s = Inl e"

definition sc_bind :: "'a parser \<Rightarrow> ('a \<Rightarrow> 'b parser) \<Rightarrow> 'b parser" where
  "sc_bind m f s = (case m s of Inl e \<Rightarrow> Inl e | Inr (x, t) \<Rightarrow> f x t)"

definition sc_lift :: "ParseError + 'a \<Rightarrow> 'a parser" where
  "sc_lift r s = (case r of Inl e \<Rightarrow> Inl e | Inr x \<Rightarrow> Inr (x, s))"

definition sc_next :: "bytes option parser" where
  "sc_next s = Inr (scan_next s)"

definition sc_take_rest :: "bytes parser" where
  "sc_take_rest s = Inr (take_rest s)"

definition sc_run :: "'a parser \<Rightarrow> bytes \<Rightarrow> ParseError + 'a" where
  "sc_run m frame = (case m (Scanner_new frame) of Inl e \<Rightarrow> Inl e | Inr (x, _) \<Rightarrow> Inr x)"

definition required :: "string \<Rightarrow> bytes parser" where
  "required expected s =
     (case scan_next s of
        (Some t, s') \<Rightarrow> Inr (t, s')
      | (None, s') \<Rightarrow> Inl (PE_MissingField (sc_field_index s' + 1) expected))"

section \<open>Numbers\<close>

text \<open>\<open>checked_mul\<close> and \<open>checked_add\<close>, unsigned and signed, at any width.\<close>

definition checked_mul :: "'a::len word \<Rightarrow> 'a word \<Rightarrow> 'a word option" where
  "checked_mul a b = (if unat a * unat b < 2 ^ LENGTH('a) then Some (a * b) else None)"

definition checked_add :: "'a::len word \<Rightarrow> 'a word \<Rightarrow> 'a word option" where
  "checked_add a b = (if unat a + unat b < 2 ^ LENGTH('a) then Some (a + b) else None)"

definition in_i64 :: "int \<Rightarrow> bool" where
  "in_i64 i \<longleftrightarrow> - (2 ^ 63) \<le> i \<and> i < 2 ^ 63"

definition checked_mul_i64 :: "i64 \<Rightarrow> i64 \<Rightarrow> i64 option" where
  "checked_mul_i64 a b = (if in_i64 (sint a * sint b) then Some (a * b) else None)"

definition checked_add_i64 :: "i64 \<Rightarrow> i64 \<Rightarrow> i64 option" where
  "checked_add_i64 a b = (if in_i64 (sint a + sint b) then Some (a + b) else None)"

fun parse_u64_loop :: "string \<Rightarrow> u64 \<Rightarrow> bytes \<Rightarrow> ParseError + u64" where
  "parse_u64_loop field n [] = Inr n"
| "parse_u64_loop field n (c # cs) =
     (if \<not> is_digit c then Inl (PE_BadInteger field)
      else case Option.bind (checked_mul n 10) (\<lambda>v. checked_add v (word_of_nat (digit_val c))) of
          None \<Rightarrow> Inl (PE_BadInteger field)
        | Some m \<Rightarrow> parse_u64_loop field m cs)"

definition parse_u64 :: "bytes \<Rightarrow> string \<Rightarrow> ParseError + u64" where
  "parse_u64 b field = (if b = [] then Inl (PE_BadInteger field) else parse_u64_loop field 0 b)"

definition parse_u32 :: "bytes \<Rightarrow> string \<Rightarrow> ParseError + u32" where
  "parse_u32 b field =
     bind_res (parse_u64 b field)
       (\<lambda>n. if unat n < 2 ^ 32 then Inr (ucast n) else Inl (PE_BadInteger field))"

definition parse_u16 :: "bytes \<Rightarrow> string \<Rightarrow> ParseError + u16" where
  "parse_u16 b field =
     bind_res (parse_u64 b field)
       (\<lambda>n. if unat n < 2 ^ 16 then Inr (ucast n) else Inl (PE_BadInteger field))"

fun parse_i64_loop :: "string \<Rightarrow> i64 \<Rightarrow> bytes \<Rightarrow> ParseError + i64" where
  "parse_i64_loop field n [] = Inr n"
| "parse_i64_loop field n (c # cs) =
     (if \<not> is_digit c then Inl (PE_BadInteger field)
      else case Option.bind (checked_mul_i64 n 10)
                  (\<lambda>v. checked_add_i64 v (word_of_nat (digit_val c))) of
          None \<Rightarrow> Inl (PE_BadInteger field)
        | Some m \<Rightarrow> parse_i64_loop field m cs)"

definition parse_i64 :: "bytes \<Rightarrow> string \<Rightarrow> ParseError + i64" where
  "parse_i64 b field =
     (case b of
        [] \<Rightarrow> Inl (PE_BadInteger field)
      | c # cs \<Rightarrow>
          let (sign, rest) = (if c = CHR ''-'' then (- 1, cs) else (1, b))
          in if rest = [] then Inl (PE_BadInteger field)
             else bind_res (parse_i64_loop field 0 rest) (\<lambda>n. Inr (sign * n)))"

definition parse_f64 :: "bytes \<Rightarrow> string \<Rightarrow> ParseError + f64" where
  "parse_f64 b field =
     (if b = [] then Inl (PE_BadFloat field)
      else if \<not> utf8_valid b then Inl (PE_BadEncoding field)
      else ok_or (f64_from_str b) (PE_BadFloat field))"

definition required_u64 :: "string \<Rightarrow> u64 parser" where
  "required_u64 field = sc_bind (required field) (\<lambda>b. sc_lift (parse_u64 b field))"

definition required_u32 :: "string \<Rightarrow> u32 parser" where
  "required_u32 field = sc_bind (required field) (\<lambda>b. sc_lift (parse_u32 b field))"

definition required_f64 :: "string \<Rightarrow> f64 parser" where
  "required_f64 field = sc_bind (required field) (\<lambda>b. sc_lift (parse_f64 b field))"

section \<open>The fields of a buffer\<close>

fun split_on :: "u8 \<Rightarrow> bytes \<Rightarrow> bytes list" where
  "split_on c [] = [[]]"
| "split_on c (b # bs) =
     (if b = c then [] # split_on c bs
      else (case split_on c bs of [] \<Rightarrow> [[b]] | t # ts \<Rightarrow> (b # t) # ts))"

fun join_on :: "u8 \<Rightarrow> bytes list \<Rightarrow> bytes" where
  "join_on c [] = []"
| "join_on c [t] = t"
| "join_on c (t # u # ts) = t @ c # join_on c (u # ts)"

lemma split_on_nonempty [simp]: "split_on c bs \<noteq> []"
  by (cases bs) (auto split: list.splits)

lemma split_on_no: "c \<notin> set bs \<Longrightarrow> split_on c bs = [bs]"
  by (induction bs) auto

lemma split_on_append: "c \<notin> set xs \<Longrightarrow> split_on c (xs @ c # ys) = xs # split_on c ys"
  by (induction xs) auto

lemma split_on_tokens: "t \<in> set (split_on c bs) \<Longrightarrow> c \<notin> set t"
proof (induction bs arbitrary: t)
  case Nil
  then show ?case by simp
next
  case (Cons b bs)
  obtain u us where "split_on c bs = u # us"
    by (metis list.exhaust split_on_nonempty)
  with Cons show ?case by (auto split: if_splits)
qed

lemma join_split_on [simp]: "join_on c (split_on c bs) = bs"
proof (induction bs)
  case Nil
  then show ?case by simp
next
  case (Cons b bs)
  obtain u us where "split_on c bs = u # us"
    by (metis list.exhaust split_on_nonempty)
  with Cons show ?case by (cases us) auto
qed

lemma split_join_on:
  "ts \<noteq> [] \<Longrightarrow> \<forall>t \<in> set ts. c \<notin> set t \<Longrightarrow> split_on c (join_on c ts) = ts"
  by (induction c ts rule: join_on.induct) (simp_all add: split_on_no split_on_append)

section \<open>The scanner delivers the fields\<close>

definition scan_tokens :: "Scanner \<Rightarrow> bytes list" where
  "scan_tokens s =
     (if sc_pos s > length (sc_buf s) then [] else split_on (CHR '':'') (drop (sc_pos s) (sc_buf s)))"

definition scan_adv :: "Scanner \<Rightarrow> Scanner" where
  "scan_adv s = snd (scan_next s)"

lemma split_on_memchr:
  "split_on c bs = (case memchr c bs of None \<Rightarrow> [bs]
                    | Some i \<Rightarrow> take i bs # split_on c (drop (Suc i) bs))"
proof (cases "memchr c bs")
  case None
  moreover from None have "c \<notin> set bs" by (auto simp: memchr_def find_index_None)
  ultimately show ?thesis by (simp add: split_on_no)
next
  case (Some i)
  then have s: "bs = take i bs @ bs ! i # drop (Suc i) bs" "bs ! i = c" "c \<notin> set (take i bs)"
    by (auto simp: memchr_def dest: find_index_split)
  then show ?thesis using Some split_on_append [of c "take i bs" "drop (Suc i) bs"] by simp
qed

lemma scan_next_tokens:
  "scan_next s = (case scan_tokens s of [] \<Rightarrow> (None, s) | t # ts \<Rightarrow> (Some t, scan_adv s))"
proof (cases "sc_pos s < length (sc_buf s)")
  case True
  then show ?thesis
    by (subst scan_tokens_def, subst split_on_memchr)
       (auto simp: scan_next_def scan_adv_def Let_def split: option.splits)
qed (auto simp: scan_next_def scan_tokens_def scan_adv_def)

lemma memchr_drop_bound: "memchr c (drop n xs) = Some i \<Longrightarrow> n + i < length xs"
  by (auto simp: memchr_def dest!: find_index_less)

lemma scan_tokens_adv [simp, scan_simps]: "scan_tokens (scan_adv s) = tl (scan_tokens s)"
proof (cases "sc_pos s < length (sc_buf s)")
  case True
  then show ?thesis
    by (subst (2) scan_tokens_def, subst split_on_memchr)
       (auto simp: scan_next_def scan_adv_def scan_tokens_def Let_def add.commute
         split: option.splits dest!: memchr_drop_bound)
qed (auto simp: scan_next_def scan_tokens_def scan_adv_def)

lemma scan_tokens_new [simp, scan_simps]: "scan_tokens (Scanner_new bs) = split_on (CHR '':'') bs"
  by (simp add: scan_tokens_def Scanner_new_def)

lemma field_index_adv [simp, scan_simps]:
  "sc_field_index (scan_adv s) = (if scan_tokens s = [] then sc_field_index s else Suc (sc_field_index s))"
  by (auto simp: scan_adv_def scan_next_def scan_tokens_def Let_def split: option.splits)

lemma field_index_new [simp, scan_simps]: "sc_field_index (Scanner_new bs) = 0"
  by (simp add: Scanner_new_def)

lemma sc_buf_adv [simp]: "sc_buf (scan_adv s) = sc_buf s"
  by (auto simp: scan_adv_def scan_next_def Let_def split: option.splits)

lemma take_rest_join [scan_simps]: "fst (take_rest s) = join_on (CHR '':'') (scan_tokens s)"
  by (simp add: take_rest_def scan_tokens_def)

lemma scan_rest_join: "scan_rest s = join_on (CHR '':'') (scan_tokens s)"
  by (simp add: scan_rest_def scan_tokens_def)

lemma take_rest_exhausts: "scan_tokens (snd (take_rest s)) = []"
  by (simp add: take_rest_def scan_tokens_def)

lemma scan_next_fewer: "scan_next s = (Some t, u) \<Longrightarrow> length (scan_tokens u) < length (scan_tokens s)"
  by (auto simp: scan_next_tokens split: list.splits)

text \<open>The loop \<open>while let Some(token) = scanner.next() { context.push(token) }\<close>.\<close>

function scan_collect :: "Scanner \<Rightarrow> bytes list \<times> Scanner" where
  "scan_collect s = (case scan_next s of
       (None, t) \<Rightarrow> ([], t)
     | (Some x, t) \<Rightarrow> let (xs, u) = scan_collect t in (x # xs, u))"
  by pat_completeness auto
termination
  by (relation "measure (\<lambda>s. length (scan_tokens s))") (auto dest: scan_next_fewer [OF sym])

declare scan_collect.simps [simp del]

interpretation scanner: pull_loop scan_next scan_collect scan_tokens
proof
  fix s :: Scanner
  show "scan_next s = (None, s)" if "scan_tokens s = []"
    using that by (simp add: scan_next_tokens)
  show "\<exists>t. scan_next s = (Some x, t) \<and> scan_tokens t = xs" if "scan_tokens s = x # xs" for x xs
    using that by (simp add: scan_next_tokens)
  show "scan_collect s = ([], t)" if "scan_next s = (None, t)" for t
    using that by (simp add: scan_collect.simps)
  show "scan_collect s = (x # fst (scan_collect t), snd (scan_collect t))"
    if "scan_next s = (Some x, t)" for x t
    using that by (simp add: scan_collect.simps [of s] split: prod.splits)
qed

section \<open>Parsing steps as equations on tokens\<close>

lemma sc_return_simp [simp, scan_simps]: "sc_return x s = Inr (x, s)"
  by (simp add: sc_return_def)

lemma sc_fail_simp [simp, scan_simps]: "sc_fail e s = Inl e"
  by (simp add: sc_fail_def)

lemma sc_lift_simps [simp, scan_simps]: "sc_lift (Inr x) s = Inr (x, s)" "sc_lift (Inl e) s = Inl e"
  by (simp_all add: sc_lift_def)

lemma required_tokens [scan_simps]:
  "required e s = (case scan_tokens s of [] \<Rightarrow> Inl (PE_MissingField (sc_field_index s + 1) e)
                   | t # ts \<Rightarrow> Inr (t, scan_adv s))"
  by (simp add: required_def scan_next_tokens split: list.splits)

lemma sc_next_tokens [scan_simps]:
  "sc_next s = (case scan_tokens s of [] \<Rightarrow> Inr (None, s) | t # ts \<Rightarrow> Inr (Some t, scan_adv s))"
  by (simp add: sc_next_def scan_next_tokens split: list.splits)

lemma sc_bind_Inr [simp, scan_simps]: "m s = Inr (x, t) \<Longrightarrow> sc_bind m f s = f x t"
  by (simp add: sc_bind_def)

lemma sc_bind_Inl [simp, scan_simps]: "m s = Inl e \<Longrightarrow> sc_bind m f s = Inl e"
  by (simp add: sc_bind_def)

lemma sc_bind_assoc: "sc_bind (sc_bind m f) g = sc_bind m (\<lambda>x. sc_bind (f x) g)"
  by (auto simp: sc_bind_def fun_eq_iff split: sum.splits)

lemma sc_bind_Inr_iff:
  "sc_bind m f s = Inr r \<longleftrightarrow> (\<exists>x t. m s = Inr (x, t) \<and> f x t = Inr r)"
  by (auto simp: sc_bind_def split: sum.splits prod.splits)

lemma sc_lift_Inr_iff: "sc_lift r s = Inr (x, t) \<longleftrightarrow> r = Inr x \<and> t = s"
  by (cases r) auto

lemma required_Inr_iff:
  "required e s = Inr (x, t) \<longleftrightarrow> (\<exists>ts. scan_tokens s = x # ts) \<and> t = scan_adv s"
  by (auto simp: required_tokens split: list.splits)

lemma sc_run_Inr: "m (Scanner_new bs) = Inr (x, t) \<Longrightarrow> sc_run m bs = Inr x"
  by (simp add: sc_run_def)

lemma sc_run_Inr_iff: "sc_run m bs = Inr x \<longleftrightarrow> (\<exists>t. m (Scanner_new bs) = Inr (x, t))"
  by (auto simp: sc_run_def split: sum.splits prod.splits)

lemma sc_run_eq:
  "sc_run m frame = bind_res (m (Scanner_new frame)) (\<lambda>(x, _). Inr x)"
  by (auto simp: sc_run_def bind_res_def split: sum.splits)

lemmas scan_eval = required_u64_def required_u32_def required_f64_def required_tokens sc_next_tokens
  sc_bind_def sc_lift_def

section \<open>Numbers parsed\<close>

lemma checked_step:
  fixes n :: u64
  assumes "d < 10"
  shows "Option.bind (checked_mul n 10) (\<lambda>v. checked_add v (word_of_nat d)) =
           (if 10 * unat n + d < 2 ^ 64 then Some (word_of_nat (10 * unat n + d)) else None)"
proof (cases "10 * unat n + d < 2 ^ 64")
  case True
  have d: "unat (word_of_nat d :: u64) = d"
    using assms by (simp add: unat_small)
  from True have m: "unat (n * 10) = 10 * unat n"
    by (simp add: unat_word_ariths)
  from True m d show ?thesis
    by (simp add: checked_mul_def checked_add_def mult.commute)
next
  case False
  have d: "unat (word_of_nat d :: u64) = d"
    using assms by (simp add: unat_small)
  show ?thesis
  proof (cases "10 * unat n < 2 ^ 64")
    case True
    then have m: "unat (n * 10) = 10 * unat n"
      by (simp add: unat_word_ariths)
    with True False d show ?thesis
      by (simp add: checked_mul_def checked_add_def mult.commute)
  next
    case f: False
    with False show ?thesis by (simp add: checked_mul_def mult.commute)
  qed
qed

lemma dec_value_shift:
  "foldl (\<lambda>n c. 10 * n + digit_val c) a cs = a * 10 ^ length cs + dec_value cs"
proof (induction cs rule: rev_induct)
  case (snoc c cs)
  then show ?case by (simp add: algebra_simps)
qed simp

lemma dec_value_Cons: "dec_value (c # cs) = digit_val c * 10 ^ length cs + dec_value cs"
  using dec_value_shift [of "digit_val c" cs] by (simp add: dec_value_def)

lemma parse_u64_loop_eq:
  "parse_u64_loop field n b =
     (if list_all is_digit b \<and> unat n * 10 ^ length b + dec_value b < 2 ^ 64
      then Inr (word_of_nat (unat n * 10 ^ length b + dec_value b)) else Inl (PE_BadInteger field))"
proof (induction b arbitrary: n)
  case Nil
  then show ?case using unsigned_less [of n] by simp
next
  case (Cons c cs)
  let ?m = "10 * unat n + digit_val c"
  have tot: "unat n * 10 ^ length (c # cs) + dec_value (c # cs) = ?m * 10 ^ length cs + dec_value cs"
    by (simp add: dec_value_Cons algebra_simps)
  show ?case
  proof (cases "is_digit c")
    case False
    then show ?thesis by simp
  next
    case True
    note step = checked_step [OF digit_val_less [OF True], of n]
    show ?thesis
    proof (cases "?m < 2 ^ 64")
      case m: True
      then have "unat (word_of_nat ?m :: u64) = ?m"
        by (intro unat_small) simp
      with Cons.IH [of "word_of_nat ?m"] m step True tot show ?thesis
        by (simp del: power_Suc)
    next
      case m: False
      have "?m \<le> ?m * 10 ^ length cs" by simp
      with m have "\<not> ?m * 10 ^ length cs + dec_value cs < 2 ^ 64"
        by (meson not_less order_trans trans_le_add1)
      with m step True tot show ?thesis by (simp del: power_Suc)
    qed
  qed
qed

lemma parse_u64_eq:
  "parse_u64 b field =
     (if b \<noteq> [] \<and> list_all is_digit b \<and> dec_value b < 2 ^ 64
      then Inr (word_of_nat (dec_value b)) else Inl (PE_BadInteger field))"
  by (simp add: parse_u64_def parse_u64_loop_eq)

lemma ucast_word_of_nat:
  "unat (word_of_nat n :: 'a::len word) = n \<Longrightarrow> ucast (word_of_nat n :: 'a word) = (word_of_nat n :: 'b::len word)"
  by (metis of_nat_unat)

lemma parse_u32_eq:
  "parse_u32 b field =
     (if b \<noteq> [] \<and> list_all is_digit b \<and> dec_value b < 2 ^ 32
      then Inr (word_of_nat (dec_value b)) else Inl (PE_BadInteger field))"
proof (cases "dec_value b < 2 ^ 64")
  case True
  then have "unat (word_of_nat (dec_value b) :: u64) = dec_value b"
    by (intro unat_small) simp
  then show ?thesis by (simp add: parse_u32_def parse_u64_eq ucast_word_of_nat)
qed (simp add: parse_u32_def parse_u64_eq)

lemma parse_u16_eq:
  "parse_u16 b field =
     (if b \<noteq> [] \<and> list_all is_digit b \<and> dec_value b < 2 ^ 16
      then Inr (word_of_nat (dec_value b)) else Inl (PE_BadInteger field))"
proof (cases "dec_value b < 2 ^ 64")
  case True
  then have "unat (word_of_nat (dec_value b) :: u64) = dec_value b"
    by (intro unat_small) simp
  then show ?thesis by (simp add: parse_u16_def parse_u64_eq ucast_word_of_nat)
qed (simp add: parse_u16_def parse_u64_eq)

lemma checked_step_i64:
  fixes n :: i64
  assumes "d < 10" and "0 \<le> sint n"
  shows "Option.bind (checked_mul_i64 n 10) (\<lambda>v. checked_add_i64 v (word_of_nat d)) =
           (if 10 * sint n + int d < 2 ^ 63 then Some (word_of_int (10 * sint n + int d)) else None)"
proof -
  have d: "sint (word_of_nat d :: i64) = int d"
    using assms(1) by (simp add: signed_of_nat signed_take_bit_int_eq_self)
  have m: "sint (n * 10) = sint n * 10" if "sint n * 10 < 2 ^ 63"
    using that assms(2) by (simp add: sint_word_ariths signed_take_bit_int_eq_self)
  have i: "n * 10 + word_of_nat d = word_of_int (10 * sint n + int d)"
    by (simp add: mult.commute)
  show ?thesis
  proof (cases "sint n * 10 < 2 ^ 63")
    case True
    with m d i assms(2) show ?thesis
      by (simp add: checked_mul_i64_def checked_add_i64_def in_i64_def mult.commute)
  next
    case False
    with assms(2) show ?thesis by (simp add: checked_mul_i64_def in_i64_def)
  qed
qed

lemma parse_i64_loop_eq:
  "0 \<le> sint n \<Longrightarrow> parse_i64_loop field n b =
     (if list_all is_digit b \<and> sint n * 10 ^ length b + int (dec_value b) < 2 ^ 63
      then Inr (word_of_int (sint n * 10 ^ length b + int (dec_value b)))
      else Inl (PE_BadInteger field))"
proof (induction b arbitrary: n)
  case Nil
  then show ?case using sint_lt [of n] by simp
next
  case (Cons c cs)
  let ?m = "10 * sint n + int (digit_val c)"
  have tot: "sint n * 10 ^ length (c # cs) + int (dec_value (c # cs)) =
      ?m * 10 ^ length cs + int (dec_value cs)"
    by (simp add: dec_value_Cons algebra_simps)
  show ?case
  proof (cases "is_digit c")
    case False
    then show ?thesis by simp
  next
    case True
    note step = checked_step_i64 [OF digit_val_less [OF True] Cons.prems]
    show ?thesis
    proof (cases "?m < 2 ^ 63")
      case m: True
      then have "sint (word_of_int ?m :: i64) = ?m"
        using Cons.prems by (intro sint_small) simp_all
      with Cons.IH [of "word_of_int ?m"] Cons.prems m step True tot show ?thesis
        by (simp del: power_Suc of_int_add of_int_mult)
    next
      case m: False
      have "?m * 1 \<le> ?m * 10 ^ length cs"
        using Cons.prems by (intro mult_left_mono) simp_all
      with m have "\<not> ?m * 10 ^ length cs + int (dec_value cs) < 2 ^ 63"
        by (smt (verit) of_nat_0_le_iff)
      with m step True tot show ?thesis by (simp del: power_Suc)
    qed
  qed
qed

text \<open>The sign is read off first, so the least \<open>i64\<close>, whose absolute value does not fit, is no
  result of the parser.\<close>

lemma parse_i64_eq:
  "parse_i64 b field =
     (let (neg, ds) = (if b \<noteq> [] \<and> hd b = CHR ''-'' then (True, tl b) else (False, b))
      in if ds \<noteq> [] \<and> list_all is_digit ds \<and> dec_value ds < 2 ^ 63
         then Inr (if neg then - word_of_nat (dec_value ds) else word_of_nat (dec_value ds))
         else Inl (PE_BadInteger field))"
proof (cases b)
  case Nil
  then show ?thesis by (simp add: parse_i64_def)
next
  case (Cons c cs)
  have *: "parse_i64_loop field 0 ds =
      (if list_all is_digit ds \<and> dec_value ds < 2 ^ 63 then Inr (word_of_nat (dec_value ds))
       else Inl (PE_BadInteger field))" for ds
    by (simp add: parse_i64_loop_eq)
  from Cons show ?thesis by (simp add: parse_i64_def * del: parse_i64_loop.simps list.pred_inject)
qed

section \<open>Printed numbers\<close>

lemma digits_no_colon: "list_all is_digit ds \<Longrightarrow> CHR '':'' \<notin> set ds"
  by (auto simp: list_all_iff is_digit_def byte_in_def)

lemma show_nat_no_colon [simp]: "CHR '':'' \<notin> set (show_nat n)"
  by (simp add: digits_no_colon)

lemma parse_show [simp, scan_simps]:
  "n < 2 ^ 64 \<Longrightarrow> parse_u64 (show_nat n) field = Inr (word_of_nat n)"
  "n < 2 ^ 32 \<Longrightarrow> parse_u32 (show_nat n) field = Inr (word_of_nat n)"
  "n < 2 ^ 16 \<Longrightarrow> parse_u16 (show_nat n) field = Inr (word_of_nat n)"
  by (simp_all add: parse_u64_eq parse_u32_eq parse_u16_eq)

lemma parse_show_word [simp, scan_simps]:
  "parse_u64 (show_nat (unat (a :: u64))) field = Inr a"
  "parse_u32 (show_nat (unat (b :: u32))) field = Inr b"
  "parse_u16 (show_nat (unat (c :: u16))) field = Inr c"
  using unsigned_less [of a] unsigned_less [of b] unsigned_less [of c]
  by (simp_all add: parse_u64_eq parse_u32_eq parse_u16_eq)

lemma word_of_nat_fits:
  "(v < 2 ^ LENGTH('a) \<and> word_of_nat v = n) \<longleftrightarrow> v = unat (n :: 'a::len word)"
  using unsigned_less [of n] by (auto simp: unat_small)

section \<open>Properties\<close>

text \<open>Pulling the scanner until it is exhausted yields exactly the separator-delimited fields of
  the buffer, empty ones included, and joining them gives the buffer back: no byte is lost and a
  field never holds a separator.\<close>

lemma scanner_delivers_fields:
  "fst (scan_collect (Scanner_new buf)) = split_on (CHR '':'') buf \<and>
   join_on (CHR '':'') (fst (scan_collect (Scanner_new buf))) = buf \<and>
   (\<forall>t \<in> set (fst (scan_collect (Scanner_new buf))). CHR '':'' \<notin> set t)"
  using split_on_tokens by (auto simp: scanner.drain_items)

text \<open>C25. The number parsers never wrap around: an unsigned field of 64, 32 or 16 bits is accepted
  exactly when it is a non-empty string of digits whose value fits the width, and the result is
  that value.\<close>

theorem unsigned_fields_exact:
  "(\<forall>n. parse_u64 b f = Inr n \<longleftrightarrow> b \<noteq> [] \<and> list_all is_digit b \<and> dec_value b = unat n) \<and>
   (\<forall>n. parse_u32 b f = Inr n \<longleftrightarrow> b \<noteq> [] \<and> list_all is_digit b \<and> dec_value b = unat n) \<and>
   (\<forall>n. parse_u16 b f = Inr n \<longleftrightarrow> b \<noteq> [] \<and> list_all is_digit b \<and> dec_value b = unat n)"
  by (simp add: parse_u64_eq parse_u32_eq parse_u16_eq word_of_nat_fits [symmetric])

end
