(* ===== verification/Client.thy ===== *)
theory Client
  imports Scanner
begin

text \<open>
  \<^verbatim>\<open>crates/cedro-client/src/\<close>: the errors (\<^verbatim>\<open>error.rs\<close>), the outgoing commands (\<^verbatim>\<open>commands.rs\<close>), the
  registry of subscriptions (\<^verbatim>\<open>subscription.rs\<close>) and the connection configuration (\<^verbatim>\<open>config.rs\<close>). The
  \<open>Write\<close> handle of the command sink is the argument \<open>ops\<close>, the two calls the source makes on it;
  the mutex makes a command one atomic step.
\<close>

section \<open>Errors\<close>

datatype HandshakeStep =
    AwaitWelcome | SendSoftwareKey | AwaitUsernamePrompt | SendUsername | AwaitPasswordPrompt
  | SendPassword | AwaitConnected

fun HandshakeStep_fmt :: "HandshakeStep \<Rightarrow> bytes" where
  "HandshakeStep_fmt AwaitWelcome = ''awaiting welcome''"
| "HandshakeStep_fmt SendSoftwareKey = ''sending software key''"
| "HandshakeStep_fmt AwaitUsernamePrompt = ''awaiting username prompt''"
| "HandshakeStep_fmt SendUsername = ''sending username''"
| "HandshakeStep_fmt AwaitPasswordPrompt = ''awaiting password prompt''"
| "HandshakeStep_fmt SendPassword = ''sending password''"
| "HandshakeStep_fmt AwaitConnected = ''awaiting 'You are connected'' @ [CHR 0x27]"

datatype ClientError =
    CE_Io string
  | CE_Handshake HandshakeStep string
  | CE_HandshakeTimeout HandshakeStep nat
  | CE_UnexpectedEof
  | CE_ReaderAlreadyStarted
  | CE_BufferPressurePanic usize nat
  | CE_InvalidConfig string
  | CE_CommandWrite string

section \<open>Commands\<close>

record 'w write_ops =
  wo_write_all :: "bytes \<Rightarrow> 'w \<Rightarrow> (string + unit) \<times> 'w"
  wo_flush :: "'w \<Rightarrow> (string + unit) \<times> 'w"

definition write_line :: "'w write_ops \<Rightarrow> bytes \<Rightarrow> 'w \<Rightarrow> (ClientError + unit) \<times> 'w" where
  "write_line ops payload w =
     (case wo_write_all ops payload w of
        (Inl e, w1) \<Rightarrow> (Inl (CE_CommandWrite e), w1)
      | (Inr _, w1) \<Rightarrow>
          (case wo_write_all ops [CHR 0x0A] w1 of
             (Inl e, w2) \<Rightarrow> (Inl (CE_CommandWrite e), w2)
           | (Inr _, w2) \<Rightarrow>
               (case wo_flush ops w2 of
                  (Inl e, w3) \<Rightarrow> (Inl (CE_CommandWrite e), w3)
                | (Inr _, w3) \<Rightarrow> (Inr (), w3))))"

definition subscribe_quote :: "'w write_ops \<Rightarrow> bytes \<Rightarrow> bool \<Rightarrow> 'w \<Rightarrow> (ClientError + unit) \<times> 'w" where
  "subscribe_quote ops ticker snapshot_only =
     (if snapshot_only then write_line ops (''SQT '' @ ticker @ '' N'')
      else write_line ops (''SQT '' @ ticker))"

definition unsubscribe_quote :: "'w write_ops \<Rightarrow> bytes \<Rightarrow> 'w \<Rightarrow> (ClientError + unit) \<times> 'w" where
  "unsubscribe_quote ops ticker = write_line ops (''USQ '' @ ticker)"

definition subscribe_book_detailed :: "'w write_ops \<Rightarrow> bytes \<Rightarrow> 'w \<Rightarrow> (ClientError + unit) \<times> 'w" where
  "subscribe_book_detailed ops ticker = write_line ops (''BQT '' @ ticker)"

definition unsubscribe_book_detailed :: "'w write_ops \<Rightarrow> bytes \<Rightarrow> 'w \<Rightarrow> (ClientError + unit) \<times> 'w" where
  "unsubscribe_book_detailed ops ticker = write_line ops (''UBQ '' @ ticker)"

definition subscribe_book_aggregated ::
  "'w write_ops \<Rightarrow> bytes \<Rightarrow> bool \<Rightarrow> 'w \<Rightarrow> (ClientError + unit) \<times> 'w" where
  "subscribe_book_aggregated ops ticker snapshot_only =
     (if snapshot_only then write_line ops (''SAB '' @ ticker @ '' N'')
      else write_line ops (''SAB '' @ ticker))"

definition unsubscribe_book_aggregated :: "'w write_ops \<Rightarrow> bytes \<Rightarrow> 'w \<Rightarrow> (ClientError + unit) \<times> 'w" where
  "unsubscribe_book_aggregated ops ticker = write_line ops (''UAB '' @ ticker)"

definition subscribe_trades :: "'w write_ops \<Rightarrow> bytes \<Rightarrow> u32 option \<Rightarrow> 'w \<Rightarrow> (ClientError + unit) \<times> 'w" where
  "subscribe_trades ops ticker history_count =
     (case history_count of
        Some n \<Rightarrow> write_line ops (''GQT '' @ ticker @ '' S '' @ show_nat (unat n))
      | None \<Rightarrow> write_line ops (''GQT '' @ ticker @ '' S''))"

definition unsubscribe_trades :: "'w write_ops \<Rightarrow> bytes \<Rightarrow> 'w \<Rightarrow> (ClientError + unit) \<times> 'w" where
  "unsubscribe_trades ops ticker = write_line ops (''UQT '' @ ticker)"

definition list_market ::
  "'w write_ops \<Rightarrow> bytes \<Rightarrow> u16 \<Rightarrow> u16 option \<Rightarrow> 'w \<Rightarrow> (ClientError + unit) \<times> 'w" where
  "list_market ops market asset_type subtype =
     (case subtype of
        Some s \<Rightarrow> write_line ops (''MQC '' @ market @ '' T '' @ show_nat (unat asset_type) @ '' S '' @ show_nat (unat s))
      | None \<Rightarrow> write_line ops (''MQC '' @ market @ '' '' @ show_nat (unat asset_type)))"

definition list_brokers :: "'w write_ops \<Rightarrow> bytes \<Rightarrow> 'w \<Rightarrow> (ClientError + unit) \<times> 'w" where
  "list_brokers ops market = write_line ops (''GPN '' @ market)"

definition subscribe_news :: "'w write_ops \<Rightarrow> bytes \<Rightarrow> 'w \<Rightarrow> (ClientError + unit) \<times> 'w" where
  "subscribe_news ops agency = write_line ops (''NEM A '' @ agency)"

definition unsubscribe_news :: "'w write_ops \<Rightarrow> bytes \<Rightarrow> 'w \<Rightarrow> (ClientError + unit) \<times> 'w" where
  "unsubscribe_news ops agency = write_line ops (''UNE '' @ agency)"

definition get_server_time :: "'w write_ops \<Rightarrow> 'w \<Rightarrow> (ClientError + unit) \<times> 'w" where
  "get_server_time ops = write_line ops ''GTC''"

definition quit :: "'w write_ops \<Rightarrow> 'w \<Rightarrow> (ClientError + unit) \<times> 'w" where
  "quit ops = write_line ops ''QUIT''"

lemmas command_defs = subscribe_quote_def unsubscribe_quote_def subscribe_book_detailed_def
  unsubscribe_book_detailed_def subscribe_book_aggregated_def unsubscribe_book_aggregated_def
  subscribe_trades_def unsubscribe_trades_def list_market_def list_brokers_def subscribe_news_def
  unsubscribe_news_def get_server_time_def quit_def

section \<open>Subscription registry\<close>

datatype SubscriptionKind = SK_Quote | SK_BookDetailed | SK_BookAggregated | SK_Trades

fun SubscriptionKind_as_str :: "SubscriptionKind \<Rightarrow> bytes" where
  "SubscriptionKind_as_str SK_Quote = ''quote''"
| "SubscriptionKind_as_str SK_BookDetailed = ''book_detailed''"
| "SubscriptionKind_as_str SK_BookAggregated = ''book_aggregated''"
| "SubscriptionKind_as_str SK_Trades = ''trades''"

type_synonym SubscriptionRegistry = "(SubscriptionKind \<times> bytes) set"

definition registry_add :: "SubscriptionKind \<Rightarrow> bytes \<Rightarrow> SubscriptionRegistry \<Rightarrow> bool \<times> SubscriptionRegistry" where
  "registry_add kind ticker r = ((kind, ticker) \<notin> r, insert (kind, ticker) r)"

definition registry_remove :: "SubscriptionKind \<Rightarrow> bytes \<Rightarrow> SubscriptionRegistry \<Rightarrow> bool \<times> SubscriptionRegistry" where
  "registry_remove kind ticker r = ((kind, ticker) \<in> r, r - {(kind, ticker)})"

definition registry_len :: "SubscriptionRegistry \<Rightarrow> usize" where
  "registry_len r = card r"

definition registry_is_empty :: "SubscriptionRegistry \<Rightarrow> bool" where
  "registry_is_empty r \<longleftrightarrow> registry_len r = 0"

text \<open>The vectors of the source in the set's own order, which is not specified; as sets.\<close>

definition registry_snapshot :: "SubscriptionRegistry \<Rightarrow> (SubscriptionKind \<times> bytes) set" where
  "registry_snapshot r = r"

definition registry_snapshot_by_kind :: "SubscriptionKind \<Rightarrow> SubscriptionRegistry \<Rightarrow> bytes set" where
  "registry_snapshot_by_kind kind r = snd ` {x \<in> r. fst x = kind}"

section \<open>Configuration\<close>

text \<open>Comparison of doubles by their bit patterns: sign and magnitude, both zeros equal, and a NaN
  unordered.\<close>

definition f64_nan :: "f64 \<Rightarrow> bool" where
  "f64_nan x \<longleftrightarrow> inf_bits < unat x mod 2 ^ 63"

definition f64_rank :: "f64 \<Rightarrow> int" where
  "f64_rank x = (if 2 ^ 63 \<le> unat x then - int (unat x mod 2 ^ 63) else int (unat x))"

definition f64_le :: "f64 \<Rightarrow> f64 \<Rightarrow> bool" where
  "f64_le x y \<longleftrightarrow> \<not> f64_nan x \<and> \<not> f64_nan y \<and> f64_rank x \<le> f64_rank y"

definition f64_one :: f64 where
  "f64_one = 0x3FF0000000000000"

text \<open>Durations in milliseconds.\<close>

record ConnectionConfig =
  cc_host :: bytes
  cc_port :: u16
  cc_software_key :: bytes
  cc_username :: bytes
  cc_password :: bytes
  cc_so_rcvbuf :: usize
  cc_frame_channel_capacity :: usize
  cc_handshake_timeout :: nat
  cc_reader_cpu_affinity :: "usize option"
  cc_watchdog_cpu_affinity :: "usize option"
  cc_watchdog_interval :: nat
  cc_backpressure_warn_ratio :: f64
  cc_backpressure_panic_ratio :: f64

definition ConnectionConfig_new :: "bytes \<Rightarrow> bytes \<Rightarrow> bytes \<Rightarrow> ConnectionConfig" where
  "ConnectionConfig_new host username password =
     \<lparr>cc_host = host, cc_port = 81, cc_software_key = [], cc_username = username,
      cc_password = password, cc_so_rcvbuf = 128 * 1024 * 1024,
      cc_frame_channel_capacity = 2 * 1024 * 1024, cc_handshake_timeout = 10 * 1000,
      cc_reader_cpu_affinity = None, cc_watchdog_cpu_affinity = None, cc_watchdog_interval = 100,
      cc_backpressure_warn_ratio = 0x3FC999999999999A, cc_backpressure_panic_ratio = 0x3FD999999999999A\<rparr>"

definition addr :: "ConnectionConfig \<Rightarrow> bytes" where
  "addr c = cc_host c @ '':'' @ show_nat (unat (cc_port c))"

definition unit_interval :: "f64 \<Rightarrow> bool" where
  "unit_interval x \<longleftrightarrow> f64_le f64_zero x \<and> f64_le x f64_one"

definition validate :: "ConnectionConfig \<Rightarrow> string + unit" where
  "validate c =
     (if cc_host c = [] then Inl ''host is empty''
      else if cc_so_rcvbuf c < 1024 then Inl ''so_rcvbuf is unreasonably small''
      else if cc_frame_channel_capacity c = 0 then Inl ''frame_channel_capacity must be > 0''
      else if \<not> unit_interval (cc_backpressure_warn_ratio c) then Inl ''backpressure_warn_ratio must be in [0,1]''
      else if \<not> unit_interval (cc_backpressure_panic_ratio c) then Inl ''backpressure_panic_ratio must be in [0,1]''
      else if f64_le (cc_backpressure_panic_ratio c) (cc_backpressure_warn_ratio c)
        then Inl ''panic ratio must exceed warn ratio''
      else Inr ())"

lemma config_literals:
  "f64_from_str ''0.20'' = Some 0x3FC999999999999A" "f64_from_str ''0.40'' = Some 0x3FD999999999999A"
  "f64_from_str ''1.0'' = Some f64_one"
  by (simp_all add: f64_eval f64_one_def)

section \<open>A stream of commands\<close>

datatype command =
    SubscribeQuote bytes bool | UnsubscribeQuote bytes
  | SubscribeBookDetailed bytes | UnsubscribeBookDetailed bytes
  | SubscribeBookAggregated bytes bool | UnsubscribeBookAggregated bytes
  | SubscribeTrades bytes "u32 option" | UnsubscribeTrades bytes
  | ListMarket bytes u16 "u16 option" | ListBrokers bytes
  | SubscribeNews bytes | UnsubscribeNews bytes | GetServerTime | Quit

fun issue :: "'w write_ops \<Rightarrow> command \<Rightarrow> 'w \<Rightarrow> (ClientError + unit) \<times> 'w" where
  "issue ops (SubscribeQuote t s) = subscribe_quote ops t s"
| "issue ops (UnsubscribeQuote t) = unsubscribe_quote ops t"
| "issue ops (SubscribeBookDetailed t) = subscribe_book_detailed ops t"
| "issue ops (UnsubscribeBookDetailed t) = unsubscribe_book_detailed ops t"
| "issue ops (SubscribeBookAggregated t s) = subscribe_book_aggregated ops t s"
| "issue ops (UnsubscribeBookAggregated t) = unsubscribe_book_aggregated ops t"
| "issue ops (SubscribeTrades t n) = subscribe_trades ops t n"
| "issue ops (UnsubscribeTrades t) = unsubscribe_trades ops t"
| "issue ops (ListMarket m a s) = list_market ops m a s"
| "issue ops (ListBrokers m) = list_brokers ops m"
| "issue ops (SubscribeNews a) = subscribe_news ops a"
| "issue ops (UnsubscribeNews a) = unsubscribe_news ops a"
| "issue ops GetServerTime = get_server_time ops"
| "issue ops Quit = quit ops"

text \<open>The words of a command, by the command reference of the protocol: mnemonic and arguments.\<close>

fun command_words :: "command \<Rightarrow> bytes list" where
  "command_words (SubscribeQuote t s) = [''SQT'', t] @ (if s then [''N''] else [])"
| "command_words (UnsubscribeQuote t) = [''USQ'', t]"
| "command_words (SubscribeBookDetailed t) = [''BQT'', t]"
| "command_words (UnsubscribeBookDetailed t) = [''UBQ'', t]"
| "command_words (SubscribeBookAggregated t s) = [''SAB'', t] @ (if s then [''N''] else [])"
| "command_words (UnsubscribeBookAggregated t) = [''UAB'', t]"
| "command_words (SubscribeTrades t n) =
     [''GQT'', t, ''S''] @ (case n of None \<Rightarrow> [] | Some k \<Rightarrow> [show_nat (unat k)])"
| "command_words (UnsubscribeTrades t) = [''UQT'', t]"
| "command_words (ListMarket m a s) =
     (case s of None \<Rightarrow> [''MQC'', m, show_nat (unat a)]
      | Some k \<Rightarrow> [''MQC'', m, ''T'', show_nat (unat a), ''S'', show_nat (unat k)])"
| "command_words (ListBrokers m) = [''GPN'', m]"
| "command_words (SubscribeNews a) = [''NEM'', ''A'', a]"
| "command_words (UnsubscribeNews a) = [''UNE'', a]"
| "command_words GetServerTime = [''GTC'']"
| "command_words Quit = [''QUIT'']"

text \<open>A writer that accepts everything.\<close>

definition vec_ops :: "bytes write_ops" where
  "vec_ops = \<lparr>wo_write_all = (\<lambda>xs w. (Inr (), w @ xs)), wo_flush = (\<lambda>w. (Inr (), w))\<rparr>"

definition accepts_all :: "'w write_ops \<Rightarrow> ('w \<Rightarrow> bytes) \<Rightarrow> bool" where
  "accepts_all ops sent \<longleftrightarrow>
     (\<forall>xs w. fst (wo_write_all ops xs w) = Inr () \<and> sent (snd (wo_write_all ops xs w)) = sent w @ xs) \<and>
     (\<forall>w. fst (wo_flush ops w) = Inr () \<and> sent (snd (wo_flush ops w)) = sent w)"

lemma write_line_sent:
  assumes "accepts_all ops sent"
  shows "fst (write_line ops p w) = Inr () \<and> sent (snd (write_line ops p w)) = sent w @ p @ [CHR 0x0A]"
proof -
  obtain w1 where 1: "wo_write_all ops p w = (Inr (), w1)" "sent w1 = sent w @ p"
    using assms unfolding accepts_all_def by (metis prod.collapse)
  obtain w2 where 2: "wo_write_all ops [CHR 0x0A] w1 = (Inr (), w2)" "sent w2 = sent w1 @ [CHR 0x0A]"
    using assms unfolding accepts_all_def by (metis prod.collapse)
  obtain w3 where 3: "wo_flush ops w2 = (Inr (), w3)" "sent w3 = sent w2"
    using assms unfolding accepts_all_def by (metis prod.collapse)
  from 1 2 3 show ?thesis by (simp add: write_line_def)
qed

lemma issue_line: "issue ops c = write_line ops (join_on (CHR '' '') (command_words c))"
  by (cases c) (auto simp: command_defs fun_eq_iff split: option.split)

definition issue_all :: "'w write_ops \<Rightarrow> command list \<Rightarrow> 'w \<Rightarrow> 'w" where
  "issue_all ops cs w = fold (\<lambda>c w. snd (issue ops c w)) cs w"

lemma issue_all_sent:
  assumes "accepts_all ops sent"
  shows "sent (issue_all ops cs w) =
    sent w @ concat (map (\<lambda>c. join_on (CHR '' '') (command_words c) @ [CHR 0x0A]) cs)"
  unfolding issue_all_def
  by (induction cs arbitrary: w) (simp_all add: issue_line write_line_sent [OF assms])

lemma split_lines:
  "\<forall>l \<in> set ls. c \<notin> set l \<Longrightarrow> split_on c (concat (map (\<lambda>l. l @ [c]) ls)) = ls @ [[]]"
  by (induction ls) (simp_all add: split_on_append)

lemma join_on_set: "set (join_on c ts) \<subseteq> insert c (\<Union> (set ` set ts))"
  by (induction c ts rule: join_on.induct) auto

lemma show_nat_no_byte: "\<not> is_digit c \<Longrightarrow> c \<notin> set (show_nat n)"
  using show_nat_digits [of n] by (auto simp: list_all_iff)

section \<open>Properties\<close>

text \<open>C28. The server reads back exactly the commands issued: when the words of every command are free
  of spaces and newlines and the writer accepts what it is given, the bytes sent split into one
  line per command, in the order of the calls, and each line into that command's mnemonic and
  arguments.\<close>

theorem command_stream_readable:
  assumes "accepts_all ops sent" and "sent w = []"
    and "\<forall>c \<in> set cs. \<forall>x \<in> set (command_words c). CHR '' '' \<notin> set x \<and> CHR 0x0A \<notin> set x"
  shows "map (split_on (CHR '' '')) (butlast (split_on (CHR 0x0A) (sent (issue_all ops cs w)))) =
           map command_words cs"
proof -
  let ?line = "\<lambda>c. join_on (CHR '' '') (command_words c)"
  have "CHR 0x0A \<notin> set (?line c)" if "c \<in> set cs" for c
    using join_on_set [of "CHR '' ''" "command_words c"] assms(3) that by auto
  then have "split_on (CHR 0x0A) (concat (map (\<lambda>l. l @ [CHR 0x0A]) (map ?line cs))) = map ?line cs @ [[]]"
    by (intro split_lines) auto
  then have "butlast (split_on (CHR 0x0A) (sent (issue_all ops cs w))) = map ?line cs"
    using issue_all_sent [OF assms(1), of cs w] assms(2) by (simp add: comp_def)
  moreover have "split_on (CHR '' '') (?line c) = command_words c" if "c \<in> set cs" for c
  proof (rule split_join_on)
    show "command_words c \<noteq> []" by (cases c) (auto split: option.split)
  qed (use assms(3) that in blast)
  ultimately show ?thesis by simp
qed

theorem command_stream_readable_witness:
  "map (split_on (CHR '' '')) (butlast (split_on (CHR 0x0A)
     (issue_all vec_ops [SubscribeTrades ''PETR4'' (Some 50), ListMarket ''BMF'' 7 (Some 130), Quit] []))) =
   map command_words [SubscribeTrades ''PETR4'' (Some 50), ListMarket ''BMF'' 7 (Some 130), Quit]"
  by (rule command_stream_readable [of vec_ops "\<lambda>w. w"])
     (auto simp: accepts_all_def vec_ops_def show_nat_no_byte is_digit_def byte_in_def)

text \<open>A configuration is accepted only if it can be used: the host is not empty, the buffer has
  at least 1 KiB, the channel holds a frame, and the two ratios are numbers (not NaN) with
  \<open>0 \<le> warn < panic \<le> 1\<close>; and every such configuration is accepted, the defaults in particular.\<close>

lemma validate_exact:
  "(validate c = Inr () \<longleftrightarrow>
      cc_host c \<noteq> [] \<and> 1024 \<le> cc_so_rcvbuf c \<and> 0 < cc_frame_channel_capacity c \<and>
      \<not> f64_nan (cc_backpressure_warn_ratio c) \<and> \<not> f64_nan (cc_backpressure_panic_ratio c) \<and>
      0 \<le> f64_rank (cc_backpressure_warn_ratio c) \<and>
      f64_rank (cc_backpressure_warn_ratio c) < f64_rank (cc_backpressure_panic_ratio c) \<and>
      f64_rank (cc_backpressure_panic_ratio c) \<le> f64_rank f64_one) \<and>
   (host \<noteq> [] \<longrightarrow> validate (ConnectionConfig_new host user pw) = Inr ())"
proof -
  have "\<not> f64_nan f64_zero" "\<not> f64_nan f64_one" "f64_rank f64_zero = 0"
    by (simp_all add: f64_nan_def f64_zero_def f64_one_def inf_bits_def f64_rank_def)
  then have "validate c = Inr () \<longleftrightarrow>
      cc_host c \<noteq> [] \<and> 1024 \<le> cc_so_rcvbuf c \<and> 0 < cc_frame_channel_capacity c \<and>
      \<not> f64_nan (cc_backpressure_warn_ratio c) \<and> \<not> f64_nan (cc_backpressure_panic_ratio c) \<and>
      0 \<le> f64_rank (cc_backpressure_warn_ratio c) \<and>
      f64_rank (cc_backpressure_warn_ratio c) < f64_rank (cc_backpressure_panic_ratio c) \<and>
      f64_rank (cc_backpressure_panic_ratio c) \<le> f64_rank f64_one" for c
    by (auto simp: validate_def unit_interval_def f64_le_def)
  then show ?thesis
    by (simp add: ConnectionConfig_new_def) (simp add: f64_nan_def f64_rank_def inf_bits_def f64_one_def)
qed

end
