(* ===== verification/Handshake.thy ===== *)
theory Handshake
  imports Client
begin

text \<open>
  \<^verbatim>\<open>crates/cedro-client/src/handshake.rs\<close>. The socket is a script: one event for each turn of the
  read loop, what the clock and the read of that turn gave. A script that ends leaves the
  handshake waiting (\<open>None\<close>). The source reads at most 256 bytes a turn; the model puts no bound
  on a chunk. The argument \<open>io\<close> says how the write and the flush of each step went. The buffer of
  the handshake is dropped when \<open>perform\<close> returns, as the source drops \<open>HandshakeBuf\<close>.
\<close>

section \<open>Substring search\<close>

text \<open>\<open>memchr::memmem::find\<close>: the first position where the needle occurs.\<close>

fun find_sub :: "bytes \<Rightarrow> bytes \<Rightarrow> nat option" where
  "find_sub n [] = (if n = [] then Some 0 else None)"
| "find_sub n (x # xs) =
     (if take (length n) (x # xs) = n then Some 0 else map_option Suc (find_sub n xs))"

section \<open>The handshake\<close>

datatype ErrorKind = EK_TimedOut | EK_WouldBlock | EK_ConnectionReset | EK_ConnectionAborted | EK_UnexpectedEof | EK_Other

fun handshake_reason :: "ErrorKind \<Rightarrow> string" where
  "handshake_reason EK_TimedOut = ''read/write timed out''"
| "handshake_reason EK_WouldBlock = ''non-blocking I/O reported WouldBlock''"
| "handshake_reason EK_ConnectionReset = ''connection reset by peer''"
| "handshake_reason EK_ConnectionAborted = ''connection aborted by peer''"
| "handshake_reason EK_UnexpectedEof = ''unexpected EOF''"
| "handshake_reason EK_Other = ''I/O failure (see source)''"

datatype hs_event = HE_Deadline | HE_ReadErr ErrorKind | HE_Read bytes

record HandshakeBuf =
  hb_stream :: "hs_event list"
  hb_buf :: bytes
  hb_sent :: bytes

type_synonym 'a handshake = "HandshakeBuf \<Rightarrow> ((ClientError + 'a) \<times> HandshakeBuf) option"

definition with_stream :: "hs_event list \<Rightarrow> HandshakeBuf" where
  "with_stream stream = \<lparr>hb_stream = stream, hb_buf = [], hb_sent = []\<rparr>"

fun consume_loop :: "bytes \<Rightarrow> HandshakeStep \<Rightarrow> bytes \<Rightarrow> hs_event list \<Rightarrow>
    ((ClientError + unit) \<times> bytes \<times> hs_event list) option" where
  "consume_loop needle step buf stream =
     (case find_sub needle buf of
        Some pos \<Rightarrow> Some (Inr (), drop (pos + length needle) buf, stream)
      | None \<Rightarrow>
          (case stream of
             [] \<Rightarrow> None
           | HE_Deadline # es \<Rightarrow> Some (Inl (CE_HandshakeTimeout step 0), buf, es)
           | HE_ReadErr k # es \<Rightarrow> Some (Inl (CE_Handshake step (handshake_reason k)), buf, es)
           | HE_Read chunk # es \<Rightarrow>
               if chunk = [] then Some (Inl CE_UnexpectedEof, buf, es)
               else consume_loop needle step (buf @ chunk) es))"

declare consume_loop.simps [simp del]

definition consume_until :: "bytes \<Rightarrow> HandshakeStep \<Rightarrow> unit handshake" where
  "consume_until needle step h =
     map_option (\<lambda>(r, buf, stream). (r, h\<lparr>hb_buf := buf, hb_stream := stream\<rparr>))
       (consume_loop needle step (hb_buf h) (hb_stream h))"

text \<open>How a \<open>write_all\<close> and the flush after it went: a failed \<open>write_all\<close> may have sent a prefix.\<close>

datatype write_outcome = WriteOk | WriteErr ErrorKind nat | FlushErr string

type_synonym hs_io = "HandshakeStep \<Rightarrow> write_outcome"

definition hs_write_line :: "hs_io \<Rightarrow> bytes \<Rightarrow> HandshakeStep \<Rightarrow> unit handshake" where
  "hs_write_line io payload step h =
     (let out = payload @ [CHR 0x0D, CHR 0x0A]
      in case io step of
           WriteErr k n \<Rightarrow> Some (Inl (CE_Handshake step (handshake_reason k)), h\<lparr>hb_sent := hb_sent h @ take n out\<rparr>)
         | FlushErr e \<Rightarrow> Some (Inl (CE_CommandWrite e), h\<lparr>hb_sent := hb_sent h @ out\<rparr>)
         | WriteOk \<Rightarrow> Some (Inr (), h\<lparr>hb_sent := hb_sent h @ out\<rparr>))"

definition hs_then :: "unit handshake \<Rightarrow> unit handshake \<Rightarrow> unit handshake" where
  "hs_then f g h =
     (case f h of None \<Rightarrow> None | Some (Inl e, h') \<Rightarrow> Some (Inl e, h') | Some (Inr _, h') \<Rightarrow> g h')"

definition perform_steps :: "hs_io \<Rightarrow> ConnectionConfig \<Rightarrow> unit handshake" where
  "perform_steps io config =
     hs_then (consume_until ''Welcome to Cedro'' AwaitWelcome)
    (hs_then (hs_write_line io (cc_software_key config) SendSoftwareKey)
    (hs_then (consume_until ''Username:'' AwaitUsernamePrompt)
    (hs_then (hs_write_line io (cc_username config) SendUsername)
    (hs_then (consume_until ''Password:'' AwaitPasswordPrompt)
    (hs_then (hs_write_line io (cc_password config) SendPassword)
             (consume_until ''You are connected'' AwaitConnected))))))"

text \<open>What remains of the stream, and what was sent; the buffer is gone.\<close>

definition perform :: "hs_io \<Rightarrow> ConnectionConfig \<Rightarrow> hs_event list \<Rightarrow>
    ((ClientError + unit) \<times> hs_event list \<times> bytes) option" where
  "perform io config stream =
     map_option (\<lambda>(r, h). (r, hb_stream h, hb_sent h)) (perform_steps io config (with_stream stream))"

section \<open>Search and concatenation\<close>

lemma find_sub_bound: "find_sub n xs = Some p \<Longrightarrow> p + length n \<le> length xs"
proof (induction xs arbitrary: p)
  case (Cons x xs)
  show ?case
  proof (cases "take (length n) (x # xs) = n")
    case True
    then have "length n \<le> length (x # xs)" by (metis length_take min.cobounded1)
    with True Cons.prems show ?thesis by simp
  next
    case False
    with Cons show ?thesis by auto
  qed
qed (simp split: if_splits)

lemma take_eq_length: "take (length n) xs = n \<Longrightarrow> take (length n) (xs @ ys) = n"
  by (metis append_eq_conv_conj append_take_drop_id length_append length_take min_less_iff_conj
      nat_neq_iff not_add_less1 take_append diff_is_0_eq' less_imp_le take_eq_Nil append_Nil2)

lemma find_sub_append: "find_sub n xs = Some p \<Longrightarrow> find_sub n (xs @ ys) = Some p"
proof (induction xs arbitrary: p)
  case Nil
  then show ?case by (cases ys) (auto split: if_splits)
next
  case (Cons x xs)
  show ?case
  proof (cases "take (length n) (x # xs) = n")
    case True
    with Cons.prems take_eq_length [OF True, of ys] show ?thesis by simp
  next
    case False
    with Cons.prems obtain q where q: "find_sub n xs = Some q" "p = Suc q" by auto
    then have "length n \<le> length (x # xs)" using find_sub_bound [OF q(1)] by simp
    then have "take (length n) ((x # xs) @ ys) = take (length n) (x # xs)"
      by (simp only: take_append) simp
    with False Cons.IH [OF q(1)] q show ?thesis by simp
  qed
qed

text \<open>Reading on until the needle has arrived, however the bytes are cut: what is dropped is the same
  as in the whole stream, and the rest is split between the buffer and the unread chunks.\<close>

definition reads :: "bytes list \<Rightarrow> hs_event list" where
  "reads cs = map HE_Read cs"

lemma consume_loop_reads:
  assumes "find_sub needle (buf @ concat cs) = Some pos" and "[] \<notin> set cs"
  shows "\<exists>buf' ds. consume_loop needle step buf (reads cs) = Some (Inr (), buf', reads ds) \<and>
           buf' @ concat ds = drop (pos + length needle) (buf @ concat cs) \<and> [] \<notin> set ds"
  using assms
proof (induction cs arbitrary: buf)
  case Nil
  then show ?case
    by (intro exI [of _ "drop (pos + length needle) buf"] exI [of _ "[]"])
       (simp add: consume_loop.simps reads_def)
next
  case (Cons c cs)
  show ?case
  proof (cases "find_sub needle buf")
    case None
    have "find_sub needle ((buf @ c) @ concat cs) = Some pos" "[] \<notin> set cs" "c \<noteq> []"
      using Cons.prems by auto
    with Cons.IH [of "buf @ c"] None show ?thesis
      by (subst consume_loop.simps) (simp add: reads_def)
  next
    case (Some q)
    from find_sub_append [OF this] Cons.prems have "q = pos" by simp
    with Some Cons.prems find_sub_bound [OF Some] show ?thesis
      by (intro exI [of _ "drop (q + length needle) buf"] exI [of _ "c # cs"])
         (simp add: consume_loop.simps)
  qed
qed

section \<open>Properties\<close>

text \<open>The rest of the text after the prompts, found one after the other.\<close>

fun after_prompts :: "bytes list \<Rightarrow> bytes \<Rightarrow> bytes option" where
  "after_prompts [] s = Some s"
| "after_prompts (n # ns) s =
     (case find_sub n s of None \<Rightarrow> None | Some pos \<Rightarrow> after_prompts ns (drop (pos + length n) s))"

text \<open>A handshake whose buffer and unread chunks hold the text \<open>s\<close> together.\<close>

definition ready :: "HandshakeBuf \<Rightarrow> bytes \<Rightarrow> bool" where
  "ready h s \<longleftrightarrow> (\<exists>cs. hb_stream h = reads cs \<and> [] \<notin> set cs \<and> hb_buf h @ concat cs = s)"

lemma ready_sent [simp]: "ready (h\<lparr>hb_sent := x\<rparr>) s = ready h s"
  by (simp add: ready_def)

lemma consume_until_ready:
  assumes "ready h s" and "after_prompts (n # ns) s = Some rest"
  obtains h' s' where "consume_until n step h = Some (Inr (), h')" and "ready h' s'"
    and "after_prompts ns s' = Some rest" and "hb_sent h' = hb_sent h"
proof -
  from assms(2) obtain pos where pos: "find_sub n s = Some pos"
    and rest: "after_prompts ns (drop (pos + length n) s) = Some rest"
    by (simp split: option.splits)
  from assms(1) obtain cs where cs: "hb_stream h = reads cs" "[] \<notin> set cs" "hb_buf h @ concat cs = s"
    by (auto simp: ready_def)
  with consume_loop_reads [of n "hb_buf h" cs pos step] pos obtain b ds where
    run: "consume_loop n step (hb_buf h) (reads cs) = Some (Inr (), b, reads ds)"
    and ds: "b @ concat ds = drop (pos + length n) s" "[] \<notin> set ds"
    by auto
  let ?h = "h\<lparr>hb_buf := b, hb_stream := reads ds\<rparr>"
  have "consume_until n step h = Some (Inr (), ?h)"
    by (simp add: consume_until_def cs(1) run)
  moreover have "ready ?h (drop (pos + length n) s)"
    using ds by (auto simp: ready_def)
  ultimately show thesis using that [of ?h] rest by simp
qed

lemma hs_then_ok: "f h = Some (Inr (), h') \<Longrightarrow> hs_then f g h = g h'"
  by (simp add: hs_then_def)

lemma ask_and_answer:
  assumes "ready h s" and "after_prompts (n # ns) s = Some rest" and "\<forall>st. io st = WriteOk"
  obtains h' s' where
    "\<forall>k. hs_then (consume_until n st1) (hs_then (hs_write_line io p st2) k) h = k h'"
    and "ready h' s'" and "after_prompts ns s' = Some rest"
    and "hb_sent h' = hb_sent h @ p @ [CHR 0x0D, CHR 0x0A]"
proof -
  obtain h1 s1 where h1: "consume_until n st1 h = Some (Inr (), h1)" "ready h1 s1"
    "after_prompts ns s1 = Some rest" "hb_sent h1 = hb_sent h"
    by (rule consume_until_ready [OF assms(1,2)])
  let ?h = "h1\<lparr>hb_sent := hb_sent h1 @ p @ [CHR 0x0D, CHR 0x0A]\<rparr>"
  have "hs_write_line io p st2 h1 = Some (Inr (), ?h)"
    using assms(3) by (simp add: hs_write_line_def Let_def)
  then have "\<forall>k. hs_then (consume_until n st1) (hs_then (hs_write_line io p st2) k) h = k ?h"
    using h1(1) by (simp add: hs_then_ok)
  then show thesis by (rule that) (use h1 in simp_all)
qed

text \<open>C27. The handshake does not depend on how the network cuts the server's text: whenever the
  server's bytes, taken together, show the four prompts one after the other, the handshake
  succeeds and sends the software key, the user name and the password, each on a line of its own
  and in that order.\<close>

theorem handshake_succeeds:
  assumes "after_prompts [''Welcome to Cedro'', ''Username:'', ''Password:'', ''You are connected''] (concat cs) = Some rest"
    and "[] \<notin> set cs" and "\<forall>s. io s = WriteOk"
  shows "\<exists>unread. perform io config (reads cs) = Some (Inr (), unread,
           cc_software_key config @ [CHR 0x0D, CHR 0x0A] @ cc_username config @ [CHR 0x0D, CHR 0x0A] @
           cc_password config @ [CHR 0x0D, CHR 0x0A])"
proof -
  define h where "h = with_stream (reads cs)"
  have h: "ready h (concat cs)" "hb_sent h = []"
    using assms(2) by (auto simp: h_def with_stream_def ready_def)
  obtain h1 s1 where 1: "\<forall>k. hs_then (consume_until ''Welcome to Cedro'' AwaitWelcome)
      (hs_then (hs_write_line io (cc_software_key config) SendSoftwareKey) k) h = k h1" "ready h1 s1"
    "after_prompts [''Username:'', ''Password:'', ''You are connected''] s1 = Some rest"
    "hb_sent h1 = hb_sent h @ cc_software_key config @ [CHR 0x0D, CHR 0x0A]"
    by (rule ask_and_answer [OF h(1) assms(1) assms(3), of AwaitWelcome "cc_software_key config" SendSoftwareKey])
  obtain h2 s2 where 2: "\<forall>k. hs_then (consume_until ''Username:'' AwaitUsernamePrompt)
      (hs_then (hs_write_line io (cc_username config) SendUsername) k) h1 = k h2" "ready h2 s2"
    "after_prompts [''Password:'', ''You are connected''] s2 = Some rest"
    "hb_sent h2 = hb_sent h1 @ cc_username config @ [CHR 0x0D, CHR 0x0A]"
    by (rule ask_and_answer [OF 1(2,3) assms(3), of AwaitUsernamePrompt "cc_username config" SendUsername])
  obtain h3 s3 where 3: "\<forall>k. hs_then (consume_until ''Password:'' AwaitPasswordPrompt)
      (hs_then (hs_write_line io (cc_password config) SendPassword) k) h2 = k h3" "ready h3 s3"
    "after_prompts [''You are connected''] s3 = Some rest"
    "hb_sent h3 = hb_sent h2 @ cc_password config @ [CHR 0x0D, CHR 0x0A]"
    by (rule ask_and_answer [OF 2(2,3) assms(3), of AwaitPasswordPrompt "cc_password config" SendPassword])
  obtain h4 s4 where 4: "consume_until ''You are connected'' AwaitConnected h3 = Some (Inr (), h4)"
    "hb_sent h4 = hb_sent h3"
    by (rule consume_until_ready [OF 3(2,3)])
  have "perform_steps io config h = Some (Inr (), h4)"
    by (simp add: perform_steps_def 1(1) 2(1) 3(1) 4(1))
  then show ?thesis
    by (simp add: perform_def h_def [symmetric] 4(2) 3(4) 2(4) 1(4) h(2))
qed

theorem handshake_succeeds_witness:
  "\<exists>unread. perform (\<lambda>s. WriteOk) (ConnectionConfig_new ''h'' ''alice'' ''pw'')
     (reads [''Welcome to Ce'', ''dro Crystal Username:Pass'', ''word:You are connected'']) = Some (Inr (), unread,
       [CHR 0x0D, CHR 0x0A] @ ''alice'' @ [CHR 0x0D, CHR 0x0A] @ ''pw'' @ [CHR 0x0D, CHR 0x0A])"
  using handshake_succeeds [of "[''Welcome to Ce'', ''dro Crystal Username:Pass'', ''word:You are connected'']" "[]"
      "\<lambda>s. WriteOk" "ConnectionConfig_new ''h'' ''alice'' ''pw''"]
  by (simp add: ConnectionConfig_new_def)

text \<open>What the server sends in the same read as its last prompt is lost: the handshake
  succeeds, nothing of that read is left on the stream, and the surplus bytes are gone with the
  handshake's buffer. The source states that the stream is positioned right after the prompt.\<close>

lemma handshake_drops_surplus:
  "perform (\<lambda>s. WriteOk) config
     (reads [''Welcome to Cedro'', ''Username:'', ''Password:'', ''You are connected'' @ extra]) =
   perform (\<lambda>s. WriteOk) config
     (reads [''Welcome to Cedro'', ''Username:'', ''Password:'', ''You are connected'']) \<and>
   (\<exists>sent. perform (\<lambda>s. WriteOk) config
     (reads [''Welcome to Cedro'', ''Username:'', ''Password:'', ''You are connected'' @ extra]) =
       Some (Inr (), [], sent))"
  by (simp add: perform_def perform_steps_def hs_then_def consume_until_def consume_loop.simps
      hs_write_line_def with_stream_def reads_def Let_def)

end
