(* ===== verification/Frame.thy ===== *)
theory Frame
  imports Pull_Loop
begin

text \<open>
  \<^verbatim>\<open>crates/cedro-protocol/src/frame.rs\<close>: the streaming frame splitter. The state is the read buffer;
  \<open>split_bytes\<close> is the reference it is measured against, an automaton that reads one byte at a time
  and knows nothing of buffers, indices or chunks. Capacity and the shared allocation are not
  observable and are left out.
\<close>

named_theorems frame_simps \<open>equations of the splitter's operations\<close>

section \<open>The splitter\<close>

datatype FrameKind = Bang | Newline

record FrameSplitter =
  fs_buf :: bytes

definition newline :: u8 where
  "newline = CHR 0x0A"

definition with_capacity :: "usize \<Rightarrow> FrameSplitter" where
  "with_capacity cap = \<lparr>fs_buf = []\<rparr>"

definition reserve :: "usize \<Rightarrow> FrameSplitter \<Rightarrow> FrameSplitter" where
  "reserve additional s = s"

definition extend_from_slice :: "bytes \<Rightarrow> FrameSplitter \<Rightarrow> FrameSplitter" where
  "extend_from_slice src s = s\<lparr>fs_buf := fs_buf s @ src\<rparr>"

definition pending :: "FrameSplitter \<Rightarrow> usize" where
  "pending s = length (fs_buf s)"

definition next_frame :: "FrameSplitter \<Rightarrow> (FrameKind \<times> bytes) option \<times> FrameSplitter" where
  "next_frame s =
     (if fs_buf s = [] then (None, s)
      else case memchr2 newline (CHR ''!'') (fs_buf s) of
        None \<Rightarrow> (None, s)
      | Some idx \<Rightarrow>
          let kind = (if fs_buf s ! idx = CHR ''!'' then Bang else Newline);
              frame = take (idx + 1) (fs_buf s)
          in (Some (kind, take idx frame), s\<lparr>fs_buf := drop (idx + 1) (fs_buf s)\<rparr>))"

text \<open>\<open>BytesMut::advance\<close> panics past the end of the buffer.\<close>

definition advance :: "usize \<Rightarrow> FrameSplitter \<Rightarrow> FrameSplitter option" where
  "advance n s = (if n \<le> length (fs_buf s) then Some (s\<lparr>fs_buf := drop n (fs_buf s)\<rparr>) else None)"

lemma next_frame_shorter:
  "next_frame s = (Some x, t) \<Longrightarrow> length (fs_buf t) < length (fs_buf s)"
  by (auto simp: next_frame_def Let_def split: if_splits option.splits)

text \<open>\<open>drain\<close> with the list of the frames handed to the callback, in the order of the calls.\<close>

function drain :: "FrameSplitter \<Rightarrow> (FrameKind \<times> bytes) list \<times> FrameSplitter" where
  "drain s = (case next_frame s of
       (None, t) \<Rightarrow> ([], t)
     | (Some x, t) \<Rightarrow> let (xs, u) = drain t in (x # xs, u))"
  by pat_completeness auto
termination
  by (relation "measure (\<lambda>s. length (fs_buf s))") (auto dest: next_frame_shorter [OF sym])

declare drain.simps [simp del]

section \<open>The reference automaton\<close>

definition is_terminator :: "u8 \<Rightarrow> bool" where
  "is_terminator b \<longleftrightarrow> b = newline \<or> b = CHR ''!''"

definition kind_of :: "u8 \<Rightarrow> FrameKind" where
  "kind_of b = (if b = CHR ''!'' then Bang else Newline)"

fun split_bytes :: "bytes \<Rightarrow> bytes \<Rightarrow> (FrameKind \<times> bytes) list \<times> bytes" where
  "split_bytes cur [] = ([], cur)"
| "split_bytes cur (b # bs) =
     (if is_terminator b
      then (let (fs, rest) = split_bytes [] bs in ((kind_of b, cur) # fs, rest))
      else split_bytes (cur @ [b]) bs)"

definition terminator_of :: "FrameKind \<Rightarrow> u8" where
  "terminator_of k = (case k of Bang \<Rightarrow> CHR ''!'' | Newline \<Rightarrow> newline)"

definition unframe :: "(FrameKind \<times> bytes) list \<Rightarrow> bytes" where
  "unframe fs = concat (map (\<lambda>(k, f). f @ [terminator_of k]) fs)"

lemma kind_of_terminator [simp]: "kind_of (terminator_of k) = k"
  by (cases k) (simp_all add: kind_of_def terminator_of_def newline_def)

lemma is_terminator_of [simp]: "is_terminator (terminator_of k)"
  by (cases k) (simp_all add: is_terminator_def terminator_of_def)

lemma terminator_of_kind: "is_terminator b \<Longrightarrow> terminator_of (kind_of b) = b"
  by (auto simp: is_terminator_def kind_of_def terminator_of_def newline_def)

lemma split_bytes_no_terminator:
  "\<forall>b \<in> set bs. \<not> is_terminator b \<Longrightarrow> split_bytes cur bs = ([], cur @ bs)"
  by (induction bs arbitrary: cur) auto

lemma split_bytes_append:
  "split_bytes cur (xs @ ys) =
     (let (fs, c) = split_bytes cur xs; (gs, d) = split_bytes c ys in (fs @ gs, d))"
  by (induction cur xs rule: split_bytes.induct) (auto simp: Let_def split: prod.splits)

lemma split_bytes_first:
  assumes "\<forall>b \<in> set xs. \<not> is_terminator b" and "is_terminator t"
  shows "split_bytes cur (xs @ t # ys) =
           ((kind_of t, cur @ xs) # fst (split_bytes [] ys), snd (split_bytes [] ys))"
  using assms by (simp add: split_bytes_append split_bytes_no_terminator Let_def split: prod.splits)

lemma split_bytes_lossless:
  "split_bytes cur bs = (fs, rest) \<Longrightarrow> unframe fs @ rest = cur @ bs"
proof (induction cur bs arbitrary: fs rest rule: split_bytes.induct)
  case (1 cur)
  then show ?case by (simp add: unframe_def)
next
  case (2 cur b bs)
  then show ?case
    by (auto simp: unframe_def terminator_of_kind split: if_splits prod.splits)
qed

lemma split_bytes_clean:
  assumes "split_bytes cur bs = (fs, rest)" and "\<forall>b \<in> set cur. \<not> is_terminator b"
  shows "(\<forall>(k, f) \<in> set fs. \<forall>b \<in> set f. \<not> is_terminator b) \<and> (\<forall>b \<in> set rest. \<not> is_terminator b)"
  using assms
proof (induction cur bs arbitrary: fs rest rule: split_bytes.induct)
  case (1 cur)
  then show ?case by simp
next
  case (2 cur b bs)
  then show ?case by (auto split: if_splits prod.splits)
qed

section \<open>The splitter implements the automaton\<close>

definition pending_frames :: "FrameSplitter \<Rightarrow> (FrameKind \<times> bytes) list" where
  "pending_frames s = fst (split_bytes [] (fs_buf s))"

lemma next_frame_cases:
  "next_frame s =
     (case find_index is_terminator (fs_buf s) of
        None \<Rightarrow> (None, s)
      | Some i \<Rightarrow> (Some (kind_of (fs_buf s ! i), take i (fs_buf s)),
                   s\<lparr>fs_buf := drop (Suc i) (fs_buf s)\<rparr>))"
  by (auto simp: next_frame_def memchr2_def is_terminator_def [abs_def] kind_of_def Let_def
      split: option.splits)

lemma next_frame_None:
  "fst (next_frame s) = None \<longleftrightarrow> (\<forall>b \<in> set (fs_buf s). \<not> is_terminator b)"
  by (auto simp: next_frame_cases find_index_None [symmetric] split: option.splits)

lemma split_bytes_find:
  assumes "find_index is_terminator bs = Some i"
  shows "split_bytes [] bs = ((kind_of (bs ! i), take i bs) # fst (split_bytes [] (drop (Suc i) bs)),
                              snd (split_bytes [] (drop (Suc i) bs)))"
proof -
  note s = find_index_split [OF assms]
  with split_bytes_first [of "take i bs" "bs ! i" "[]" "drop (Suc i) bs"] show ?thesis by simp
qed

lemma next_frame_Some:
  assumes "next_frame s = (Some x, t)"
  shows "split_bytes [] (fs_buf s) =
           (x # fst (split_bytes [] (fs_buf t)), snd (split_bytes [] (fs_buf t)))"
  using assms by (auto simp: next_frame_cases split: option.splits dest: split_bytes_find)

interpretation splitter: pull_loop next_frame drain pending_frames
proof
  fix s :: FrameSplitter
  assume "pending_frames s = []"
  then have "\<forall>b \<in> set (fs_buf s). \<not> is_terminator b"
    by (metis find_index_None fst_conv list.distinct(1) option.exhaust pending_frames_def
        split_bytes_find)
  then show "next_frame s = (None, s)"
    by (simp add: next_frame_cases find_index_None [THEN iffD2])
next
  fix s :: FrameSplitter and x xs
  assume a: "pending_frames s = x # xs"
  then have "\<not> (\<forall>b \<in> set (fs_buf s). \<not> is_terminator b)"
    by (metis fst_conv list.distinct(1) pending_frames_def split_bytes_no_terminator)
  then obtain y t where t: "next_frame s = (Some y, t)"
    by (metis next_frame_None not_None_eq prod.collapse)
  with next_frame_Some [OF t] a show "\<exists>t. next_frame s = (Some x, t) \<and> pending_frames t = xs"
    by (simp add: pending_frames_def)
next
  fix s t :: FrameSplitter
  assume "next_frame s = (None, t)"
  then show "drain s = ([], t)" by (simp add: drain.simps)
next
  fix s t :: FrameSplitter and x
  assume "next_frame s = (Some x, t)"
  then show "drain s = (x # fst (drain t), snd (drain t))"
    by (simp add: drain.simps [of s] split: prod.splits)
qed

lemma drain_rest: "fs_buf (snd (drain s)) = snd (split_bytes [] (fs_buf s))"
proof (induction s rule: drain.induct)
  case (1 s)
  show ?case
  proof (cases "next_frame s")
    case (Pair r t)
    show ?thesis
    proof (cases r)
      case None
      with Pair have "t = s" "\<forall>b \<in> set (fs_buf s). \<not> is_terminator b"
        by (auto simp: next_frame_cases find_index_None split: option.splits)
      with Pair None show ?thesis by (simp add: drain.simps [of s] split_bytes_no_terminator)
    next
      case (Some x)
      with Pair "1.IH" next_frame_Some [of s x t] splitter.drain_step [of s x t] show ?thesis
        by simp
    qed
  qed
qed

lemma drain_eq: "drain s = (fst (split_bytes [] (fs_buf s)), \<lparr>fs_buf = snd (split_bytes [] (fs_buf s))\<rparr>)"
  using splitter.drain_items [of s] drain_rest [of s]
  by (cases "drain s") (simp add: pending_frames_def)

section \<open>Feeding a stream in chunks\<close>

text \<open>The read loop of the intended use: append what one read returned, then take every frame.\<close>

fun feed :: "FrameSplitter \<Rightarrow> bytes list \<Rightarrow> (FrameKind \<times> bytes) list \<times> FrameSplitter" where
  "feed s [] = ([], s)"
| "feed s (c # cs) =
     (let (fs, t) = drain (extend_from_slice c s); (gs, u) = feed t cs in (fs @ gs, u))"

lemma feed_split:
  assumes "\<forall>b \<in> set (fs_buf s). \<not> is_terminator b"
  shows "feed s cs = (fst (split_bytes (fs_buf s) (concat cs)),
                      \<lparr>fs_buf = snd (split_bytes (fs_buf s) (concat cs))\<rparr>)"
  using assms
proof (induction cs arbitrary: s)
  case Nil
  then show ?case by simp
next
  case (Cons c cs)
  obtain fs r where fr: "split_bytes (fs_buf s) c = (fs, r)" by fastforce
  have "split_bytes [] (fs_buf s @ c) = (fs, r)"
    using Cons.prems fr by (simp add: split_bytes_append split_bytes_no_terminator)
  then have d: "drain (extend_from_slice c s) = (fs, \<lparr>fs_buf = r\<rparr>)"
    by (simp add: drain_eq extend_from_slice_def)
  from split_bytes_clean [OF fr Cons.prems] have "\<forall>b \<in> set r. \<not> is_terminator b" by blast
  then show ?case
    using Cons.IH [of "\<lparr>fs_buf = r\<rparr>"] d fr
    by (simp add: split_bytes_append Let_def split: prod.splits)
qed

section \<open>Properties\<close>

lemma fs_buf_with_capacity [simp]: "fs_buf (with_capacity n) = []"
  by (simp add: with_capacity_def)

text \<open>C3. However the transport cuts the byte stream into chunks, the splitter started empty
  delivers exactly the frames the one-byte-at-a-time automaton finds in the whole stream, in
  order and with the same kinds, and keeps exactly the bytes after the last terminator.\<close>

theorem feed_implements_automaton:
  "feed (with_capacity cap) chunks =
     (fst (split_bytes [] (concat chunks)), \<lparr>fs_buf = snd (split_bytes [] (concat chunks))\<rparr>)"
  by (simp add: feed_split)

text \<open>Nothing is lost, invented or reordered: the frames delivered, each followed by its
  terminator, and then the buffer spell the stream; and no frame, nor the bytes kept, hold a
  terminator, so every complete frame has been delivered.\<close>

lemma feed_lossless:
  assumes "feed (with_capacity cap) chunks = (fs, s)"
  shows "unframe fs @ fs_buf s = concat chunks \<and>
    (\<forall>(k, f) \<in> set fs. \<forall>b \<in> set f. \<not> is_terminator b) \<and>
    (\<forall>b \<in> set (fs_buf s). \<not> is_terminator b)"
proof -
  obtain gs rest where sp: "split_bytes [] (concat chunks) = (gs, rest)" by fastforce
  with assms have e: "gs = fs" "rest = fs_buf s" by (auto simp: feed_split)
  with split_bytes_lossless [OF sp] split_bytes_clean [OF sp] show ?thesis by simp
qed

end
