(* ===== verification/Reader.thy ===== *)
theory Reader
  imports Client Frame
begin

text \<open>
  \<^verbatim>\<open>crates/cedro-client/src/reader.rs\<close>: the bodies of the reader and watchdog threads. A thread is run
  over a script with one entry per turn of its loop: whether the stop flag was up, and what the
  system call of that turn gave. The sending half of the crossbeam channel is a parameter:
  \<open>ts\<close> is \<open>try_send\<close>, \<open>sd\<close> the blocking \<open>send\<close>, and \<open>accepted\<close> reads the frames the channel has
  taken so far; \<open>channel_laws\<close> states what crossbeam documents of them. The two products of a buffer
  size and a ratio that give the watchdog its thresholds are the parameter \<open>scale\<close>. Thread
  pinning has no effect on the state and is left out; the counters are kept.
\<close>

section \<open>The reader thread\<close>

type_synonym frame = "FrameKind \<times> bytes"

datatype try_send_result = TrySent | TryFull | TryDisconnected

datatype read_result = ReadOk bytes | ReadInterrupted | ReadFailed

record reader_metrics =
  rm_eof :: nat
  rm_read_error :: nat
  rm_bytes_read :: nat
  rm_frames :: nat
  rm_channel_blocked :: nat

text \<open>At which return the thread left its loop; \<open>ReaderWaiting\<close> when the script ended first.\<close>

datatype reader_exit = ReaderStopped | ReaderEof | ReaderReadError | ReaderDisconnected | ReaderWaiting

definition send_frame :: "('c \<Rightarrow> frame \<Rightarrow> try_send_result \<times> 'c) \<Rightarrow> ('c \<Rightarrow> frame \<Rightarrow> bool \<times> 'c) \<Rightarrow>
    frame \<Rightarrow> 'c \<Rightarrow> reader_metrics \<Rightarrow> bool \<times> 'c \<times> reader_metrics" where
  "send_frame ts sd f c m =
     (let m1 = m\<lparr>rm_frames := rm_frames m + 1\<rparr>
      in case ts c f of
           (TrySent, c1) \<Rightarrow> (True, c1, m1)
         | (TryFull, c1) \<Rightarrow>
             (let m2 = m1\<lparr>rm_channel_blocked := rm_channel_blocked m1 + 1\<rparr>;
                  (ok, c2) = sd c1 f
              in (ok, c2, m2))
         | (TryDisconnected, c1) \<Rightarrow> (False, c1, m1))"

function pump_frames :: "('c \<Rightarrow> frame \<Rightarrow> try_send_result \<times> 'c) \<Rightarrow> ('c \<Rightarrow> frame \<Rightarrow> bool \<times> 'c) \<Rightarrow>
    FrameSplitter \<Rightarrow> 'c \<Rightarrow> reader_metrics \<Rightarrow> bool \<times> FrameSplitter \<times> 'c \<times> reader_metrics" where
  "pump_frames ts sd s c m =
     (case next_frame s of
        (None, s1) \<Rightarrow> (True, s1, c, m)
      | (Some f, s1) \<Rightarrow>
          (case send_frame ts sd f c m of
             (True, c1, m1) \<Rightarrow> pump_frames ts sd s1 c1 m1
           | (False, c1, m1) \<Rightarrow> (False, s1, c1, m1)))"
  by pat_completeness auto
termination
  by (relation "measure (\<lambda>(ts, sd, s, c, m). length (fs_buf s))")
     (auto dest: next_frame_shorter [OF sym])

declare pump_frames.simps [simp del]

fun reader_turns :: "('c \<Rightarrow> frame \<Rightarrow> try_send_result \<times> 'c) \<Rightarrow> ('c \<Rightarrow> frame \<Rightarrow> bool \<times> 'c) \<Rightarrow>
    FrameSplitter \<Rightarrow> 'c \<Rightarrow> reader_metrics \<Rightarrow> (bool \<times> read_result) list \<Rightarrow>
    reader_exit \<times> FrameSplitter \<times> 'c \<times> reader_metrics" where
  "reader_turns ts sd s c m [] = (ReaderWaiting, s, c, m)"
| "reader_turns ts sd s c m ((stop_flag, r) # turns) =
     (if stop_flag then (ReaderStopped, s, c, m)
      else case r of
        ReadInterrupted \<Rightarrow> reader_turns ts sd s c m turns
      | ReadFailed \<Rightarrow> (ReaderReadError, s, c, m\<lparr>rm_read_error := rm_read_error m + 1\<rparr>)
      | ReadOk buf \<Rightarrow>
          if buf = [] then (ReaderEof, s, c, m\<lparr>rm_eof := rm_eof m + 1\<rparr>)
          else
            let m1 = m\<lparr>rm_bytes_read := rm_bytes_read m + length buf\<rparr>
            in case pump_frames ts sd (extend_from_slice buf s) c m1 of
                 (True, s2, c2, m2) \<Rightarrow> reader_turns ts sd s2 c2 m2 turns
               | (False, s2, c2, m2) \<Rightarrow> (ReaderDisconnected, s2, c2, m2))"

definition reader_loop :: "('c \<Rightarrow> frame \<Rightarrow> try_send_result \<times> 'c) \<Rightarrow> ('c \<Rightarrow> frame \<Rightarrow> bool \<times> 'c) \<Rightarrow>
    'c \<Rightarrow> (bool \<times> read_result) list \<Rightarrow> reader_exit \<times> FrameSplitter \<times> 'c \<times> reader_metrics" where
  "reader_loop ts sd tx turns =
     reader_turns ts sd (with_capacity (8 * 1024 * 1024)) tx
       \<lparr>rm_eof = 0, rm_read_error = 0, rm_bytes_read = 0, rm_frames = 0, rm_channel_blocked = 0\<rparr> turns"

section \<open>Pinning\<close>

text \<open>\<open>cores\<close> are the core ids the machine reports, if it can; \<open>set_for_current\<close> says whether the call succeeds. A failure is a
  metric; a core that does not exist is passed over in silence.\<close>

datatype pin_outcome = NotPinned | Pinned usize | PinningUnsupported | PinningFailed

definition pin_to_core :: "usize list option \<Rightarrow> (usize \<Rightarrow> bool) \<Rightarrow> usize option \<Rightarrow> pin_outcome" where
  "pin_to_core cores set_for_current target =
     (case target of
        None \<Rightarrow> NotPinned
      | Some wanted \<Rightarrow>
          (case cores of
             None \<Rightarrow> PinningUnsupported
           | Some ids \<Rightarrow>
               (case find (\<lambda>c. c = wanted) ids of
                  None \<Rightarrow> NotPinned
                | Some core \<Rightarrow> if set_for_current core then Pinned core else PinningFailed)))"

lemma pin_to_core_exact:
  "pin_to_core cores set_for_current target = Pinned core \<longleftrightarrow>
     target = Some core \<and> (\<exists>ids. cores = Some ids \<and> core \<in> set ids) \<and> set_for_current core"
  by (auto simp: pin_to_core_def find_None_iff find_Some_iff in_set_conv_nth split: option.splits)

section \<open>The watchdog thread\<close>

record WatchdogCfg =
  wc_warn_ratio :: f64
  wc_panic_ratio :: f64
  wc_buffer_size :: usize

record watchdog_state =
  wd_panic_flag :: bool
  wd_recv_buf_bytes :: "usize option"
  wd_panic_total :: nat
  wd_warn_total :: nat
  wd_fionread_failed_total :: nat

fun watchdog_turns :: "usize \<Rightarrow> usize \<Rightarrow> watchdog_state \<Rightarrow> (bool \<times> usize option) list \<Rightarrow> watchdog_state" where
  "watchdog_turns warn_bytes panic_bytes w [] = w"
| "watchdog_turns warn_bytes panic_bytes w ((stop_flag, sample) # turns) =
     (if stop_flag then w
      else case sample of
        Some n \<Rightarrow>
          let w1 = w\<lparr>wd_recv_buf_bytes := Some n\<rparr>
          in if n \<ge> panic_bytes then w1\<lparr>wd_panic_total := wd_panic_total w1 + 1, wd_panic_flag := True\<rparr>
             else watchdog_turns warn_bytes panic_bytes
                    (if n \<ge> warn_bytes then w1\<lparr>wd_warn_total := wd_warn_total w1 + 1\<rparr> else w1) turns
      | None \<Rightarrow> w\<lparr>wd_fionread_failed_total := wd_fionread_failed_total w + 1\<rparr>)"

definition watchdog_loop :: "(usize \<Rightarrow> f64 \<Rightarrow> usize) \<Rightarrow> WatchdogCfg \<Rightarrow> watchdog_state \<Rightarrow>
    (bool \<times> usize option) list \<Rightarrow> watchdog_state" where
  "watchdog_loop scale cfg w turns =
     watchdog_turns (scale (wc_buffer_size cfg) (wc_warn_ratio cfg))
       (scale (wc_buffer_size cfg) (wc_panic_ratio cfg)) w turns"

text \<open>\<open>Reader::spawn\<close> hands the watchdog its settings.\<close>

definition spawn_watchdog_cfg :: "ConnectionConfig \<Rightarrow> usize \<Rightarrow> WatchdogCfg" where
  "spawn_watchdog_cfg config so_rcvbuf =
     \<lparr>wc_warn_ratio = cc_backpressure_warn_ratio config,
      wc_panic_ratio = cc_backpressure_panic_ratio config, wc_buffer_size = so_rcvbuf\<rparr>"

section \<open>What the channel promises\<close>

definition channel_laws :: "('c \<Rightarrow> frame \<Rightarrow> try_send_result \<times> 'c) \<Rightarrow> ('c \<Rightarrow> frame \<Rightarrow> bool \<times> 'c) \<Rightarrow>
    ('c \<Rightarrow> frame list) \<Rightarrow> bool" where
  "channel_laws ts sd accepted \<longleftrightarrow>
     (\<forall>c f r c'. ts c f = (r, c') \<longrightarrow> accepted c' = accepted c @ (if r = TrySent then [f] else [])) \<and>
     (\<forall>c f ok c'. sd c f = (ok, c') \<longrightarrow> accepted c' = accepted c @ (if ok then [f] else []))"

section \<open>The reader's invariant\<close>

lemma try_send_accepted:
  "\<lbrakk>channel_laws ts sd accepted; ts c f = (r, c')\<rbrakk> \<Longrightarrow>
     accepted c' = accepted c @ (if r = TrySent then [f] else [])"
  unfolding channel_laws_def by blast

lemma send_accepted:
  "\<lbrakk>channel_laws ts sd accepted; sd c f = (ok, c')\<rbrakk> \<Longrightarrow>
     accepted c' = accepted c @ (if ok then [f] else [])"
  unfolding channel_laws_def by blast

lemma send_frame_accepted:
  assumes "channel_laws ts sd accepted" and "send_frame ts sd f c m = (ok, c', m')"
  shows "accepted c' = accepted c @ (if ok then [f] else [])"
    and "rm_frames m' = rm_frames m + 1" and "rm_bytes_read m' = rm_bytes_read m"
  using assms(2)
  by (auto simp: send_frame_def Let_def split: prod.splits try_send_result.splits
      dest!: try_send_accepted [OF assms(1)] send_accepted [OF assms(1)])

lemma next_frame_split:
  assumes "next_frame s = (r, s1)"
  shows "split_bytes [] (fs_buf s) =
    (case r of None \<Rightarrow> ([], fs_buf s1)
     | Some f \<Rightarrow> (f # fst (split_bytes [] (fs_buf s1)), snd (split_bytes [] (fs_buf s1))))"
proof -
  have d: "drain s = (case r of None \<Rightarrow> ([], s1) | Some x \<Rightarrow> (x # fst (drain s1), snd (drain s1)))"
    using assms by (subst drain.simps) (simp split: option.splits prod.splits)
  show ?thesis
  proof (cases r)
    case None
    with d have "drain s = ([], s1)" by simp
    then show ?thesis using None drain_eq [of s] by (auto simp: prod_eq_iff)
  next
    case (Some x)
    with d drain_eq [of s] drain_eq [of s1] show ?thesis by (simp add: prod_eq_iff)
  qed
qed

text \<open>A pump that is not cut off hands over every complete frame of its buffer; one that is hands
  over a prefix of them.\<close>

lemma pump_frames_accepted:
  assumes "channel_laws ts sd accepted" and "pump_frames ts sd s c m = (ok, s', c', m')"
  shows "\<exists>fs gs. fst (split_bytes [] (fs_buf s)) = fs @ gs \<and> accepted c' = accepted c @ fs \<and>
           rm_bytes_read m' = rm_bytes_read m \<and>
           (ok \<longrightarrow> gs = [] \<and> fs_buf s' = snd (split_bytes [] (fs_buf s)) \<and>
                   rm_frames m' = rm_frames m + length fs)"
  using assms(2)
proof (induction "length (fs_buf s)" arbitrary: s c m rule: less_induct)
  case less
  obtain r s1 where r: "next_frame s = (r, s1)" by (cases "next_frame s")
  note sp = next_frame_split [OF r]
  show ?case
  proof (cases r)
    case None
    with less.prems r sp show ?thesis by (subst (asm) pump_frames.simps) auto
  next
    case (Some f)
    obtain ok1 c1 m1 where sf: "send_frame ts sd f c m = (ok1, c1, m1)" by (metis prod_cases3)
    note acc = send_frame_accepted [OF assms(1) sf]
    show ?thesis
    proof (cases ok1)
      case False
      with less.prems r Some sf acc sp show ?thesis
        by (subst (asm) pump_frames.simps) (auto intro: exI [of _ "[]"])
    next
      case True
      with less.prems r Some sf have "pump_frames ts sd s1 c1 m1 = (ok, s', c', m')"
        by (subst (asm) pump_frames.simps) simp
      from less.hyps [OF _ this] next_frame_shorter [of s f s1] r Some obtain fs gs where
        "fst (split_bytes [] (fs_buf s1)) = fs @ gs" "accepted c' = accepted c1 @ fs"
        "rm_bytes_read m' = rm_bytes_read m1"
        "ok \<longrightarrow> gs = [] \<and> fs_buf s' = snd (split_bytes [] (fs_buf s1)) \<and> rm_frames m' = rm_frames m1 + length fs"
        by blast
      with True acc sp Some show ?thesis
        by (intro exI [of _ "f # fs"] exI [of _ gs]) simp
    qed
  qed
qed

text \<open>The bytes the reader takes off the socket, up to the turn at which it leaves.\<close>

fun bytes_taken :: "(bool \<times> read_result) list \<Rightarrow> bytes" where
  "bytes_taken [] = []"
| "bytes_taken ((stop_flag, r) # turns) =
     (if stop_flag then []
      else case r of ReadInterrupted \<Rightarrow> bytes_taken turns | ReadFailed \<Rightarrow> []
        | ReadOk buf \<Rightarrow> if buf = [] then [] else buf @ bytes_taken turns)"

lemma fs_buf_extend [simp]: "fs_buf (extend_from_slice buf s) = fs_buf s @ buf"
  by (simp add: extend_from_slice_def)

lemma split_rest_clean: "\<forall>b \<in> set (snd (split_bytes [] xs)). \<not> is_terminator b"
  using split_bytes_clean [of "[]" xs "fst (split_bytes [] xs)" "snd (split_bytes [] xs)"] by simp

lemma split_rest_append:
  "fst (split_bytes [] (xs @ ys)) =
     fst (split_bytes [] xs) @ fst (split_bytes [] (snd (split_bytes [] xs) @ ys))"
  using split_bytes_no_terminator [OF split_rest_clean, of "[]" xs]
  by (simp add: split_bytes_append Let_def split: prod.splits)

text \<open>A turn that read something: either the channel is gone, or the rest of the turns goes on from what it left.\<close>

lemma reader_turn_read:
  assumes "channel_laws ts sd accepted" and "reader_turns ts sd s c m ((False, ReadOk buf) # turns) = (ex, s', c', m')" and "buf \<noteq> []"
  obtains (gone) fs gs where "ex = ReaderDisconnected" "fst (split_bytes [] (fs_buf s @ buf)) = fs @ gs" "accepted c' = accepted c @ fs"
  | (on) s1 c1 m1 where "reader_turns ts sd s1 c1 m1 turns = (ex, s', c', m')" "fs_buf s1 = snd (split_bytes [] (fs_buf s @ buf))"
      "accepted c1 = accepted c @ fst (split_bytes [] (fs_buf s @ buf))" "rm_bytes_read m1 = rm_bytes_read m + length buf"
      "rm_frames m1 = rm_frames m + length (fst (split_bytes [] (fs_buf s @ buf)))"
proof -
  let ?m = "m\<lparr>rm_bytes_read := rm_bytes_read m + length buf\<rparr>"
  obtain ok s1 c1 m1 where pump: "pump_frames ts sd (extend_from_slice buf s) c ?m = (ok, s1, c1, m1)" by (metis prod_cases4)
  obtain fs gs where fg: "fst (split_bytes [] (fs_buf s @ buf)) = fs @ gs" "accepted c1 = accepted c @ fs"
    "rm_bytes_read m1 = rm_bytes_read m + length buf"
    "ok \<Longrightarrow> gs = [] \<and> fs_buf s1 = snd (split_bytes [] (fs_buf s @ buf)) \<and> rm_frames m1 = rm_frames m + length fs"
    using pump_frames_accepted [OF assms(1) pump] by auto
  show thesis
  proof (cases ok)
    case True
    with fg assms(2,3) pump show thesis by (intro on [of s1 c1 m1]) (auto simp: Let_def)
  next
    case False
    with fg assms(2,3) pump show thesis by (intro gone [of fs gs]) (auto simp: Let_def)
  qed
qed

lemma reader_turns_accepted:
  assumes "channel_laws ts sd accepted" and "reader_turns ts sd s c m turns = (ex, s', c', m')"
    and "\<forall>b \<in> set (fs_buf s). \<not> is_terminator b"
  shows "\<exists>fs gs. fst (split_bytes [] (fs_buf s @ bytes_taken turns)) = fs @ gs \<and>
           accepted c' = accepted c @ fs \<and>
           (ex \<noteq> ReaderDisconnected \<longrightarrow> gs = [] \<and> rm_frames m' = rm_frames m + length fs \<and>
              rm_bytes_read m' = rm_bytes_read m + length (bytes_taken turns))"
  using assms(2,3)
proof (induction turns arbitrary: s c m)
  case Nil
  then show ?case by (auto simp: split_bytes_no_terminator)
next
  case (Cons turn turns)
  show ?case
  proof (cases "\<exists>buf. turn = (False, ReadOk buf) \<and> buf \<noteq> []")
    case False
    with Cons show ?thesis
      by (cases turn) (auto simp: split_bytes_no_terminator split: if_splits read_result.splits)
  next
    case True
    then obtain buf where buf: "turn = (False, ReadOk buf)" "buf \<noteq> []" by blast
    note all = split_rest_append [of "fs_buf s @ buf" "bytes_taken turns"]
    from assms(1) Cons.prems(1) [unfolded buf(1)] buf(2) show ?thesis
    proof (cases rule: reader_turn_read)
      case (gone fs gs)
      with all buf show ?thesis by auto
    next
      case (on s1 c1 m1)
      from Cons.IH [OF on(1)] on(2) split_rest_clean [of "fs_buf s @ buf"] obtain fs gs where
        "fst (split_bytes [] (fs_buf s1 @ bytes_taken turns)) = fs @ gs" "accepted c' = accepted c1 @ fs"
        "ex \<noteq> ReaderDisconnected \<longrightarrow> gs = [] \<and> rm_frames m' = rm_frames m1 + length fs \<and>
           rm_bytes_read m' = rm_bytes_read m1 + length (bytes_taken turns)"
        by auto
      with on all buf show ?thesis
        by (intro exI [of _ "fst (split_bytes [] (fs_buf s @ buf)) @ fs"] exI [of _ gs]) auto
    qed
  qed
qed

section \<open>Properties\<close>

text \<open>C26. The reader loses no frame and reorders none: over a channel that behaves as documented,
  however the socket cuts the bytes and however often a read is interrupted or the channel is full,
  the frames handed over are exactly those of the bytes taken off the socket, in their order; if the
  receivers are gone they are a prefix of them. Unless cut off, the frame and byte counters are exact.\<close>

theorem reader_delivers_frames:
  assumes "channel_laws ts sd accepted" and "reader_loop ts sd tx turns = (ex, s, tx', m)"
  shows "\<exists>fs gs. fst (split_bytes [] (bytes_taken turns)) = fs @ gs \<and> accepted tx' = accepted tx @ fs \<and>
           (ex \<noteq> ReaderDisconnected \<longrightarrow>
              gs = [] \<and> rm_frames m = length fs \<and> rm_bytes_read m = length (bytes_taken turns))"
  using reader_turns_accepted [OF assms(1) assms(2) [unfolded reader_loop_def]] by simp

definition demo_try :: "frame list \<Rightarrow> frame \<Rightarrow> try_send_result \<times> frame list" where
  "demo_try c f = (if length c < 1 then (TrySent, c @ [f]) else (TryFull, c))"

definition demo_send :: "frame list \<Rightarrow> frame \<Rightarrow> bool \<times> frame list" where
  "demo_send c f = (True, c @ [f])"

theorem reader_delivers_frames_witness:
  "\<exists>ex s tx' m. reader_loop demo_try demo_send [] [(False, ReadOk ''S''), (False, ReadInterrupted), (False, ReadOk ''YN!a!b''), (True, ReadFailed)] = (ex, s, tx', m) \<and>
     ex = ReaderStopped \<and> tx' = [(Bang, ''SYN''), (Bang, ''a'')] \<and> rm_bytes_read m = 7"
proof -
  let ?t = "[(False, ReadOk ''S''), (False, ReadInterrupted), (False, ReadOk ''YN!a!b''), (True, ReadFailed)]"
  obtain ex s tx' m where run: "reader_loop demo_try demo_send [] ?t = (ex, s, tx', m)" by (metis prod_cases4)
  have ex: "ex = ReaderStopped"
    using run by (simp add: reader_loop_def pump_frames.simps next_frame_def with_capacity_def
        extend_from_slice_def send_frame_def demo_try_def demo_send_def memchr2_def newline_def Let_def)
  have "channel_laws demo_try demo_send (\<lambda>c. c)"
    by (auto simp: channel_laws_def demo_try_def demo_send_def)
  from reader_delivers_frames [OF this run] ex run show ?thesis
    by (simp add: is_terminator_def newline_def kind_of_def)
qed

text \<open>The watchdog raises the panic flag exactly when one of the samples it takes is at or above
  the panic threshold: until then it neither stops nor raises it, and a failed \<open>ioctl\<close> or the stop
  flag ends the sampling.\<close>

lemma watchdog_panics_exactly:
  "wd_panic_flag (watchdog_loop scale cfg w turns) \<longleftrightarrow>
     wd_panic_flag w \<or>
     (\<exists>n. find (\<lambda>(stop, sample). stop \<or> (case sample of None \<Rightarrow> True | Some k \<Rightarrow>
             k \<ge> scale (wc_buffer_size cfg) (wc_panic_ratio cfg))) turns = Some (False, Some n))"
proof -
  have "wd_panic_flag (watchdog_turns wb pb w turns) \<longleftrightarrow> wd_panic_flag w \<or>
     (\<exists>n. find (\<lambda>(stop, sample). stop \<or> (case sample of None \<Rightarrow> True | Some k \<Rightarrow> k \<ge> pb)) turns =
        Some (False, Some n))" for wb pb
    by (induction wb pb w turns rule: watchdog_turns.induct) (auto simp: Let_def split: option.splits)
  then show ?thesis by (simp add: watchdog_loop_def)
qed

end
