(* ===== verification/Connection.thy ===== *)
theory Connection
  imports Handshake Reader
begin

text \<open>
  \<^verbatim>\<open>crates/cedro-client/src/connection.rs\<close>: opening, tuning and splitting the connection. Every system call
  has its outcome in the record \<open>net\<close> (an error text, or none); the server's side of the handshake is
  its script. The socket is the record of the options set on it. Of the address parser of the
  standard library the textual form of IPv4 is modelled, the bracketed form of IPv6 is the argument
  \<open>v6\<close>.
\<close>

section \<open>Socket addresses\<close>

datatype SocketAddr = SA_V4 "nat list" u16 | SA_V6 bytes

definition parse_octet :: "bytes \<Rightarrow> nat option" where
  "parse_octet s =
     (if s \<noteq> [] \<and> length s \<le> 3 \<and> list_all is_digit s \<and> (hd s = CHR ''0'' \<longrightarrow> length s = 1) \<and> dec_value s < 256
      then Some (dec_value s) else None)"

definition parse_port :: "bytes \<Rightarrow> u16 option" where
  "parse_port s =
     (if s \<noteq> [] \<and> list_all is_digit s \<and> dec_value s < 2 ^ 16 then Some (word_of_nat (dec_value s)) else None)"

definition parse_v4 :: "bytes \<Rightarrow> SocketAddr option" where
  "parse_v4 s =
     (case split_on (CHR '':'') s of
        [ip, port] \<Rightarrow>
          (case (map parse_octet (split_on (CHR ''.'') ip), parse_port port) of
             ([Some a, Some b, Some c, Some d], Some p) \<Rightarrow> Some (SA_V4 [a, b, c, d] p)
           | _ \<Rightarrow> None)
      | _ \<Rightarrow> None)"

definition parse_socket_addr :: "(bytes \<Rightarrow> SocketAddr option) \<Rightarrow> bytes \<Rightarrow> SocketAddr option" where
  "parse_socket_addr v6 s = (case parse_v4 s of Some a \<Rightarrow> Some a | None \<Rightarrow> v6 s)"

section \<open>The connection\<close>

record net =
  nt_socket :: "string option"
  nt_set_rcvbuf :: "string option"
  nt_set_keepalive :: "string option"
  nt_connect :: "SocketAddr \<Rightarrow> string option"
  nt_set_nodelay :: "string option"
  nt_set_read_timeout :: "nat option \<Rightarrow> string option"
  nt_set_write_timeout :: "nat option \<Rightarrow> string option"
  nt_try_clone :: "string option"
  nt_raw_fd :: int
  nt_server :: "hs_event list"
  nt_io :: hs_io

record socket =
  sk_rcvbuf :: "usize option"
  sk_keepalive :: bool
  sk_peer :: "SocketAddr option"
  sk_nodelay :: bool
  sk_read_timeout :: "nat option"
  sk_write_timeout :: "nat option"
  sk_unread :: "hs_event list"
  sk_sent :: bytes

record Connection =
  cn_read_stream :: socket
  cn_command_sink :: socket
  cn_raw_fd :: int
  cn_so_rcvbuf :: usize

record ConnectionHandle =
  ch_raw_fd :: int
  ch_so_rcvbuf :: usize

definition io_check :: "string option \<Rightarrow> ClientError + unit" where
  "io_check r = (case r of None \<Rightarrow> Inr () | Some e \<Rightarrow> Inl (CE_Io e))"

definition new_socket :: "net \<Rightarrow> socket" where
  "new_socket n = \<lparr>sk_rcvbuf = None, sk_keepalive = False, sk_peer = None, sk_nodelay = False,
     sk_read_timeout = None, sk_write_timeout = None, sk_unread = nt_server n, sk_sent = []\<rparr>"

text \<open>A refused buffer size is counted (the first component) and ignored.\<close>

definition tune_socket :: "net \<Rightarrow> ConnectionConfig \<Rightarrow> socket \<Rightarrow> nat \<times> (ClientError + socket)" where
  "tune_socket n config s =
     (let (failed, s1) = (case nt_set_rcvbuf n of
             Some e \<Rightarrow> (1, s) | None \<Rightarrow> (0, s\<lparr>sk_rcvbuf := Some (cc_so_rcvbuf config)\<rparr>))
      in (failed, bind_res (io_check (nt_set_keepalive n)) (\<lambda>_. Inr (s1\<lparr>sk_keepalive := True\<rparr>))))"

definition set_timeouts :: "net \<Rightarrow> nat option \<Rightarrow> socket \<Rightarrow> ClientError + socket" where
  "set_timeouts n t s =
     bind_res (io_check (nt_set_read_timeout n t)) (\<lambda>_.
     bind_res (io_check (nt_set_write_timeout n t)) (\<lambda>_.
     Inr (s\<lparr>sk_read_timeout := t, sk_write_timeout := t\<rparr>)))"

text \<open>Up to the handshake, and from its end.\<close>

definition open_prepare :: "(bytes \<Rightarrow> SocketAddr option) \<Rightarrow> net \<Rightarrow> ConnectionConfig \<Rightarrow> ClientError + socket" where
  "open_prepare v6 n config =
     bind_res (case validate config of Inl r \<Rightarrow> Inl (CE_InvalidConfig r) | Inr _ \<Rightarrow> Inr ()) (\<lambda>_.
     bind_res (io_check (nt_socket n)) (\<lambda>_.
     bind_res (snd (tune_socket n config (new_socket n))) (\<lambda>s.
     bind_res (ok_or (parse_socket_addr v6 (addr config)) (CE_InvalidConfig ''host:port could not be parsed'')) (\<lambda>parsed.
     bind_res (io_check (nt_connect n parsed)) (\<lambda>_.
     bind_res (io_check (nt_set_nodelay n)) (\<lambda>_.
     set_timeouts n (Some (cc_handshake_timeout config)) (s\<lparr>sk_peer := Some parsed, sk_nodelay := True\<rparr>)))))))"

definition open_finish :: "net \<Rightarrow> ConnectionConfig \<Rightarrow> socket \<Rightarrow> ClientError + Connection" where
  "open_finish n config s =
     bind_res (set_timeouts n None s) (\<lambda>s1.
     bind_res (io_check (nt_try_clone n)) (\<lambda>_.
     Inr \<lparr>cn_read_stream = s1, cn_command_sink = s1, cn_raw_fd = nt_raw_fd n, cn_so_rcvbuf = cc_so_rcvbuf config\<rparr>))"

text \<open>\<open>None\<close>: the handshake still waits when the server's script ends.\<close>

definition conn_open :: "(bytes \<Rightarrow> SocketAddr option) \<Rightarrow> net \<Rightarrow> ConnectionConfig \<Rightarrow> (ClientError + Connection) option" where
  "conn_open v6 n config =
     (case open_prepare v6 n config of
        Inl e \<Rightarrow> Some (Inl e)
      | Inr s \<Rightarrow>
          (case perform (nt_io n) config (sk_unread s) of
             None \<Rightarrow> None
           | Some (Inl e, unread, sent) \<Rightarrow> Some (Inl e)
           | Some (Inr _, unread, sent) \<Rightarrow>
               Some (open_finish n config (s\<lparr>sk_unread := unread, sk_sent := sk_sent s @ sent\<rparr>))))"

definition into_halves :: "Connection \<Rightarrow> socket \<times> socket \<times> ConnectionHandle" where
  "into_halves c =
     (cn_read_stream c, cn_command_sink c, \<lparr>ch_raw_fd = cn_raw_fd c, ch_so_rcvbuf = cn_so_rcvbuf c\<rparr>)"

text \<open>The result of the \<open>ioctl\<close> is its return code and the integer it wrote.\<close>

definition pending_recv_bytes :: "int \<times> int \<Rightarrow> usize option" where
  "pending_recv_bytes = (\<lambda>(rc, pending). if rc < 0 then None else Some (nat (max pending 0)))"

section \<open>Lemmas\<close>

lemma io_check_Inr [simp]: "io_check r = Inr u \<longleftrightarrow> r = None"
  by (simp add: io_check_def split: option.split)

lemma set_timeouts_Inr:
  "set_timeouts n t s = Inr s' \<Longrightarrow> s' = s\<lparr>sk_read_timeout := t, sk_write_timeout := t\<rparr>"
  by (auto simp: set_timeouts_def bind_res_Inr_iff)

lemma ok_or_Inr [simp]: "ok_or v e = Inr x \<longleftrightarrow> v = Some x"
  by (simp add: ok_or_def split: option.split)

lemma tune_socket_Inr:
  "snd (tune_socket n config s) = Inr s' \<Longrightarrow>
     sk_keepalive s' \<and> sk_unread s' = sk_unread s \<and> sk_sent s' = sk_sent s"
  by (auto simp: tune_socket_def bind_res_Inr_iff split: option.splits)

lemma open_prepare_Inr:
  assumes "open_prepare v6 n config = Inr s"
  shows "validate config = Inr () \<and> parse_socket_addr v6 (addr config) = sk_peer s \<and> sk_peer s \<noteq> None \<and>
         sk_nodelay s \<and> sk_keepalive s \<and> sk_unread s = nt_server n \<and> sk_sent s = []"
  using assms
  by (auto simp: open_prepare_def bind_res_Inr_iff new_socket_def dest!: set_timeouts_Inr tune_socket_Inr
      split: sum.splits)

text \<open>A handshake that succeeds has sent every credential.\<close>

lemma consume_until_sent: "consume_until n st h = Some (r, h') \<Longrightarrow> hb_sent h' = hb_sent h"
  by (auto simp: consume_until_def)

lemma write_line_sent_ok:
  "hs_write_line io p st h = Some (Inr u, h') \<Longrightarrow> hb_sent h' = hb_sent h @ p @ [CHR 0x0D, CHR 0x0A]"
  by (auto simp: hs_write_line_def Let_def split: write_outcome.splits)

lemma hs_then_Inr: "hs_then f g h = Some (Inr u, h') \<longleftrightarrow> (\<exists>h1. f h = Some (Inr (), h1) \<and> g h1 = Some (Inr u, h'))"
  by (auto simp: hs_then_def split: option.splits sum.splits)

lemma perform_sent:
  assumes "perform io config stream = Some (Inr u, unread, sent)"
  shows "sent = cc_software_key config @ [CHR 0x0D, CHR 0x0A] @ cc_username config @ [CHR 0x0D, CHR 0x0A] @
           cc_password config @ [CHR 0x0D, CHR 0x0A]"
  using assms
  by (auto simp: perform_def perform_steps_def hs_then_Inr with_stream_def
      dest!: consume_until_sent write_line_sent_ok)

lemma parse_octet_digits: "parse_octet s = Some n \<Longrightarrow> list_all is_digit s"
  by (simp add: parse_octet_def split: if_splits)

lemma split_on_set: "set s \<subseteq> insert c (\<Union> (set ` set (split_on c s)))"
  using join_split_on [of c s] join_on_set [of c "split_on c s"] by simp

lemma parse_v4_chars:
  assumes "parse_v4 s = Some a" and "b \<in> set s"
  shows "is_digit b \<or> b = CHR ''.'' \<or> b = CHR '':''"
proof -
  from assms(1) obtain ip port where s: "split_on (CHR '':'') s = [ip, port]"
    by (auto simp: parse_v4_def split: list.splits)
  from assms(1) s have octets: "None \<notin> set (map parse_octet (split_on (CHR ''.'') ip))" "parse_port port \<noteq> None"
    by (auto simp: parse_v4_def split: list.splits option.splits)
  then have "list_all is_digit port" by (auto simp: parse_port_def split: if_splits)
  moreover have "\<forall>x \<in> set (split_on (CHR ''.'') ip). list_all is_digit x"
    using octets(1) parse_octet_digits by (metis (mono_tags, lifting) image_eqI list.set_map not_None_eq)
  ultimately show ?thesis
    using split_on_set [of s "CHR '':''"] split_on_set [of ip "CHR ''.''"] s assms(2)
    unfolding list_all_iff by (simp, blast)
qed

section \<open>Properties\<close>

text \<open>C37. An open connection is ready to stream: it was opened from a valid configuration to the
  parsed address, both credentials and the software key have been sent, and the timeouts of the handshake
  are off again on both halves, whatever the system calls and the server did before.\<close>

theorem open_connection_ready:
  assumes "conn_open v6 n config = Some (Inr c)"
  shows "validate config = Inr () \<and> parse_socket_addr v6 (addr config) = sk_peer (cn_read_stream c) \<and>
         sk_peer (cn_read_stream c) \<noteq> None \<and> sk_nodelay (cn_read_stream c) \<and>
         sk_read_timeout (cn_read_stream c) = None \<and> sk_write_timeout (cn_read_stream c) = None \<and>
         cn_command_sink c = cn_read_stream c \<and>
         sk_sent (cn_read_stream c) =
           cc_software_key config @ [CHR 0x0D, CHR 0x0A] @ cc_username config @ [CHR 0x0D, CHR 0x0A] @
           cc_password config @ [CHR 0x0D, CHR 0x0A]"
proof -
  from assms obtain s unread sent where
    prep: "open_prepare v6 n config = Inr s" and
    perf: "perform (nt_io n) config (sk_unread s) = Some (Inr (), unread, sent)" and
    fin: "open_finish n config (s\<lparr>sk_unread := unread, sk_sent := sk_sent s @ sent\<rparr>) = Inr c"
    by (auto simp: conn_open_def split: sum.splits option.splits)
  from fin show ?thesis
    using open_prepare_Inr [OF prep] perform_sent [OF perf]
    by (auto simp: open_finish_def bind_res_Inr_iff dest!: set_timeouts_Inr)
qed

definition demo_net :: net where
  "demo_net = \<lparr>nt_socket = None, nt_set_rcvbuf = Some ''no'', nt_set_keepalive = None, nt_connect = (\<lambda>a. None),
     nt_set_nodelay = None, nt_set_read_timeout = (\<lambda>t. None), nt_set_write_timeout = (\<lambda>t. None),
     nt_try_clone = None, nt_raw_fd = 3,
     nt_server = reads [''Welcome to Cedro Crystal'', ''Username:'', ''Password:'', ''You are connected''],
     nt_io = (\<lambda>s. WriteOk)\<rparr>"

lemma demo_connection:
  obtains c where "conn_open (\<lambda>s. None) demo_net (ConnectionConfig_new ''127.0.0.1'' ''u'' ''p'') = Some (Inr c)"
proof -
  let ?cfg = "ConnectionConfig_new ''127.0.0.1'' ''u'' ''p''"
  have port: "show_nat 81 = ''81''" by code_simp
  have "validate ?cfg = Inr ()" using validate_exact [of _ "''127.0.0.1''" "''u''" "''p''"] by simp
  moreover have "parse_socket_addr (\<lambda>s. None) (addr ?cfg) = Some (SA_V4 [127, 0, 0, 1] 81)"
    using port
    by (simp add: addr_def ConnectionConfig_new_def parse_socket_addr_def parse_v4_def parse_octet_def parse_port_def
        is_digit_def byte_in_def dec_value_def digit_val_def)
  moreover have "perform (\<lambda>s. WriteOk) ?cfg (reads [''Welcome to Cedro Crystal'', ''Username:'', ''Password:'', ''You are connected'']) \<noteq> None \<and>
      fst (the (perform (\<lambda>s. WriteOk) ?cfg (reads [''Welcome to Cedro Crystal'', ''Username:'', ''Password:'', ''You are connected'']))) = Inr ()"
    by (simp add: perform_def perform_steps_def hs_then_def consume_until_def consume_loop.simps
        hs_write_line_def with_stream_def reads_def Let_def)
  ultimately have "\<exists>c. conn_open (\<lambda>s. None) demo_net ?cfg = Some (Inr c)"
    by (auto simp: conn_open_def open_prepare_def open_finish_def set_timeouts_def io_check_def tune_socket_def
        demo_net_def new_socket_def ok_or_def)
  then show thesis using that by blast
qed

theorem open_connection_ready_witness:
  "\<exists>c. conn_open (\<lambda>s. None) demo_net (ConnectionConfig_new ''127.0.0.1'' ''u'' ''p'') = Some (Inr c) \<and>
       sk_sent (cn_read_stream c) = [CHR 0x0D, CHR 0x0A, CHR ''u'', CHR 0x0D, CHR 0x0A, CHR ''p'', CHR 0x0D, CHR 0x0A] \<and>
       sk_read_timeout (cn_read_stream c) = None"
proof -
  obtain c where c: "conn_open (\<lambda>s. None) demo_net (ConnectionConfig_new ''127.0.0.1'' ''u'' ''p'') = Some (Inr c)"
    by (rule demo_connection)
  from open_connection_ready [OF c] c show ?thesis by (simp add: ConnectionConfig_new_def)
qed

text \<open>A host name is never accepted: a configuration whose host holds a character other than
  digits and dots, and is no bracketed IPv6 address, cannot be opened, whatever the network does; the
  address is parsed and never resolved. The host of the example environment is such a name.\<close>

lemma open_rejects_host_names:
  assumes "\<And>s a. v6 s = Some a \<Longrightarrow> take 1 s = ''[''"
    and "validate config = Inr ()" and "nt_socket n = None" and "nt_set_keepalive n = None"
    and "b \<in> set (cc_host config)" and "\<not> is_digit b" and "b \<noteq> CHR ''.''" and "b \<noteq> CHR '':''"
    and "take 1 (cc_host config) \<noteq> ''[''"
  shows "conn_open v6 n config = Some (Inl (CE_InvalidConfig ''host:port could not be parsed''))"
proof -
  have host: "cc_host config \<noteq> []" using assms(5) by auto
  have "parse_v4 (addr config) = None"
    using parse_v4_chars [of "addr config" _ b] assms(5-8) by (cases "parse_v4 (addr config)") (auto simp: addr_def)
  moreover have "v6 (addr config) = None"
    using assms(1) [of "addr config"] assms(9) host by (cases "v6 (addr config)") (auto simp: addr_def take_Suc)
  ultimately have "parse_socket_addr v6 (addr config) = None" by (simp add: parse_socket_addr_def)
  then show ?thesis
    using assms(2-4)
    by (simp add: conn_open_def open_prepare_def tune_socket_def io_check_def ok_or_def bind_res_def split: option.splits)
qed

text \<open>When the kernel grants a smaller buffer than was asked for, the watchdog is blind: its
  thresholds are fractions of the requested size, so if the panic fraction of the request exceeds
  the granted size, no number of unread bytes the granted buffer can hold ever raises the panic
  flag. The source relies on the watchdog to catch overflow in that case.\<close>

lemma watchdog_blind_below_request:
  assumes "conn_open v6 n config = Some (Inr c)" and "into_halves c = (r, s, handle)"
    and "granted < scale (cc_so_rcvbuf config) (cc_backpressure_panic_ratio config)"
    and "\<forall>(stop, result) \<in> set turns. snd result \<le> int granted" and "\<not> wd_panic_flag w"
  shows "\<not> wd_panic_flag (watchdog_loop scale (spawn_watchdog_cfg config (ch_so_rcvbuf handle)) w
              (map (map_prod (\<lambda>x. x) pending_recv_bytes) turns))"
proof -
  from assms(1) have "cn_so_rcvbuf c = cc_so_rcvbuf config"
    by (auto simp: conn_open_def open_finish_def bind_res_Inr_iff split: sum.splits option.splits)
  with assms(2) have h: "ch_so_rcvbuf handle = cc_so_rcvbuf config" by (auto simp: into_halves_def)
  let ?P = "\<lambda>(stop, sample). stop \<or> (case sample of None \<Rightarrow> True
      | Some k \<Rightarrow> k \<ge> scale (cc_so_rcvbuf config) (cc_backpressure_panic_ratio config))"
  have "find ?P (map (map_prod (\<lambda>x. x) pending_recv_bytes) turns) \<noteq> Some (False, Some k)" for k
  proof
    assume "find ?P (map (map_prod (\<lambda>x. x) pending_recv_bytes) turns) = Some (False, Some k)"
    then have k: "(False, Some k) \<in> set (map (map_prod (\<lambda>x. x) pending_recv_bytes) turns)"
      "k \<ge> scale (cc_so_rcvbuf config) (cc_backpressure_panic_ratio config)"
      by (auto dest: find_SomeD)
    from k(1) obtain result where "(False, result) \<in> set turns" "pending_recv_bytes result = Some k" by auto
    with assms(4) have "snd result \<le> int granted" "k = nat (max (snd result) 0)"
      by (auto simp: pending_recv_bytes_def split: prod.splits if_splits)
    then have "k \<le> granted" by simp
    with k(2) assms(3) show False by simp
  qed
  moreover have cfg: "wc_buffer_size (spawn_watchdog_cfg config b) = b"
    "wc_panic_ratio (spawn_watchdog_cfg config b) = cc_backpressure_panic_ratio config" for b
    by (simp_all add: spawn_watchdog_cfg_def)
  ultimately show ?thesis
    using assms(5) unfolding watchdog_panics_exactly h cfg by blast
qed

end
