(* ===== verification/Lifecycle.thy ===== *)
theory Lifecycle
  imports Step_System Connection
begin

text \<open>
  The life of the daemon's threads: \<open>Reader::spawn\<close> and \<open>ReaderHandle::shutdown\<close> of
  \<^verbatim>\<open>crates/cedro-client/src/reader.rs\<close>, and the end of \<open>main\<close> with \<open>wait_for_shutdown\<close> of
  \<^verbatim>\<open>bin/ingest-daemon/src/main.rs\<close>, with the flush timer it waits for. The reader is at the test of the stop flag, inside the blocking
  \<open>read\<close>, handing over what it read, where it may be held by the blocking \<open>send\<close> of a full channel, or has returned; its turns are those of \<open>reader_turns\<close>, the watchdog's those of
  \<open>watchdog_turns\<close>. When the reader returns it drops the stream and so closes the descriptor the
  watchdog samples. \<open>samples open r\<close> says which results the \<open>ioctl\<close> can give on an open or closed
  descriptor. What the final flush does to the pipeline is \<open>flush_all\<close> of the pipeline's theory.
\<close>

section \<open>State\<close>

datatype main_phase = Waiting | Draining | AwaitTimer | JoinReader | JoinWatchdog | MainDone

datatype timer_phase = TimerWaiting | TimerFlushing | TimerEnded

datatype reader_phase = AtCheck | InRead | Sending read_result | is_Ended: Ended reader_exit

record 'c life =
  lf_main :: main_phase
  lf_reader :: reader_phase
  lf_splitter :: FrameSplitter
  lf_tx :: 'c
  lf_metrics :: reader_metrics
  lf_watching :: bool
  lf_watchdog :: watchdog_state
  lf_timer :: timer_phase
  lf_stop_flag :: bool
  lf_fd_open :: bool

text \<open>\<open>le_sends\<close> says whether the sends of these frames all return: the channel has room for them, or workers make room, or
  nobody receives any more.\<close>

record 'c life_env =
  le_try_send :: "'c \<Rightarrow> frame \<Rightarrow> try_send_result \<times> 'c"
  le_send :: "'c \<Rightarrow> frame \<Rightarrow> bool \<times> 'c"
  le_sends :: "'c \<Rightarrow> frame list \<Rightarrow> bool"
  le_samples :: "bool \<Rightarrow> usize option \<Rightarrow> bool"
  le_warn_bytes :: usize
  le_panic_bytes :: usize

text \<open>Both threads just started, \<open>main\<close> past the bootstrap.\<close>

definition spawn :: "'c \<Rightarrow> 'c life" where
  "spawn tx =
     \<lparr>lf_main = Waiting, lf_reader = AtCheck, lf_splitter = with_capacity (8 * 1024 * 1024), lf_tx = tx,
      lf_metrics = \<lparr>rm_eof = 0, rm_read_error = 0, rm_bytes_read = 0, rm_frames = 0, rm_channel_blocked = 0\<rparr>,
      lf_watching = True,
      lf_watchdog = \<lparr>wd_panic_flag = False, wd_recv_buf_bytes = None, wd_panic_total = 0, wd_warn_total = 0,
        wd_fionread_failed_total = 0\<rparr>,
      lf_timer = TimerWaiting, lf_stop_flag = False, lf_fd_open = True\<rparr>"

section \<open>Steps\<close>

datatype life_event = Check | Read read_result | Sent | Watch "usize option" | Signal | Poll | Tick | Flushed | Notify | Drained | Join

definition reader_ends :: "reader_exit \<Rightarrow> 'c life \<Rightarrow> 'c life" where
  "reader_ends ex s =
     (if ex = ReaderWaiting then s\<lparr>lf_reader := AtCheck\<rparr> else s\<lparr>lf_reader := Ended ex, lf_fd_open := False\<rparr>)"

text \<open>The frames a read completes.\<close>

definition turn_frames :: "FrameSplitter \<Rightarrow> read_result \<Rightarrow> frame list" where
  "turn_frames sp r = (case r of ReadOk buf \<Rightarrow> fst (split_bytes (fs_buf sp) buf) | _ \<Rightarrow> [])"

text \<open>\<open>watch\<close> is one turn of the watchdog, \<open>poll\<close> one of the loop in \<open>wait_for_shutdown\<close> that finds the flag up,
  \<open>notify\<close> the call of \<open>notify_waiters\<close>, which wakes the flush timer only if it is waiting at that moment and
  stores nothing for later, \<open>drained\<close> the end of the wait for the timer, the final flush and the store to the
  stop flag.\<close>

inductive life_step :: "'c life_env \<Rightarrow> life_event \<Rightarrow> 'c life \<Rightarrow> 'c life \<Rightarrow> bool" for env where
  check: "lf_reader s = AtCheck \<Longrightarrow>
    life_step env Check s (if lf_stop_flag s then reader_ends ReaderStopped s else s\<lparr>lf_reader := InRead\<rparr>)"
| read: "lf_reader s = InRead \<Longrightarrow> life_step env (Read r) s (s\<lparr>lf_reader := Sending r\<rparr>)"
| sent: "\<lbrakk>lf_reader s = Sending r; le_sends env (lf_tx s) (turn_frames (lf_splitter s) r);
     reader_turns (le_try_send env) (le_send env) (lf_splitter s) (lf_tx s) (lf_metrics s) [(False, r)] = (ex, sp, tx, m)\<rbrakk> \<Longrightarrow>
    life_step env Sent s (reader_ends ex (s\<lparr>lf_splitter := sp, lf_tx := tx, lf_metrics := m\<rparr>))"
| watch: "\<lbrakk>lf_watching s; le_samples env (lf_fd_open s) r\<rbrakk> \<Longrightarrow>
    life_step env (Watch r) s (s\<lparr>
      lf_watchdog := watchdog_turns (le_warn_bytes env) (le_panic_bytes env) (lf_watchdog s) [(lf_stop_flag s, r)],
      lf_watching := (\<not> lf_stop_flag s \<and> (case r of Some n \<Rightarrow> n < le_panic_bytes env | None \<Rightarrow> False))\<rparr>)"
| signal: "lf_main s = Waiting \<Longrightarrow> life_step env Signal s (s\<lparr>lf_main := Draining\<rparr>)"
| poll: "\<lbrakk>lf_main s = Waiting; wd_panic_flag (lf_watchdog s)\<rbrakk> \<Longrightarrow> life_step env Poll s (s\<lparr>lf_main := Draining\<rparr>)"
| tick: "lf_timer s = TimerWaiting \<Longrightarrow> life_step env Tick s (s\<lparr>lf_timer := TimerFlushing\<rparr>)"
| flushed: "lf_timer s = TimerFlushing \<Longrightarrow> life_step env Flushed s (s\<lparr>lf_timer := TimerWaiting\<rparr>)"
| notify: "lf_main s = Draining \<Longrightarrow> life_step env Notify s (s\<lparr>lf_main := AwaitTimer,
      lf_timer := (if lf_timer s = TimerWaiting then TimerEnded else lf_timer s)\<rparr>)"
| drained: "\<lbrakk>lf_main s = AwaitTimer; lf_timer s = TimerEnded\<rbrakk> \<Longrightarrow>
    life_step env Drained s (s\<lparr>lf_main := JoinReader, lf_stop_flag := True\<rparr>)"
| join_reader: "\<lbrakk>lf_main s = JoinReader; lf_reader s = Ended ex\<rbrakk> \<Longrightarrow>
    life_step env Join s (s\<lparr>lf_main := JoinWatchdog\<rparr>)"
| join_watchdog: "\<lbrakk>lf_main s = JoinWatchdog; \<not> lf_watching s\<rbrakk> \<Longrightarrow> life_step env Join s (s\<lparr>lf_main := MainDone\<rparr>)"

inductive_cases life_stepE: "life_step env e s t"

text \<open>A run in which only some events happen.\<close>

definition life_run :: "'c life_env \<Rightarrow> (life_event \<Rightarrow> bool) \<Rightarrow> 'c life \<Rightarrow> 'c life \<Rightarrow> bool" where
  "life_run env P s t \<longleftrightarrow> (\<exists>e. P e \<and> life_step env e s t)"

lemma life_runI: "P e \<Longrightarrow> life_step env e s t \<Longrightarrow> (life_run env P)\<^sup>*\<^sup>* s t"
  by (rule r_into_rtranclp) (auto simp: life_run_def)

section \<open>Invariants\<close>

definition feed_lost :: "'c life \<Rightarrow> bool" where
  "feed_lost s \<longleftrightarrow> lf_main s = Waiting \<and> is_Ended (lf_reader s) \<and> \<not> lf_fd_open s \<and>
     \<not> wd_panic_flag (lf_watchdog s)"

definition stuck_in_read :: "'c life \<Rightarrow> bool" where
  "stuck_in_read s \<longleftrightarrow> lf_reader s = InRead \<and> lf_main s \<notin> {JoinWatchdog, MainDone}"

definition stuck_in_send :: "'c life_env \<Rightarrow> 'c life \<Rightarrow> bool" where
  "stuck_in_send env s \<longleftrightarrow> (\<exists>r. lf_reader s = Sending r \<and> \<not> le_sends env (lf_tx s) (turn_frames (lf_splitter s) r)) \<and>
     lf_main s \<notin> {JoinWatchdog, MainDone}"

definition notification_lost :: "'c life \<Rightarrow> bool" where
  "notification_lost s \<longleftrightarrow> lf_main s = AwaitTimer \<and> lf_timer s \<noteq> TimerEnded"

definition joining :: "'c life \<Rightarrow> bool" where
  "joining s \<longleftrightarrow> lf_stop_flag s \<and> lf_timer s = TimerEnded \<and> lf_main s \<in> {JoinReader, JoinWatchdog, MainDone}"

definition to_join :: "'c life \<Rightarrow> nat" where
  "to_join s =
     (case lf_reader s of InRead \<Rightarrow> 3 | Sending r \<Rightarrow> 2 | AtCheck \<Rightarrow> 1 | Ended ex \<Rightarrow> 0) + (if lf_watching s then 1 else 0) +
     (case lf_main s of JoinReader \<Rightarrow> 2 | JoinWatchdog \<Rightarrow> 1 | _ \<Rightarrow> 0)"

definition descriptor_laws :: "'c life_env \<Rightarrow> bool" where
  "descriptor_laws env \<longleftrightarrow> (\<forall>r. le_samples env False r \<longrightarrow> r = None) \<and> (\<forall>b. \<exists>r. le_samples env b r)"

definition sends_return :: "'c life_env \<Rightarrow> bool" where
  "sends_return env \<longleftrightarrow> (\<forall>c fs. le_sends env c fs)"

definition life_ok :: "'c life \<Rightarrow> bool" where
  "life_ok s \<longleftrightarrow> (lf_fd_open s \<longleftrightarrow> \<not> is_Ended (lf_reader s)) \<and>
     (lf_main s \<in> {JoinReader, JoinWatchdog, MainDone} \<longrightarrow> lf_stop_flag s \<and> lf_timer s = TimerEnded) \<and>
     (lf_main s \<in> {JoinWatchdog, MainDone} \<longrightarrow> \<not> lf_fd_open s)"

lemma reader_ends_fields [simp]:
  "lf_main (reader_ends ex s) = lf_main s" "lf_watching (reader_ends ex s) = lf_watching s"
  "lf_watchdog (reader_ends ex s) = lf_watchdog s" "lf_stop_flag (reader_ends ex s) = lf_stop_flag s"
  "lf_timer (reader_ends ex s) = lf_timer s" "lf_reader (reader_ends ex s) = (if ex = ReaderWaiting then AtCheck else Ended ex)"
  by (simp_all add: reader_ends_def)

lemma life_ok_spawn: "life_ok (spawn tx)"
  by (simp add: life_ok_def spawn_def)

lemma life_ok_step: "\<lbrakk>life_step env e s t; life_ok s\<rbrakk> \<Longrightarrow> life_ok t"
  by (induction rule: life_step.induct) (simp_all add: life_ok_def reader_ends_def del: reader_turns.simps, blast+)

interpretation life: step_invariant "life_run env (\<lambda>e. True)" life_ok for env
  by unfold_locales (auto simp: life_run_def intro: life_ok_step)

lemma feed_lost_step:
  assumes "descriptor_laws env" and "life_step env e s t" and "e \<noteq> Signal" and "feed_lost s"
  shows "feed_lost t"
  using assms(2-4) assms(1)
  by (cases rule: life_step.cases) (auto simp: feed_lost_def descriptor_laws_def)

lemma stuck_in_read_step:
  "\<lbrakk>life_step env e s t; \<forall>r. e \<noteq> Read r; stuck_in_read s\<rbrakk> \<Longrightarrow> stuck_in_read t"
  by (cases rule: life_step.cases) (auto simp: stuck_in_read_def)

lemma stuck_in_send_step: "\<lbrakk>life_step env e s t; stuck_in_send env s\<rbrakk> \<Longrightarrow> stuck_in_send env t"
  by (cases rule: life_step.cases) (auto simp: stuck_in_send_def)

lemma notification_lost_step: "\<lbrakk>life_step env e s t; notification_lost s\<rbrakk> \<Longrightarrow> notification_lost t"
  by (cases rule: life_step.cases) (auto simp: notification_lost_def split: if_splits)

lemma joining_step: "\<lbrakk>life_step env e s t; joining s\<rbrakk> \<Longrightarrow> joining t"
  by (cases rule: life_step.cases) (auto simp: joining_def)

lemma to_join_step: "\<lbrakk>life_step env e s t; joining s\<rbrakk> \<Longrightarrow> to_join t < to_join s"
  by (cases rule: life_step.cases) (auto simp: joining_def to_join_def)

interpretation unnoticed: step_invariant "life_run env (\<lambda>e. e \<noteq> Signal)" "\<lambda>s. descriptor_laws env \<and> feed_lost s" for env
  by unfold_locales (auto simp: life_run_def intro: feed_lost_step)

interpretation blocked: step_invariant "life_run env (\<lambda>e. \<forall>r. e \<noteq> Read r)" stuck_in_read for env
  by unfold_locales (auto simp: life_run_def intro: stuck_in_read_step)

interpretation held: step_invariant "life_run env (\<lambda>e. True)" "stuck_in_send env" for env
  by unfold_locales (auto simp: life_run_def intro: stuck_in_send_step)

interpretation lost: step_invariant "life_run env (\<lambda>e. True)" notification_lost for env
  by unfold_locales (auto simp: life_run_def intro: notification_lost_step)

interpretation shutdown: terminating_steps "life_run env (\<lambda>e. True)" joining to_join for env
  by unfold_locales (auto simp: life_run_def intro: joining_step to_join_step)

text \<open>While threads are still to be joined there is always a step, if reads and sends return.\<close>

lemma joining_progress:
  assumes "descriptor_laws env" and "sends_return env" and "joining s" and "\<nexists>u. life_run env (\<lambda>e. True) s u"
  shows "lf_main s = MainDone"
proof -
  have no: "\<not> life_step env e s u" for e u using assms(4) by (auto simp: life_run_def)
  have "lf_reader s \<noteq> AtCheck" using no life_step.check [of s env] by blast
  moreover have "lf_reader s \<noteq> InRead" using no life_step.read [of s env ReadFailed] by blast
  moreover have "lf_reader s \<noteq> Sending r" for r
    using no life_step.sent [of s r env] assms(2) unfolding sends_return_def by (metis prod_cases4)
  ultimately obtain ex where "lf_reader s = Ended ex" by (cases "lf_reader s") auto
  moreover obtain r where "le_samples env (lf_fd_open s) r" using assms(1) by (auto simp: descriptor_laws_def)
  then have "\<not> lf_watching s" using no life_step.watch [of s env r] by blast
  ultimately show ?thesis
    using assms(3) no life_step.join_reader [of s ex env] life_step.join_watchdog [of s env]
    unfolding joining_def by blast
qed

section \<open>Properties\<close>

text \<open>The loss of the feed goes unnoticed: once the reader has returned, at the end of the stream
  or on a read error, \<open>main\<close> waits for ever unless it gets a signal, whatever the threads do; the
  watchdog's sample of the closed descriptor fails and ends it without raising the flag that \<open>main\<close> polls.
  The source's comment says that a reconnection is triggered.\<close>

lemma feed_loss_unnoticed:
  assumes "descriptor_laws env" and "(life_run env (\<lambda>e. True))\<^sup>*\<^sup>* (spawn tx) s" and "lf_reader s = Ended ex"
    and "lf_main s = Waiting" and "\<not> wd_panic_flag (lf_watchdog s)" and "(life_run env (\<lambda>e. e \<noteq> Signal))\<^sup>*\<^sup>* s t"
  shows "lf_main t = Waiting"
proof -
  have "life_ok s" using life.inv_reachable [OF assms(2) life_ok_spawn] .
  with assms have "descriptor_laws env \<and> feed_lost s" by (auto simp: feed_lost_def life_ok_def)
  from unnoticed.inv_reachable [OF assms(6) this] show ?thesis by (simp add: feed_lost_def)
qed

definition demo_life :: "frame list life_env" where
  "demo_life = \<lparr>le_try_send = demo_try, le_send = demo_send,
     le_sends = (\<lambda>c fs. True), le_samples = (\<lambda>fd_open r. r = (if fd_open then Some 0 else None)), le_warn_bytes = 20, le_panic_bytes = 40\<rparr>"

definition demo_reading :: "frame list life" where
  "demo_reading = (spawn [])\<lparr>lf_reader := InRead\<rparr>"

definition demo_lost :: "frame list life" where
  "demo_lost = demo_reading\<lparr>lf_reader := Ended ReaderEof, lf_fd_open := False,
     lf_metrics := \<lparr>rm_eof = 1, rm_read_error = 0, rm_bytes_read = 0, rm_frames = 0, rm_channel_blocked = 0\<rparr>\<rparr>"

lemma demo_laws: "descriptor_laws demo_life"
  by (simp add: descriptor_laws_def demo_life_def)

lemma demo_reading_step: "life_step demo_life Check (spawn []) demo_reading"
  using life_step.check [of "spawn []" demo_life] by (simp add: spawn_def demo_reading_def)

lemma demo_lost_steps:
  "life_step demo_life (Read (ReadOk [])) demo_reading (demo_reading\<lparr>lf_reader := Sending (ReadOk [])\<rparr>)"
  "life_step demo_life Sent (demo_reading\<lparr>lf_reader := Sending (ReadOk [])\<rparr>) demo_lost"
  using life_step.read [of demo_reading demo_life "ReadOk []"]
    life_step.sent [of "demo_reading\<lparr>lf_reader := Sending (ReadOk [])\<rparr>" "ReadOk []" demo_life]
  by (simp_all add: demo_reading_def spawn_def demo_lost_def demo_life_def reader_ends_def)

lemma demo_runs:
  shows "(life_run demo_life (\<lambda>e. True))\<^sup>*\<^sup>* (spawn []) demo_reading"
    and "(life_run demo_life (\<lambda>e. True))\<^sup>*\<^sup>* (spawn []) demo_lost"
proof -
  show run: "(life_run demo_life (\<lambda>e. True))\<^sup>*\<^sup>* (spawn []) demo_reading"
    by (rule life_runI [OF _ demo_reading_step]) simp
  have "(life_run demo_life (\<lambda>e. True))\<^sup>*\<^sup>* demo_reading demo_lost"
    by (rule rtranclp_trans [OF life_runI [OF _ demo_lost_steps(1)] life_runI [OF _ demo_lost_steps(2)]]) simp_all
  with run show "(life_run demo_life (\<lambda>e. True))\<^sup>*\<^sup>* (spawn []) demo_lost" by (rule rtranclp_trans)
qed

text \<open>Shutting down waits for traffic: as long as the reader sits in its \<open>read\<close>, which has no timeout, and
  nothing arrives, no run takes \<open>main\<close> to its end, whatever signals it gets.\<close>

lemma shutdown_needs_read:
  assumes "(life_run env (\<lambda>e. True))\<^sup>*\<^sup>* (spawn tx) s" and "lf_reader s = InRead"
    and "(life_run env (\<lambda>e. \<forall>r. e \<noteq> Read r))\<^sup>*\<^sup>* s t"
  shows "lf_main t \<noteq> MainDone"
proof -
  have "life_ok s" using life.inv_reachable [OF assms(1) life_ok_spawn] .
  with assms(2) have "stuck_in_read s" by (auto simp: life_ok_def stuck_in_read_def)
  from blocked.inv_reachable [OF assms(3) this] show ?thesis by (auto simp: stuck_in_read_def)
qed

text \<open>Shutting down waits for the workers too: a reader held by the blocking \<open>send\<close> of a channel that nobody empties, as with no
  workers, never looks at the stop flag again, and \<open>main\<close> never ends, whatever else happens.\<close>

lemma shutdown_needs_room:
  assumes "(life_run env (\<lambda>e. True))\<^sup>*\<^sup>* (spawn tx) s" and "lf_reader s = Sending r"
    and "\<not> le_sends env (lf_tx s) (turn_frames (lf_splitter s) r)" and "(life_run env (\<lambda>e. True))\<^sup>*\<^sup>* s t"
  shows "lf_main t \<noteq> MainDone"
proof -
  have "life_ok s" using life.inv_reachable [OF assms(1) life_ok_spawn] .
  with assms(2,3) have "stuck_in_send env s" by (auto simp: life_ok_def stuck_in_send_def)
  from held.inv_reachable [OF assms(4) this] show ?thesis by (auto simp: stuck_in_send_def)
qed

text \<open>The daemon can hang on its way down: if the flush timer is in the middle of a flush when it is
  notified, the notification is lost and \<open>main\<close> waits for the timer in every later state, so it never
  flushes the pipeline, never stops the reader and never ends.\<close>

lemma shutdown_notification_lost:
  assumes "lf_main s = Draining" and "lf_timer s = TimerFlushing" and "life_step env Notify s t"
    and "(life_run env (\<lambda>e. True))\<^sup>*\<^sup>* t u"
  shows "lf_main u = AwaitTimer"
proof -
  from assms(3) have "notification_lost t"
    using assms(1,2) by (cases rule: life_step.cases) (auto simp: notification_lost_def)
  from lost.inv_reachable [OF assms(4) this] show ?thesis by (simp add: notification_lost_def)
qed

definition demo_joining :: "frame list life" where
  "demo_joining = demo_reading\<lparr>lf_timer := TimerEnded, lf_main := JoinReader, lf_stop_flag := True\<rparr>"

lemma demo_joining_run: "(life_run demo_life (\<lambda>e. True))\<^sup>*\<^sup>* demo_reading demo_joining"
proof -
  let ?d = "demo_reading\<lparr>lf_main := Draining\<rparr>" and ?a = "demo_reading\<lparr>lf_main := AwaitTimer, lf_timer := TimerEnded\<rparr>"
  have "life_step demo_life Signal demo_reading ?d"
    by (rule life_step.signal, simp add: demo_reading_def spawn_def)
  moreover have "life_step demo_life Notify ?d ?a"
    using life_step.notify [of ?d demo_life] by (simp add: demo_reading_def spawn_def)
  moreover have "life_step demo_life Drained ?a demo_joining"
    using life_step.drained [of ?a demo_life] by (simp add: demo_joining_def)
  ultimately show ?thesis
    by (intro rtranclp_trans [OF life_runI rtranclp_trans [OF life_runI life_runI]]) simp_all
qed

text \<open>C39. Shutting down ends, if reads return and the channel takes the frames: from the moment \<open>main\<close> joins the threads every run
  makes at most six steps, and a run that cannot go on has joined both threads. That every blocking send returns is an
  assumption, met as long as a worker takes frames; without it the daemon can be held for ever.\<close>

theorem shutdown_terminates:
  assumes "descriptor_laws env" and "sends_return env" and "(life_run env (\<lambda>e. True))\<^sup>*\<^sup>* (spawn tx) s"
    and "lf_main s = JoinReader" and "(life_run env (\<lambda>e. True) ^^ k) s t"
  shows "if \<exists>u. life_run env (\<lambda>e. True) t u then k < 6 else k \<le> 6 \<and> lf_main t = MainDone"
proof -
  have "life_ok s" using life.inv_reachable [OF assms(3) life_ok_spawn] .
  with assms(4) have js: "joining s" by (simp add: life_ok_def joining_def)
  then have jt: "joining t" using shutdown.inv_reachable [OF relpowp_imp_rtranclp [OF assms(5)]] by blast
  have "to_join s \<le> 6" using assms(4) by (simp add: to_join_def split: reader_phase.split)
  with shutdown.run_bound [OF assms(5) js] have bound: "to_join t + k \<le> 6" by simp
  show ?thesis
  proof (cases "\<exists>u. life_run env (\<lambda>e. True) t u")
    case True
    then have "0 < to_join t" using to_join_step jt unfolding life_run_def by fastforce
    with True bound show ?thesis by simp
  qed (use joining_progress [OF assms(1,2) jt] bound in simp)
qed

theorem shutdown_terminates_witness:
  "\<exists>t. life_step demo_life (Read ReadFailed) demo_joining t \<and>
     (if \<exists>u. life_run demo_life (\<lambda>e. True) t u then (1 :: nat) < 6 else lf_main t = MainDone)"
proof -
  have "lf_reader demo_joining = InRead" by (simp add: demo_joining_def demo_reading_def)
  then obtain t where t: "life_step demo_life (Read ReadFailed) demo_joining t"
    using life_step.read [of demo_joining demo_life ReadFailed] by blast
  then have "(life_run demo_life (\<lambda>e. True) ^^ 1) demo_joining t" by (auto simp: life_run_def eq_OO)
  moreover have "(life_run demo_life (\<lambda>e. True))\<^sup>*\<^sup>* (spawn []) demo_joining"
    by (rule rtranclp_trans [OF demo_runs(1) demo_joining_run])
  moreover have "lf_main demo_joining = JoinReader" by (simp add: demo_joining_def)
  moreover have "sends_return demo_life" by (simp add: sends_return_def demo_life_def)
  ultimately have "if \<exists>u. life_run demo_life (\<lambda>e. True) t u then (1 :: nat) < 6 else 1 \<le> (6 :: nat) \<and> lf_main t = MainDone"
    using shutdown_terminates [OF demo_laws] by blast
  with t show ?thesis by auto
qed

end
