(* ===== verification/Parse_Quote.thy ===== *)
theory Parse_Quote
  imports Scanner
begin

text \<open>
  \<^verbatim>\<open>crates/cedro-protocol/src/parser/sqt.rs\<close>: quote frames
  \<open>T:<ticker>:<HHMMSS>:<idx>:<val>:...\<close>. \<open>field_type\<close> is the table of wire types by quote index; the
  \<open>loop\<close> over index and value pairs is \<open>sqt_loop\<close>, whose termination follows from the scanner's
  tokens. The last section reads the parser as a function of the fields.
\<close>

section \<open>The table of wire types\<close>

datatype FieldType =
    FT_Float | FT_Int | FT_Time | FT_TimeMs | FT_Date | FT_DateTime | FT_Char | FT_Phase | FT_Str

definition field_type :: "u16 \<Rightarrow> FieldType" where
  "field_type idx =
     (if idx \<in> {0, 5, 15, 16, 58, 59} then FT_Time
      else if 142 \<le> idx \<and> idx \<le> 145 then FT_TimeMs
      else if idx \<in> {1, 54, 64, 87, 129, 141, 154, 208} then FT_Date
      else if idx \<in> {50, 51, 125} then FT_DateTime
      else if idx \<in> {6, 7, 8, 9, 19, 20, 44, 45, 46, 49, 57, 60, 61, 62, 63, 65, 67, 84,
                      100, 101, 102, 110, 111, 113, 114, 115, 118, 119, 130, 136, 137, 138,
                      203, 205, 209, 213} then FT_Int
      else if idx = 88 then FT_Phase
      else if idx \<in> {56, 72, 74, 106} then FT_Char
      else if idx \<in> {47, 48, 52, 53, 66, 81, 96, 105, 109, 116, 117, 122, 126, 139, 204, 206,
                      207, 214, 215} then FT_Str
      else FT_Float)"

section \<open>The parser\<close>

definition decode_value :: "u16 \<Rightarrow> bytes \<Rightarrow> ParseError + QuoteFieldValue" where
  "decode_value idx raw =
     (case field_type idx of
        FT_Float \<Rightarrow> bind_res (parse_f64 raw ''quote float'') (\<lambda>v. Inr (QV_Float v))
      | FT_Int \<Rightarrow> bind_res (parse_i64 raw ''quote int'') (\<lambda>v. Inr (QV_Int v))
      | FT_Time \<Rightarrow> bind_res (parse_u32 raw ''quote time'') (\<lambda>v. Inr (QV_Time v))
      | FT_TimeMs \<Rightarrow>
          bind_res (parse_u64 raw ''quote time-ms'')
            (\<lambda>n. if unat n < 2 ^ 32 then Inr (QV_Time (ucast n))
                 else Inl (PE_BadInteger ''quote time-ms''))
      | FT_Date \<Rightarrow> bind_res (parse_u32 raw ''quote date'') (\<lambda>v. Inr (QV_Date v))
      | FT_DateTime \<Rightarrow> bind_res (parse_u64 raw ''quote datetime'') (\<lambda>v. Inr (QV_DateTime v))
      | FT_Char \<Rightarrow>
          (case raw of [c] \<Rightarrow> Inr (QV_Char c)
           | _ \<Rightarrow> Inl (PE_InvalidField ''quote char'' ''expected exactly one byte''))
      | FT_Phase \<Rightarrow> (let (a, b) = two_bytes raw in Inr (QV_Phase a b))
      | FT_Str \<Rightarrow> Inr (QV_Str raw))"

function sqt_loop :: "QuoteDiff \<Rightarrow> Scanner \<Rightarrow> ParseError + QuoteDiff \<times> Scanner" where
  "sqt_loop diff s =
     (case scan_next s of
        (None, s1) \<Rightarrow> Inr (diff, s1)
      | (Some idx_field, s1) \<Rightarrow>
          if idx_field = [] then Inr (diff, s1)
          else (case parse_u16 idx_field ''quote index'' of
              Inl e \<Rightarrow> Inl e
            | Inr idx_num \<Rightarrow>
                (case required ''quote value'' s1 of
                   Inl e \<Rightarrow> Inl e
                 | Inr (value_bytes, s2) \<Rightarrow>
                     (case decode_value idx_num value_bytes of
                        Inl e \<Rightarrow> Inl e
                      | Inr value \<Rightarrow> sqt_loop (diff @ [(QuoteFieldId idx_num, value)]) s2))))"
  by pat_completeness auto
termination
proof (relation "measure (\<lambda>(d, s). length (scan_tokens s))", goal_cases)
  case 1
  then show ?case by simp
next
  case 2
  then show ?case
    by (auto simp: scan_next_tokens required_tokens split: list.splits)
qed

declare sqt_loop.simps [simp del]

definition sqt_parse :: "bytes \<Rightarrow> ParseError + ProtocolMessage" where
  "sqt_parse frame = sc_run
     (sc_bind (required ''T header'') (\<lambda>header.
      sc_bind (required ''ticker'') (\<lambda>ticker.
      sc_bind (required ''HHMMSS'') (\<lambda>time_bytes.
      sc_bind (sc_lift (parse_u32 time_bytes ''HHMMSS'')) (\<lambda>time_hhmmss.
      sc_bind (sqt_loop []) (\<lambda>diff.
      sc_return (PM_Quote ticker time_hhmmss diff))))))) frame"

section \<open>The parser as a function of the fields\<close>

text \<open>The diff of a list of index and value fields; \<open>k\<close> counts the fields before them. An empty
  index field ends the list, whatever follows it.\<close>

fun diff_of :: "nat \<Rightarrow> bytes list \<Rightarrow> ParseError + QuoteDiff" where
  "diff_of k [] = Inr []"
| "diff_of k (i # ts) =
     (if i = [] then Inr []
      else bind_res (parse_u16 i ''quote index'') (\<lambda>idx.
        case ts of
          [] \<Rightarrow> Inl (PE_MissingField (k + 2) ''quote value'')
        | v # us \<Rightarrow>
            bind_res (decode_value idx v) (\<lambda>x.
            bind_res (diff_of (k + 2) us) (\<lambda>d. Inr ((QuoteFieldId idx, x) # d)))))"

text \<open>One turn of the loop, on the tokens left.\<close>

lemma sqt_loop_turn:
  "bind_res (sqt_loop diff s) (\<lambda>(d, _). Inr d) =
     (case scan_tokens s of
        [] \<Rightarrow> Inr diff
      | i # ts \<Rightarrow>
          if i = [] then Inr diff
          else bind_res (parse_u16 i ''quote index'') (\<lambda>idx.
            case ts of
              [] \<Rightarrow> Inl (PE_MissingField (sc_field_index s + 2) ''quote value'')
            | v # us \<Rightarrow> bind_res (decode_value idx v) (\<lambda>x.
                bind_res (sqt_loop (diff @ [(QuoteFieldId idx, x)]) (scan_adv (scan_adv s))) (\<lambda>(d, _). Inr d))))"
  by (subst sqt_loop.simps, cases "scan_tokens s"; cases "tl (scan_tokens s)")
     (auto simp: scan_next_tokens required_tokens bind_res_def split: sum.split)

lemma sqt_loop_tokens:
  "bind_res (sqt_loop diff s) (\<lambda>(d, _). Inr d) =
     bind_res (diff_of (sc_field_index s) (scan_tokens s)) (\<lambda>d. Inr (diff @ d))"
proof (induction "length (scan_tokens s)" arbitrary: diff s rule: less_induct)
  case less
  have "bind_res (sqt_loop d (scan_adv (scan_adv s))) (\<lambda>(d, _). Inr d) =
      bind_res (diff_of (sc_field_index s + 2) us) (\<lambda>e. Inr (d @ e))"
    if "scan_tokens s = i # v # us" for i v us d
    using less [of "scan_adv (scan_adv s)" d] that by simp
  then show ?case
    by (subst sqt_loop_turn, cases "scan_tokens s"; cases "tl (scan_tokens s)")
       (auto simp: bind_res_def split: sum.split)
qed

lemma sqt_parse_fields:
  assumes "split_on (CHR '':'') frame = hdr # ticker # time # ts"
  shows "sqt_parse frame =
           bind_res (parse_u32 time ''HHMMSS'') (\<lambda>t.
           bind_res (diff_of 3 ts) (\<lambda>d. Inr (PM_Quote ticker t d)))"
proof (cases "parse_u32 time ''HHMMSS''")
  case (Inl e)
  with assms show ?thesis
    by (simp add: sqt_parse_def sc_run_eq sc_bind_def required_tokens)
next
  case (Inr t)
  let ?s = "scan_adv (scan_adv (scan_adv (Scanner_new frame)))"
  have s: "bind_res (sqt_loop [] ?s) (\<lambda>(d, _). Inr d) = diff_of 3 ts"
    using sqt_loop_tokens [of "[]" ?s] assms
    by (cases "diff_of 3 ts") (simp_all add: numeral_3_eq_3)
  from Inr assms have "sqt_parse frame =
      bind_res (sqt_loop [] ?s) (\<lambda>(d, _). Inr (PM_Quote ticker t d))"
    by (simp add: sqt_parse_def sc_run_eq sc_bind_def required_tokens bind_res_def
        split: sum.splits)
  also have "\<dots> = bind_res (diff_of 3 ts) (\<lambda>d. Inr (PM_Quote ticker t d))"
    by (subst s [symmetric]) (auto simp: bind_res_def split: sum.splits)
  finally show ?thesis using Inr by simp
qed

section \<open>The documented table\<close>

text \<open>The type column of the table of quote indices in \<^verbatim>\<open>api.md\<close> (4.1.1), the phase codes of 4.1.6 apart. It is
  written down here independently of \<open>field_type\<close>, which is said to mirror it. Indices the table does not
  list have no documented type.\<close>

datatype documented_type =
    Doc_Float | Doc_Integer | Doc_HHMMSS | Doc_HHMMSSmmm | Doc_YYYYMMDD | Doc_YYYYMM | Doc_YYYYMMDDHHMMSS
  | Doc_Char | Doc_String | Doc_Phase

definition documented_rows :: "(documented_type \<times> nat list) list" where
  "documented_rows =
     [(Doc_HHMMSS, [0, 5, 15, 16, 58, 59]),
      (Doc_HHMMSSmmm, [142, 143, 144, 145]),
      (Doc_YYYYMMDD, [1, 54, 64, 87, 129, 154, 208]),
      (Doc_YYYYMM, [120]),
      (Doc_YYYYMMDDHHMMSS, [50, 51, 125]),
      (Doc_Integer, [6, 7, 8, 9, 19, 20, 44, 45, 46, 49, 57, 60, 61, 62, 63, 65, 67, 83, 84, 100, 101, 102, 110, 111,
         113, 114, 115, 118, 119, 124, 130, 136, 137, 138, 203, 205, 209, 213]),
      (Doc_Char, [56, 72, 74]),
      (Doc_Phase, [88]),
      (Doc_String, [47, 48, 52, 53, 66, 81, 96, 105, 106, 109, 116, 117, 122, 126, 139, 141, 204, 206, 207, 214, 215]),
      (Doc_Float, [2, 3, 4, 10, 11, 12, 13, 14, 17, 18, 21, 36, 37, 38, 39, 40, 41, 42, 43, 82, 85, 86, 89, 90, 94, 95,
         97, 98, 99, 103, 104, 107, 108, 112, 121, 123, 127, 128, 134, 135, 140, 146, 147, 148, 149, 150, 151, 152,
         153, 155, 156, 157, 158, 159, 160, 200, 201, 202, 210, 211, 212])]"

definition documented_type :: "u16 \<Rightarrow> documented_type option" where
  "documented_type i = map_option fst (List.find (\<lambda>(t, is). unat i \<in> set is) documented_rows)"

text \<open>The wire type that stands for a documented one.\<close>

fun wire_type_of :: "documented_type \<Rightarrow> FieldType option" where
  "wire_type_of Doc_Float = Some FT_Float"
| "wire_type_of Doc_Integer = Some FT_Int"
| "wire_type_of Doc_HHMMSS = Some FT_Time"
| "wire_type_of Doc_HHMMSSmmm = Some FT_TimeMs"
| "wire_type_of Doc_YYYYMMDD = Some FT_Date"
| "wire_type_of Doc_YYYYMM = None"
| "wire_type_of Doc_YYYYMMDDHHMMSS = Some FT_DateTime"
| "wire_type_of Doc_Char = Some FT_Char"
| "wire_type_of Doc_String = Some FT_Str"
| "wire_type_of Doc_Phase = Some FT_Phase"

text \<open>The indices on which the code and the table disagree.\<close>

definition misread_indices :: "u16 set" where
  "misread_indices = {83, 106, 120, 124, 141}"

lemma documented_rows_exact:
  "\<forall>(t, is) \<in> set documented_rows. \<forall>n \<in> set is. n < 216 \<and>
     (n \<in> {83, 106, 120, 124, 141} \<or> wire_type_of t = Some (field_type (word_of_nat n)))"
  by (simp add: documented_rows_def field_type_def word_le_nat_alt)

lemma field_type_documented:
  assumes "documented_type i = Some t" and "i \<notin> misread_indices"
  shows "wire_type_of t = Some (field_type i)"
proof -
  from assms(1) obtain "is" where row: "(t, is) \<in> set documented_rows" "unat i \<in> set is"
    by (auto simp: documented_type_def dest: find_SomeD)
  with documented_rows_exact have "unat i \<in> {83, 106, 120, 124, 141} \<or> wire_type_of t = Some (field_type (word_of_nat (unat i)))"
    by fastforce
  moreover have "unat i \<notin> {83, 106, 120, 124, 141}"
    using assms(2) by (simp add: misread_indices_def word_unat_eq_iff)
  ultimately show ?thesis by simp
qed

section \<open>The wire form of a quote\<close>

text \<open>The text of a value: a decimal or an integer with its sign, the digits of a time or a date, or plain text; and what
  such a text means in a field of a documented type.\<close>

datatype wire_value = WV_Decimal bool bytes bytes | WV_Integer bool bytes | WV_Digits bytes | WV_Text bytes

fun value_text :: "wire_value \<Rightarrow> bytes" where
  "value_text (WV_Decimal neg ip fp) = (if neg then ''-'' else []) @ ip @ (if fp = [] then [] else CHR ''.'' # fp)"
| "value_text (WV_Integer neg ds) = (if neg then ''-'' else []) @ ds"
| "value_text (WV_Digits ds) = ds"
| "value_text (WV_Text s) = s"

definition digit_string :: "bytes \<Rightarrow> bool" where
  "digit_string ds \<longleftrightarrow> ds \<noteq> [] \<and> list_all is_digit ds"

fun documented_meaning :: "documented_type \<Rightarrow> wire_value \<Rightarrow> QuoteFieldValue option" where
  "documented_meaning Doc_Float (WV_Decimal neg ip fp) =
     (if digit_string ip \<and> list_all is_digit fp
      then Some (QV_Float (f64_of_decimal neg (dec_value (ip @ fp)) (- int (length fp)))) else None)"
| "documented_meaning Doc_Integer (WV_Integer neg ds) =
     (if digit_string ds \<and> dec_value ds < 2 ^ 63
      then Some (QV_Int (if neg then - word_of_nat (dec_value ds) else word_of_nat (dec_value ds))) else None)"
| "documented_meaning Doc_HHMMSS (WV_Digits ds) =
     (if digit_string ds \<and> dec_value ds < 2 ^ 32 then Some (QV_Time (word_of_nat (dec_value ds))) else None)"
| "documented_meaning Doc_HHMMSSmmm (WV_Digits ds) =
     (if digit_string ds \<and> dec_value ds < 2 ^ 32 then Some (QV_Time (word_of_nat (dec_value ds))) else None)"
| "documented_meaning Doc_YYYYMMDD (WV_Digits ds) =
     (if digit_string ds \<and> dec_value ds < 2 ^ 32 then Some (QV_Date (word_of_nat (dec_value ds))) else None)"
| "documented_meaning Doc_YYYYMMDDHHMMSS (WV_Digits ds) =
     (if digit_string ds \<and> dec_value ds < 2 ^ 64 then Some (QV_DateTime (word_of_nat (dec_value ds))) else None)"
| "documented_meaning Doc_Char (WV_Text [c]) = Some (QV_Char c)"
| "documented_meaning Doc_Phase (WV_Text [a]) = Some (QV_Phase a (char_of (0 :: nat)))"
| "documented_meaning Doc_Phase (WV_Text [a, b]) = Some (QV_Phase a b)"
| "documented_meaning Doc_String (WV_Text s) = Some (QV_Str s)"
| "documented_meaning _ _ = None"

definition documented_value :: "u16 \<Rightarrow> wire_value \<Rightarrow> QuoteFieldValue option" where
  "documented_value i w = Option.bind (documented_type i) (\<lambda>t. documented_meaning t w)"

text \<open>The decoders read what the table means.\<close>

lemma takeWhile_digits:
  "list_all is_digit ds \<Longrightarrow> takeWhile is_digit (ds @ xs) = ds @ takeWhile is_digit xs"
  "list_all is_digit ds \<Longrightarrow> dropWhile is_digit (ds @ xs) = dropWhile is_digit xs"
  by (induction ds) simp_all

lemma parse_number_decimal:
  assumes "digit_string ip" and "list_all is_digit fp"
  shows "parse_number (ip @ (if fp = [] then [] else CHR ''.'' # fp)) = Some (dec_value (ip @ fp), - int (length fp))"
proof -
  have dot: "\<not> is_digit (CHR ''.'')" by (simp add: is_digit_def byte_in_def)
  have fp: "takeWhile is_digit fp = fp" "dropWhile is_digit fp = []" "takeWhile is_digit ip = ip" "dropWhile is_digit ip = []"
    using takeWhile_digits [OF assms(2), of "[]"] takeWhile_digits [of ip "[]"] assms(1) by (simp_all add: digit_string_def)
  show ?thesis
    using assms dot takeWhile_digits [of ip "CHR ''.'' # fp"]
    by (auto simp: parse_number_def digit_string_def Let_def fp)
qed

lemma digits_ascii: "list_all is_digit ds \<Longrightarrow> is_ascii ds"
  by (auto simp: list_all_iff is_digit_def is_ascii_def byte_in_def)

lemma parse_f64_decimal:
  assumes "digit_string ip" and "list_all is_digit fp"
  shows "parse_f64 (value_text (WV_Decimal neg ip fp)) field =
    Inr (f64_of_decimal neg (dec_value (ip @ fp)) (- int (length fp)))"
proof -
  let ?body = "ip @ (if fp = [] then [] else CHR ''.'' # fp)"
  have "is_ascii (value_text (WV_Decimal neg ip fp))"
    using digits_ascii [of ip] digits_ascii [of fp] assms by (auto simp: digit_string_def is_ascii_def byte_in_def)
  then have "utf8_valid (value_text (WV_Decimal neg ip fp))" by (rule utf8_valid_ascii)
  moreover obtain c r where c: "ip = c # r" "is_digit c" using assms(1) by (cases ip) (auto simp: digit_string_def)
  then have "c \<noteq> CHR ''-''" "c \<noteq> CHR ''+''" by (auto simp: is_digit_def byte_in_def)
  ultimately show ?thesis
    using parse_number_decimal [OF assms] c by (auto simp: parse_f64_def f64_from_str_def Let_def)
qed

lemma parse_i64_integer:
  assumes "digit_string ds" and "dec_value ds < 2 ^ 63"
  shows "parse_i64 (value_text (WV_Integer neg ds)) field =
    Inr (if neg then - word_of_nat (dec_value ds) else word_of_nat (dec_value ds))"
proof -
  have "hd ds \<noteq> CHR ''-''" using assms(1) by (cases ds) (auto simp: digit_string_def is_digit_def byte_in_def)
  with assms show ?thesis by (simp add: parse_i64_eq digit_string_def)
qed

lemma parse_unsigned_digits:
  assumes "digit_string ds"
  shows "dec_value ds < 2 ^ 32 \<Longrightarrow> parse_u32 ds field = Inr (word_of_nat (dec_value ds))"
    and "dec_value ds < 2 ^ 64 \<Longrightarrow> parse_u64 ds field = Inr (word_of_nat (dec_value ds))"
  using assms by (simp_all add: parse_u32_eq parse_u64_eq digit_string_def)

lemma u64_small:
  assumes "n < 2 ^ 32"
  shows "unat (word_of_nat n :: u64) = n" and "ucast (word_of_nat n :: u64) = (word_of_nat n :: u32)"
proof -
  show "unat (word_of_nat n :: u64) = n" using assms by (simp add: unat_of_nat)
  then show "ucast (word_of_nat n :: u64) = (word_of_nat n :: u32)" by (rule ucast_word_of_nat)
qed

lemma decode_value_documented:
  assumes "documented_value i w = Some v" and "i \<notin> misread_indices"
  shows "decode_value i (value_text w) = Inr v"
proof -
  from assms(1) obtain t where t: "documented_type i = Some t" "documented_meaning t w = Some v"
    by (auto simp: documented_value_def bind_eq_Some_conv)
  have ft: "wire_type_of t = Some (field_type i)" by (rule field_type_documented [OF t(1) assms(2)])
  from t(2) ft show ?thesis
    by (induction t w rule: documented_meaning.induct)
       (auto simp: decode_value_def parse_f64_decimal parse_i64_integer parse_unsigned_digits u64_small Let_def two_bytes_def
         simp del: value_text.simps(1,2) split: if_splits)
qed


text \<open>An update is an index and the text of its value.\<close>

definition update_fields :: "(u16 \<times> wire_value) list \<Rightarrow> bytes list" where
  "update_fields us = concat (map (\<lambda>(i, w). [show_nat (unat i), value_text w]) us)"

text \<open>Updates that agree with the table, outside the indices on which the code does not.\<close>

definition wire_updates :: "(u16 \<times> wire_value) list \<Rightarrow> bool" where
  "wire_updates us \<longleftrightarrow>
     (\<forall>(i, w) \<in> set us. documented_value i w \<noteq> None \<and> i \<notin> misread_indices \<and> CHR '':'' \<notin> set (value_text w))"

text \<open>\<open>dangling\<close> adds the separator the server sometimes leaves at the end of a frame.\<close>

definition sqt_print :: "bytes \<Rightarrow> u32 \<Rightarrow> (u16 \<times> wire_value) list \<Rightarrow> bool \<Rightarrow> bytes" where
  "sqt_print ticker time us dangling =
     join_on (CHR '':'') (''T'' # ticker # show_nat (unat time) # update_fields us @
       (if dangling then [[]] else []))"

lemma diff_of_updates:
  assumes "wire_updates us"
  shows "diff_of k (update_fields us @ tail) =
    map_sum (\<lambda>e. e) (\<lambda>d. map (\<lambda>(i, w). (QuoteFieldId i, the (documented_value i w))) us @ d) (diff_of (k + 2 * length us) tail)"
  using assms
proof (induction us arbitrary: k)
  case Nil
  then show ?case by (cases "diff_of k tail") (auto simp: update_fields_def)
next
  case (Cons u us)
  obtain i w where u: "u = (i, w)" by (cases u)
  with Cons.prems obtain v where "documented_value i w = Some v" "i \<notin> misread_indices" "wire_updates us"
    by (auto simp: wire_updates_def)
  with Cons.IH [of "k + 2"] u decode_value_documented [of i w v] show ?case
    by (cases "diff_of (k + 2 * length (u # us)) tail") (auto simp: update_fields_def)
qed

lemma sqt_print_split:
  assumes "\<forall>(i, w) \<in> set us. CHR '':'' \<notin> set (value_text w)" and "CHR '':'' \<notin> set ticker"
  shows "split_on (CHR '':'') (sqt_print ticker time us dangling) =
    ''T'' # ticker # show_nat (unat time) # update_fields us @ (if dangling then [[]] else [])"
  unfolding sqt_print_def
  by (rule split_join_on) (use assms in \<open>auto simp: update_fields_def\<close>)

lemma wire_updates_colon: "wire_updates us \<Longrightarrow> \<forall>(i, w) \<in> set us. CHR '':'' \<notin> set (value_text w)"
  by (auto simp: wire_updates_def)

section \<open>Properties\<close>

text \<open>C22. The quote parser reads the documented table: for any updates whose texts have the type \<^verbatim>\<open>api.md\<close> documents for
  their index, five indices apart, every update of the frame comes back in order, with its index and the value its
  text stands for (for prices the double nearest to the decimal), the last occurrence of a repeated index
  included; a separator dangling at the end changes nothing. The five indices are 83, 106, 120, 124 and 141, for which the code has another type than
  the table.\<close>

theorem quote_frame_roundtrip:
  assumes "wire_updates us" and "CHR '':'' \<notin> set ticker"
  shows "sqt_parse (sqt_print ticker time us dangling) =
           Inr (PM_Quote ticker time (map (\<lambda>(i, w). (QuoteFieldId i, the (documented_value i w))) us))"
  by (simp add: sqt_parse_fields [OF sqt_print_split [OF wire_updates_colon [OF assms(1)] assms(2)]]
      diff_of_updates [OF assms(1)] diff_of_updates [OF assms(1), of _ "[]", simplified])

theorem quote_frame_roundtrip_witness:
  "sqt_parse (sqt_print ''PETR4'' 101530 [(2, WV_Decimal False ''59'' ''95''), (1, WV_Digits ''20070926''),
       (138, WV_Integer True ''1''), (88, WV_Text ''PN'')] True) =
     Inr (PM_Quote ''PETR4'' 101530
       [(QuoteFieldId 2, QV_Float (f64_of_decimal False 5995 (- 2))), (QuoteFieldId 1, QV_Date 20070926),
        (QuoteFieldId 138, QV_Int (- 1)), (QuoteFieldId 88, QV_Phase (CHR ''P'') (CHR ''N''))])"
proof -
  let ?us = "[(2, WV_Decimal False ''59'' ''95''), (1, WV_Digits ''20070926''), (138, WV_Integer True ''1''), (88, WV_Text ''PN'')]"
  note table = documented_value_def documented_type_def documented_rows_def digit_string_def is_digit_def byte_in_def
    dec_value_def digit_val_def
  have "wire_updates ?us" by (simp add: wire_updates_def misread_indices_def table)
  from quote_frame_roundtrip [OF this, of "''PETR4''" 101530 True] show ?thesis by (simp add: table)
qed

text \<open>C23. A documented tick direction makes the parser reject the whole frame: index 106 is documented as a text of up to two
  characters with the values \<open>+\<close>, \<open>0+\<close>, \<open>-\<close> and \<open>0-\<close>, but the code reads one character; whatever documented
  updates stand before it and whatever follows, none of the frame's updates is delivered.\<close>

theorem tick_direction_rejected:
  assumes "wire_updates us" and "CHR '':'' \<notin> set ticker" and "\<forall>(i, w) \<in> set later. CHR '':'' \<notin> set (value_text w)"
    and "tick \<in> {''0+'', ''0-''}"
  shows "documented_value 106 (WV_Text tick) = Some (QV_Str tick) \<and>
    sqt_parse (sqt_print ticker time (us @ (106, WV_Text tick) # later) dangling) =
      Inl (PE_InvalidField ''quote char'' ''expected exactly one byte'')"
proof
  show "documented_value 106 (WV_Text tick) = Some (QV_Str tick)"
    by (simp add: documented_value_def documented_type_def documented_rows_def)
  let ?us = "us @ (106, WV_Text tick) # later"
  have split: "split_on (CHR '':'') (sqt_print ticker time ?us dangling) =
      ''T'' # ticker # show_nat (unat time) # update_fields ?us @ (if dangling then [[]] else [])"
    by (rule sqt_print_split) (use assms(2-4) wire_updates_colon [OF assms(1)] in auto)
  have "update_fields ?us = update_fields us @ show_nat 106 # tick # update_fields later"
    by (simp add: update_fields_def)
  moreover have "decode_value 106 tick = Inl (PE_InvalidField ''quote char'' ''expected exactly one byte'')"
    using assms(4) by (auto simp: decode_value_def field_type_def)
  ultimately show "sqt_parse (sqt_print ticker time ?us dangling) =
      Inl (PE_InvalidField ''quote char'' ''expected exactly one byte'')"
    by (simp add: sqt_parse_fields [OF split] diff_of_updates [OF assms(1)] parse_u16_eq)
qed

theorem tick_direction_rejected_witness:
  "sqt_parse (sqt_print ''WDOF25'' 101530 [(106, WV_Text ''0+''), (6, WV_Integer False ''5'')] False) =
     Inl (PE_InvalidField ''quote char'' ''expected exactly one byte'')"
  using tick_direction_rejected [of "[]" "''WDOF25''" "[(6, WV_Integer False ''5'')]" "''0+''" 101530 False]
  by (simp add: wire_updates_def)

end
