(* ===== verification/Parse_Book.thy ===== *)
theory Parse_Book
  imports Scanner
begin

text \<open>
  \<^verbatim>\<open>crates/cedro-protocol/src/parser/bqt.rs\<close> and \<^verbatim>\<open>parser/sab.rs\<close>: frames of the detailed book
  (\<open>B:\<close>) and of the aggregated book (\<open>Z:\<close>). The two modules have functions of the same names
  (\<open>parse\<close>, \<open>parse_side\<close>, \<open>parse_delete\<close>), which carry the module's name here.
\<close>

section \<open>Detailed book\<close>

definition bqt_parse_side :: "bytes \<Rightarrow> ParseError + Side" where
  [parser_defs]: "bqt_parse_side b =
     (case b of
        [c] \<Rightarrow> ok_or (Side_from_byte c)
                 (PE_InvalidField ''book side'' ''expected A (buy) or V (sell)'')
      | _ \<Rightarrow> Inl (PE_InvalidField ''book side'' ''expected one byte (A or V)''))"

definition read_entry_tail :: "u32 \<Rightarrow> BookEntry parser" where
  [parser_defs]: "read_entry_tail position =
     sc_bind (required ''side'') (\<lambda>side_bytes.
     sc_bind (sc_lift (bqt_parse_side side_bytes)) (\<lambda>side.
     sc_bind (required_f64 ''price'') (\<lambda>price.
     sc_bind (required_u64 ''quantity'') (\<lambda>quantity.
     sc_bind (required_u32 ''broker id'') (\<lambda>broker_id.
     sc_bind (required ''DDMMHHMM'') (\<lambda>ts_bytes.
     sc_bind (sc_lift (parse_u32 ts_bytes ''DDMMHHMM'')) (\<lambda>timestamp_ddmmhhmm.
     sc_bind sc_next (\<lambda>id_field.
     sc_bind (case id_field of
         None \<Rightarrow> sc_return (None, None)
       | Some id_bytes \<Rightarrow>
           sc_bind (required ''offer type'') (\<lambda>type_bytes.
             case type_bytes of
               [c] \<Rightarrow> sc_return (Some id_bytes, Some c)
             | _ \<Rightarrow> sc_fail (PE_InvalidField ''offer type'' ''expected one byte (L or O)'')))
       (\<lambda>(order_id, offer_type).
     sc_return
       \<lparr>be_position = position, be_side = side, be_price = price, be_quantity = quantity,
        be_broker_id = broker_id, be_timestamp_ddmmhhmm = timestamp_ddmmhhmm,
        be_order_id = order_id, be_offer_type = offer_type\<rparr>)))))))))"

definition bqt_parse_add :: "BookOp parser" where
  [parser_defs]: "bqt_parse_add =
     sc_bind (required_u32 ''position'') (\<lambda>position.
     sc_bind (read_entry_tail position) (\<lambda>entry.
     sc_return (BO_Add entry)))"

definition bqt_parse_update :: "BookOp parser" where
  [parser_defs]: "bqt_parse_update =
     sc_bind (required_u32 ''new position'') (\<lambda>new_pos.
     sc_bind (required_u32 ''old position'') (\<lambda>old_pos.
     sc_bind (read_entry_tail new_pos) (\<lambda>entry.
     sc_return (BO_Update old_pos entry))))"

definition bqt_parse_delete :: "BookOp parser" where
  [parser_defs]: "bqt_parse_delete =
     sc_bind (required ''delete kind'') (\<lambda>kind_bytes.
       if kind_bytes = ''1'' then
         sc_bind (required ''side'') (\<lambda>side_bytes.
         sc_bind (sc_lift (bqt_parse_side side_bytes)) (\<lambda>side.
         sc_bind (required_u32 ''position'') (\<lambda>position.
         sc_return (BO_Delete (BD_Single side position)))))
       else if kind_bytes = ''2'' then
         sc_bind (required ''side'') (\<lambda>side_bytes.
         sc_bind (sc_lift (bqt_parse_side side_bytes)) (\<lambda>side.
         sc_bind (required_u32 ''position'') (\<lambda>position.
         sc_return (BO_Delete (BD_PrefixInclusive side position)))))
       else if kind_bytes = ''3'' then sc_return (BO_Delete BD_ClearAll)
       else sc_fail (PE_InvalidField ''delete kind'' ''expected 1, 2 or 3''))"

definition bqt_parse :: "bytes \<Rightarrow> ParseError + ProtocolMessage" where
  [parser_defs]: "bqt_parse frame = sc_run
     (sc_bind (required ''B header'') (\<lambda>header.
      sc_bind (required ''ticker'') (\<lambda>ticker.
      sc_bind (required ''book op'') (\<lambda>op_code.
      sc_bind (if op_code = ''A'' then bqt_parse_add
               else if op_code = ''U'' then bqt_parse_update
               else if op_code = ''D'' then bqt_parse_delete
               else if op_code = ''E'' then sc_return BO_EndOfInitial
               else sc_fail (PE_InvalidField ''book op'' ''expected A, U, D, or E''))
        (\<lambda>op. sc_return (PM_Book ticker op)))))) frame"

section \<open>Aggregated book\<close>

definition sab_parse_side :: "bytes \<Rightarrow> ParseError + Side" where
  [parser_defs]: "sab_parse_side b =
     (case b of
        [c] \<Rightarrow> ok_or (Side_from_byte c)
                 (PE_InvalidField ''agg book side'' ''expected A (buy) or V (sell)'')
      | _ \<Rightarrow> Inl (PE_InvalidField ''agg book side'' ''expected one byte (A or V)''))"

definition read_level :: "AggBookLevel parser" where
  [parser_defs]: "read_level =
     sc_bind (required_u32 ''position'') (\<lambda>position.
     sc_bind (required ''side'') (\<lambda>side_bytes.
     sc_bind (sc_lift (sab_parse_side side_bytes)) (\<lambda>side.
     sc_bind (required_f64 ''price'') (\<lambda>price.
     sc_bind (required_u64 ''quantity'') (\<lambda>quantity.
     sc_bind (required_u32 ''offer count'') (\<lambda>offer_count.
     sc_bind (required ''DDMMHHMM'') (\<lambda>ts_bytes.
     sc_bind (sc_lift (parse_u32 ts_bytes ''DDMMHHMM'')) (\<lambda>timestamp_ddmmhhmm.
     sc_return
       \<lparr>al_position = position, al_side = side, al_price = price, al_quantity = quantity,
        al_offer_count = offer_count, al_timestamp_ddmmhhmm = timestamp_ddmmhhmm\<rparr>))))))))"

definition sab_parse_delete :: "BookDelete parser" where
  [parser_defs]: "sab_parse_delete =
     sc_bind (required ''delete kind'') (\<lambda>kind_bytes.
       if kind_bytes = ''1'' then
         sc_bind (required ''side'') (\<lambda>side_bytes.
         sc_bind (sc_lift (sab_parse_side side_bytes)) (\<lambda>side.
         sc_bind (required_u32 ''position'') (\<lambda>position.
         sc_return (BD_Single side position))))
       else if kind_bytes = ''3'' then sc_return BD_ClearAll
       else if kind_bytes = ''2'' then
         sc_fail (PE_InvalidField ''delete kind'' ''SAB does not accept delete kind 2 (BQT-only)'')
       else sc_fail (PE_InvalidField ''delete kind'' ''expected 1 or 3''))"

definition sab_parse :: "bytes \<Rightarrow> ParseError + ProtocolMessage" where
  [parser_defs]: "sab_parse frame = sc_run
     (sc_bind (required ''Z header'') (\<lambda>header.
      sc_bind (required ''ticker'') (\<lambda>ticker.
      sc_bind (required ''agg book op'') (\<lambda>op_code.
      sc_bind (if op_code = ''A'' then sc_bind read_level (\<lambda>l. sc_return (AB_Add l))
               else if op_code = ''U'' then sc_bind read_level (\<lambda>l. sc_return (AB_Update l))
               else if op_code = ''D'' then sc_bind sab_parse_delete (\<lambda>d. sc_return (AB_Delete d))
               else if op_code = ''E'' then sc_return AB_EndOfInitial
               else sc_fail (PE_InvalidField ''agg book op'' ''expected A, U, D, or E''))
        (\<lambda>op. sc_return (PM_AggBook ticker op)))))) frame"

section \<open>Frames printed by the server\<close>

text \<open>The wire form of a book operation after the ticker (the layout table at the head of
  \<^verbatim>\<open>bqt.rs\<close>), for a price text \<open>p\<close> chosen by the server.\<close>

definition entry_fields :: "BookEntry \<Rightarrow> bytes \<Rightarrow> bytes list" where
  "entry_fields e p =
     [[Side_as_byte (be_side e)], p, show_nat (unat (be_quantity e)),
      show_nat (unat (be_broker_id e)), show_nat (unat (be_timestamp_ddmmhhmm e))] @
     (case (be_order_id e, be_offer_type e) of (Some i, Some t) \<Rightarrow> [i, [t]] | _ \<Rightarrow> [])"

fun op_fields :: "BookOp \<Rightarrow> bytes \<Rightarrow> bytes list" where
  "op_fields (BO_Add e) p = ''A'' # show_nat (unat (be_position e)) # entry_fields e p"
| "op_fields (BO_Update old e) p =
     ''U'' # show_nat (unat (be_position e)) # show_nat (unat old) # entry_fields e p"
| "op_fields (BO_Delete (BD_Single sd pos)) p = [''D'', ''1'', [Side_as_byte sd], show_nat (unat pos)]"
| "op_fields (BO_Delete (BD_PrefixInclusive sd pos)) p =
     [''D'', ''2'', [Side_as_byte sd], show_nat (unat pos)]"
| "op_fields (BO_Delete BD_ClearAll) p = [''D'', ''3'']"
| "op_fields BO_EndOfInitial p = [''E'']"

definition bqt_print :: "bytes \<Rightarrow> BookOp \<Rightarrow> bytes \<Rightarrow> bytes" where
  "bqt_print ticker op p = join_on (CHR '':'') (''B'' # ticker # op_fields op p)"

text \<open>What an operation must satisfy to have a wire form: the two optional fields come together,
  an order id holds no separator, and the price text reads as the entry's price.\<close>

definition wire_entry :: "BookEntry \<Rightarrow> bytes \<Rightarrow> bool" where
  "wire_entry e p \<longleftrightarrow> parse_f64 p ''price'' = Inr (be_price e) \<and> CHR '':'' \<notin> set p \<and>
     (be_order_id e = None \<longleftrightarrow> be_offer_type e = None) \<and>
     (\<forall>i. be_order_id e = Some i \<longrightarrow> CHR '':'' \<notin> set i) \<and> be_offer_type e \<noteq> Some (CHR '':'')"

fun wire_op :: "BookOp \<Rightarrow> bytes \<Rightarrow> bool" where
  "wire_op (BO_Add e) p = wire_entry e p"
| "wire_op (BO_Update old e) p = wire_entry e p"
| "wire_op _ p = True"

lemma bqt_parse_side_byte [simp]: "bqt_parse_side [Side_as_byte s] = Inr s"
  by (simp add: bqt_parse_side_def)

lemma side_byte_not_colon [simp]: "Side_as_byte s \<noteq> CHR '':''" "CHR '':'' \<noteq> Side_as_byte s"
  by (cases s; simp)+

lemma read_entry_tail_fields:
  assumes "wire_entry e p" and "scan_tokens s = entry_fields e p" and "be_position e = pos"
  shows "\<exists>t. read_entry_tail pos s = Inr (e, t)"
  using assms
  by (cases "be_order_id e"; cases "be_offer_type e")
     (auto simp: wire_entry_def entry_fields_def read_entry_tail_def scan_eval)

lemma bqt_parse_split:
  assumes "split_on (CHR '':'') frame = h # ticker # op_code # ts"
  obtains s where "scan_tokens s = ts" and
    "bqt_parse frame =
     (case (if op_code = ''A'' then bqt_parse_add
            else if op_code = ''U'' then bqt_parse_update
            else if op_code = ''D'' then bqt_parse_delete
            else if op_code = ''E'' then sc_return BO_EndOfInitial
            else sc_fail (PE_InvalidField ''book op'' ''expected A, U, D, or E'')) s of
        Inl e \<Rightarrow> Inl e | Inr (op, _) \<Rightarrow> Inr (PM_Book ticker op))"
proof (rule that)
  show "scan_tokens (scan_adv (scan_adv (scan_adv (Scanner_new frame)))) = ts"
    using assms by simp
qed (use assms in \<open>simp add: bqt_parse_def sc_run_eq scan_eval bind_res_def split: sum.splits\<close>)

lemma op_fields_no_colon:
  "wire_op op p \<Longrightarrow> t \<in> set (op_fields op p) \<Longrightarrow> CHR '':'' \<notin> set t"
  by (cases "(op, p)" rule: op_fields.cases)
     (auto simp: wire_entry_def entry_fields_def split: option.splits)

lemma bqt_print_split:
  assumes "wire_op op p" and "CHR '':'' \<notin> set ticker"
  shows "split_on (CHR '':'') (bqt_print ticker op p) = ''B'' # ticker # op_fields op p"
  unfolding bqt_print_def
  by (rule split_join_on) (use assms op_fields_no_colon in auto)

lemma op_fields_nonempty: "op_fields op p = hd (op_fields op p) # tl (op_fields op p)"
  by (cases "(op, p)" rule: op_fields.cases) simp_all

lemma bqt_parse_print:
  assumes w: "wire_op op p" and t: "CHR '':'' \<notin> set ticker"
  shows "bqt_parse (bqt_print ticker op p) = Inr (PM_Book ticker op)"
proof -
  let ?f = "bqt_print ticker op p"
  have "split_on (CHR '':'') ?f = ''B'' # ticker # hd (op_fields op p) # tl (op_fields op p)"
    using bqt_print_split [OF w t] op_fields_nonempty [of op p] by simp
  then obtain s where tk: "scan_tokens s = tl (op_fields op p)" and
    eq: "bqt_parse ?f =
     (case (if hd (op_fields op p) = ''A'' then bqt_parse_add
            else if hd (op_fields op p) = ''U'' then bqt_parse_update
            else if hd (op_fields op p) = ''D'' then bqt_parse_delete
            else if hd (op_fields op p) = ''E'' then sc_return BO_EndOfInitial
            else sc_fail (PE_InvalidField ''book op'' ''expected A, U, D, or E'')) s of
        Inl e \<Rightarrow> Inl e | Inr (op, _) \<Rightarrow> Inr (PM_Book ticker op))"
    by (rule bqt_parse_split)
  show ?thesis
  proof (cases "(op, p)" rule: op_fields.cases)
    case (1 e q)
    have "scan_tokens (scan_adv s) = entry_fields e p" using tk 1 by simp
    with w 1 read_entry_tail_fields [of e p "scan_adv s"] obtain u where
      "read_entry_tail (be_position e) (scan_adv s) = Inr (e, u)" by auto
    with 1 tk eq show ?thesis
      by (simp add: bqt_parse_add_def scan_eval)
  next
    case (2 old e q)
    have "scan_tokens (scan_adv (scan_adv s)) = entry_fields e p" using tk 2 by simp
    with w 2 read_entry_tail_fields [of e p "scan_adv (scan_adv s)"] obtain u where
      "read_entry_tail (be_position e) (scan_adv (scan_adv s)) = Inr (e, u)" by auto
    with 2 tk eq show ?thesis
      by (simp add: bqt_parse_update_def scan_eval)
  qed (use tk eq in \<open>simp_all add: bqt_parse_delete_def scan_eval\<close>)
qed

text \<open>The aggregated book has no prefix delete.\<close>

lemma sab_parse_delete_kinds:
  "sab_parse_delete s = Inr (d, t) \<Longrightarrow> d = BD_ClearAll \<or> (\<exists>sd pos. d = BD_Single sd pos)"
  by (auto simp: sab_parse_delete_def sc_bind_Inr_iff split: if_splits)

section \<open>Properties\<close>

text \<open>C19. The detailed-book parser inverts the wire format: for every operation that has a wire
  form (add and update with or without the order id and offer type, the three kinds of delete,
  end of the initial book) and every ticker without a separator, parsing the printed frame gives
  back the ticker and the operation, every field included.\<close>

theorem book_frame_roundtrip:
  assumes "wire_op op p" and "CHR '':'' \<notin> set ticker"
  shows "bqt_parse (bqt_print ticker op p) = Inr (PM_Book ticker op)"
  using assms by (rule bqt_parse_print)

theorem book_frame_roundtrip_witness:
  "bqt_parse (bqt_print ''PETR4'' (BO_Update 3 \<lparr>be_position = 2, be_side = Sell, be_price = 0x404DF9999999999A, be_quantity = 100,
       be_broker_id = 8, be_timestamp_ddmmhhmm = 8031015, be_order_id = Some ''71234'', be_offer_type = Some (CHR ''L'')\<rparr>) ''59.95'') =
     Inr (PM_Book ''PETR4'' (BO_Update 3 \<lparr>be_position = 2, be_side = Sell, be_price = 0x404DF9999999999A, be_quantity = 100,
       be_broker_id = 8, be_timestamp_ddmmhhmm = 8031015, be_order_id = Some ''71234'', be_offer_type = Some (CHR ''L'')\<rparr>))"
proof (rule book_frame_roundtrip)
  have "parse_f64 ''59.95'' ''price'' = Inr 0x404DF9999999999A"
    by (simp add: parse_f64_def utf8_valid_ascii is_ascii_def byte_in_def f64_examples)
  then show "wire_op (BO_Update 3 \<lparr>be_position = 2, be_side = Sell, be_price = 0x404DF9999999999A, be_quantity = 100,
       be_broker_id = 8, be_timestamp_ddmmhhmm = 8031015, be_order_id = Some ''71234'', be_offer_type = Some (CHR ''L'')\<rparr>) ''59.95''"
    by (simp add: wire_entry_def)
qed simp

end
