(* ===== verification/Parse_Trade.thy ===== *)
theory Parse_Trade
  imports Scanner
begin

text \<open>
  \<^verbatim>\<open>crates/cedro-protocol/src/parser/gqt.rs\<close>: trade frames (\<open>V:\<close>). The \<open>while let\<close> loop that
  collects the fields of an add, with its \<open>break\<close> on an empty token after the ninth field, is
  \<open>collect_fields\<close>; the last sections state the wire form of a trade, that the parser inverts it,
  and what it makes of a snapshot trade whose last field is empty.
\<close>

section \<open>The parser\<close>

definition single_byte :: "bytes \<Rightarrow> string \<Rightarrow> ParseError + u8" where
  "single_byte b field =
     (case b of [c] \<Rightarrow> Inr c | _ \<Rightarrow> Inl (PE_InvalidField field ''expected exactly one byte''))"

function collect_fields :: "bytes list \<Rightarrow> Scanner \<Rightarrow> bytes list \<times> Scanner" where
  "collect_fields flds s =
     (case scan_next s of
        (None, t) \<Rightarrow> (flds, t)
      | (Some token, t) \<Rightarrow>
          if token = [] \<and> 9 \<le> length flds then (flds, t)
          else collect_fields (flds @ [token]) t)"
  by pat_completeness auto
termination
  by (relation "measure (\<lambda>(f, s). length (scan_tokens s))") (auto dest: scan_next_fewer [OF sym])

declare collect_fields.simps [simp del]

definition trade_of_fields :: "u8 \<Rightarrow> bytes option \<Rightarrow> bytes list \<Rightarrow> ParseError + TradeOperation" where
  "trade_of_fields op_byte request_id flds =
     bind_res (parse_u32 (flds ! 0) ''trade time'') (\<lambda>time_hhmmss.
     bind_res (parse_f64 (flds ! 1) ''trade price'') (\<lambda>price.
     bind_res (parse_u32 (flds ! 2) ''trade broker buy'') (\<lambda>broker_buy_id.
     bind_res (parse_u32 (flds ! 3) ''trade broker sell'') (\<lambda>broker_sell_id.
     bind_res (parse_u64 (flds ! 4) ''trade quantity'') (\<lambda>quantity.
     bind_res (parse_u16 (flds ! 6) ''trade condition'') (\<lambda>condition_code.
     bind_res (single_byte (flds ! 7) ''trade aggressor'') (\<lambda>aggressor_byte.
     Inr (TO_Add
       \<lparr>tr_operation_code = op_byte, tr_time_hhmmss = time_hhmmss, tr_price = price,
        tr_broker_buy_id = broker_buy_id, tr_broker_sell_id = broker_sell_id,
        tr_quantity = quantity, tr_trade_id = flds ! 5, tr_request_id = request_id,
        tr_condition = TradeCondition_from_code condition_code,
        tr_aggressor = TradeAggressor_from_byte aggressor_byte,
        tr_original_conditions = flds ! 8\<rparr>))))))))"

text \<open>Every access \<open>fields[i]\<close> is in range: the count is 9 after the request id is taken out.\<close>

definition gqt_parse_add :: "u8 \<Rightarrow> TradeOperation parser" where
  [parser_defs]: "gqt_parse_add op_byte s =
     (case collect_fields [] s of
        (flds, t) \<Rightarrow>
          if length flds = 9 then sc_lift (trade_of_fields op_byte None flds) t
          else if length flds = 10 then
            sc_lift (trade_of_fields op_byte (Some (flds ! 6)) (remove_at 6 flds)) t
          else Inl (PE_InvalidField ''trade fields''
                 ''expected 9 (subscribe) or 10 (snapshot) fields after A''))"

definition gqt_parse :: "bytes \<Rightarrow> ParseError + ProtocolMessage" where
  [parser_defs]: "gqt_parse frame = sc_run
     (sc_bind (required ''V header'') (\<lambda>header.
      sc_bind (required ''ticker'') (\<lambda>ticker.
      sc_bind (required ''trade op'') (\<lambda>op_field.
      sc_bind (if op_field = ''A'' then gqt_parse_add (op_field ! 0)
               else if op_field = ''D'' then
                 sc_bind (required ''trade id'') (\<lambda>trade_id. sc_return (TO_Delete trade_id))
               else if op_field = ''R'' then sc_return TO_RemoveAll
               else if op_field = ''E'' then
                 sc_bind sc_next (\<lambda>r. case r of
                     None \<Rightarrow> sc_return TO_EndOfSubscribe
                   | Some req \<Rightarrow> if req = [] then sc_return TO_EndOfSubscribe
                                 else sc_return (TO_EndOfSnapshot req))
               else sc_fail (PE_InvalidField ''trade op'' ''expected A, D, R or E''))
        (\<lambda>op. sc_return (PM_Trade ticker op)))))) frame"

section \<open>The parser as a function of the fields\<close>

lemma collect_fields_tokens:
  "fst (collect_fields flds s) =
     flds @ take (9 - length flds) (scan_tokens s) @
       takeWhile (\<lambda>t. t \<noteq> []) (drop (9 - length flds) (scan_tokens s))"
proof (induction flds s rule: collect_fields.induct)
  case (1 flds s)
  show ?case
  proof (cases "scan_tokens s")
    case Nil
    then show ?thesis by (simp add: collect_fields.simps [of flds s] scan_next_tokens)
  next
    case (Cons t ts)
    then have n: "scan_next s = (Some t, scan_adv s)" by (simp add: scan_next_tokens)
    show ?thesis
    proof (cases "9 \<le> length flds")
      case True
      with "1.IH" [of "Some t" "scan_adv s" t] n Cons show ?thesis
        by (simp add: collect_fields.simps [of flds s])
    next
      case False
      then obtain k where "9 - length flds = Suc k"
        by (metis Suc_diff_Suc not_le)
      moreover from this have "8 - length flds = k" by simp
      ultimately show ?thesis
        using "1.IH" [of "Some t" "scan_adv s" t] n Cons False
        by (simp add: collect_fields.simps [of flds s])
    qed
  qed
qed

text \<open>The operation of a trade frame as a function of the tokens after the op field.\<close>

definition trade_op_of :: "nat \<Rightarrow> bytes \<Rightarrow> bytes list \<Rightarrow> ParseError + TradeOperation" where
  "trade_op_of k op_field ts =
     (if op_field = ''A'' then
        let flds = take 9 ts @ takeWhile (\<lambda>t. t \<noteq> []) (drop 9 ts)
        in if length flds = 9 then trade_of_fields (CHR ''A'') None flds
           else if length flds = 10 then
             trade_of_fields (CHR ''A'') (Some (flds ! 6)) (remove_at 6 flds)
           else Inl (PE_InvalidField ''trade fields''
                  ''expected 9 (subscribe) or 10 (snapshot) fields after A'')
      else if op_field = ''D'' then
        (case ts of [] \<Rightarrow> Inl (PE_MissingField (k + 1) ''trade id'') | t # _ \<Rightarrow> Inr (TO_Delete t))
      else if op_field = ''R'' then Inr TO_RemoveAll
      else if op_field = ''E'' then
        (case ts of [] \<Rightarrow> Inr TO_EndOfSubscribe
         | t # _ \<Rightarrow> if t = [] then Inr TO_EndOfSubscribe else Inr (TO_EndOfSnapshot t))
      else Inl (PE_InvalidField ''trade op'' ''expected A, D, R or E''))"

lemma gqt_parse_add_tokens:
  "bind_res (gqt_parse_add (CHR ''A'') s) (\<lambda>(x, _). Inr x) = trade_op_of k ''A'' (scan_tokens s)"
  using collect_fields_tokens [of "[]" s]
  by (auto simp: gqt_parse_add_def trade_op_of_def Let_def sc_lift_def bind_res_def
      split: prod.splits sum.splits)

lemma gqt_parse_fields:
  assumes "split_on (CHR '':'') frame = h # ticker # op_field # ts"
  shows "gqt_parse frame = bind_res (trade_op_of 3 op_field ts) (\<lambda>op. Inr (PM_Trade ticker op))"
proof -
  let ?s = "scan_adv (scan_adv (scan_adv (Scanner_new frame)))"
  have tk: "scan_tokens ?s = ts" using assms by simp
  show ?thesis
  proof (cases "op_field = ''A''")
    case True
    with assms have "gqt_parse frame =
        bind_res (gqt_parse_add (CHR ''A'') ?s) (\<lambda>(x, _). Inr (PM_Trade ticker x))"
      by (simp add: gqt_parse_def sc_run_eq scan_eval bind_res_def split: sum.splits)
    moreover have "trade_op_of 3 op_field ts = bind_res (gqt_parse_add (CHR ''A'') ?s) (\<lambda>(x, _). Inr x)"
      using gqt_parse_add_tokens [of ?s 3] tk True by simp
    ultimately show ?thesis
      by (cases "gqt_parse_add (CHR ''A'') ?s") auto
  next
    case False
    with assms show ?thesis
      by (auto simp: gqt_parse_def sc_run_eq scan_eval trade_op_of_def split: list.splits)
  qed
qed

section \<open>The wire form of a trade\<close>

text \<open>The fields of an add (the layout of \<^verbatim>\<open>gqt.rs\<close>), for a price text \<open>p\<close>: nine in subscribe mode,
  and a tenth, the request id, before the condition in snapshot mode.\<close>

definition trade_fields :: "Trade \<Rightarrow> bytes \<Rightarrow> bytes list" where
  "trade_fields t p =
     [show_nat (unat (tr_time_hhmmss t)), p, show_nat (unat (tr_broker_buy_id t)),
      show_nat (unat (tr_broker_sell_id t)), show_nat (unat (tr_quantity t)), tr_trade_id t] @
     (case tr_request_id t of None \<Rightarrow> [] | Some r \<Rightarrow> [r]) @
     [show_nat (unat (TradeCondition_code (tr_condition t))),
      [TradeAggressor_code (tr_aggressor t)], tr_original_conditions t]"

definition gqt_print :: "bytes \<Rightarrow> Trade \<Rightarrow> bytes \<Rightarrow> bytes" where
  "gqt_print ticker t p = join_on (CHR '':'') (''V'' # ticker # ''A'' # trade_fields t p)"

text \<open>A trade has a wire form when its condition and aggressor are the decoded ones, its price
  text reads as its price, and no text field holds a separator.\<close>

definition wire_trade :: "Trade \<Rightarrow> bytes \<Rightarrow> bool" where
  "wire_trade t p \<longleftrightarrow>
     tr_operation_code t = CHR ''A'' \<and> parse_f64 p ''trade price'' = Inr (tr_price t) \<and>
     TradeCondition_from_code (TradeCondition_code (tr_condition t)) = tr_condition t \<and>
     TradeAggressor_from_byte (TradeAggressor_code (tr_aggressor t)) = tr_aggressor t \<and>
     TradeAggressor_code (tr_aggressor t) \<noteq> CHR '':'' \<and>
     CHR '':'' \<notin> set p \<and> CHR '':'' \<notin> set (tr_trade_id t) \<and>
     CHR '':'' \<notin> set (tr_original_conditions t) \<and>
     (case tr_request_id t of None \<Rightarrow> True | Some r \<Rightarrow> CHR '':'' \<notin> set r)"

lemma gqt_print_split:
  assumes "wire_trade t p" and "CHR '':'' \<notin> set ticker"
  shows "split_on (CHR '':'') (gqt_print ticker t p) = ''V'' # ticker # ''A'' # trade_fields t p"
  unfolding gqt_print_def
  by (rule split_join_on) (use assms in \<open>auto simp: wire_trade_def trade_fields_def split: option.splits\<close>)

lemma trade_op_of_subscribe:
  assumes "wire_trade t p" and "tr_request_id t = None"
  shows "trade_op_of k ''A'' (trade_fields t p) = Inr (TO_Add t)"
  using assms by (cases t) (simp add: trade_op_of_def trade_fields_def wire_trade_def
      trade_of_fields_def single_byte_def)

lemma trade_op_of_snapshot:
  assumes "wire_trade t p" and "tr_request_id t = Some r" and "tr_original_conditions t \<noteq> []"
  shows "trade_op_of k ''A'' (trade_fields t p) = Inr (TO_Add t)"
  using assms by (cases t) (simp add: trade_op_of_def trade_fields_def wire_trade_def
      trade_of_fields_def single_byte_def remove_at_def)

text \<open>A snapshot trade with empty original conditions has an empty tenth field, which the loop
  takes for a dangling separator: nine fields remain and are read in the subscribe layout.\<close>

lemma trade_op_of_truncated:
  assumes "wire_trade t p" and "tr_request_id t = Some r" and "tr_original_conditions t = []"
    and "parse_u16 r ''trade condition'' = Inr n" and "unat (TradeCondition_code (tr_condition t)) < 10"
  shows "trade_op_of k ''A'' (trade_fields t p) = Inr (TO_Add (t
     \<lparr>tr_request_id := None, tr_condition := TradeCondition_from_code n,
      tr_aggressor := TradeAggressor_from_byte (char_of (48 + unat (TradeCondition_code (tr_condition t)))),
      tr_original_conditions := [TradeAggressor_code (tr_aggressor t)]\<rparr>))"
proof -
  have "show_nat (unat (TradeCondition_code (tr_condition t))) =
      [char_of (48 + unat (TradeCondition_code (tr_condition t)))]"
    using assms(5) by (simp add: show_nat.simps)
  with assms(1-4) show ?thesis
    by (cases t) (simp add: trade_op_of_def trade_fields_def wire_trade_def trade_of_fields_def
        single_byte_def)
qed

definition sample_trade :: "bytes option \<Rightarrow> bytes \<Rightarrow> Trade" where
  "sample_trade req orig =
     \<lparr>tr_operation_code = CHR ''A'', tr_time_hhmmss = 155613, tr_price = 0x404580A3D70A3D71,
      tr_broker_buy_id = 239, tr_broker_sell_id = 354, tr_quantity = 100, tr_trade_id = ''T1'',
      tr_request_id = req, tr_condition = TC_Rlp, tr_aggressor = TA_Seller,
      tr_original_conditions = orig\<rparr>"

lemma sample_price: "parse_f64 ''43.005'' f = Inr 0x404580A3D70A3D71"
  by (simp add: parse_f64_def utf8_valid_ascii is_ascii_def byte_in_def f64_eval)

section \<open>Properties\<close>

text \<open>C20. The trade parser inverts the wire format of an add in both modes, subscribe (nine
  fields) and snapshot (ten): every field of the trade comes back, the request id exactly when
  the frame has one. In snapshot mode the original conditions must not be empty.\<close>

theorem trade_frame_roundtrip:
  assumes "wire_trade t p" and "CHR '':'' \<notin> set ticker"
    and "tr_request_id t = None \<or> tr_original_conditions t \<noteq> []"
  shows "gqt_parse (gqt_print ticker t p) = Inr (PM_Trade ticker (TO_Add t))"
  using assms
  by (cases "tr_request_id t")
     (auto simp: gqt_parse_fields [OF gqt_print_split] trade_op_of_subscribe trade_op_of_snapshot)

lemma wire_sample [simp]:
  "CHR '':'' \<notin> set orig \<Longrightarrow> (case req of None \<Rightarrow> True | Some r \<Rightarrow> CHR '':'' \<notin> set r) \<Longrightarrow>
   wire_trade (sample_trade req orig) ''43.005''"
  by (simp add: wire_trade_def sample_trade_def sample_price TradeCondition_from_code_def
      TradeAggressor_from_byte_def)

theorem trade_frame_roundtrip_witness:
  "gqt_parse (gqt_print ''PETR4'' (sample_trade (Some ''REQ-7'') ''RF RL'') ''43.005'') =
     Inr (PM_Trade ''PETR4'' (TO_Add (sample_trade (Some ''REQ-7'') ''RF RL'')))"
  by (rule trade_frame_roundtrip) (simp, simp, simp add: sample_trade_def)

text \<open>C21. A snapshot trade whose original conditions are empty is not rejected but misread: with a
  numeric request id \<open>n\<close> and a one-digit condition code, the parser succeeds and returns a
  subscribe trade whose condition is \<open>n\<close>, whose aggressor is the digit of the condition and whose
  original conditions are the aggressor byte.\<close>

theorem snapshot_empty_conditions_misread:
  assumes "wire_trade t p" and "CHR '':'' \<notin> set ticker"
    and "tr_request_id t = Some r" and "tr_original_conditions t = []"
    and "parse_u16 r ''trade condition'' = Inr n" and "unat (TradeCondition_code (tr_condition t)) < 10"
  shows "gqt_parse (gqt_print ticker t p) = Inr (PM_Trade ticker (TO_Add (t
     \<lparr>tr_request_id := None, tr_condition := TradeCondition_from_code n,
      tr_aggressor := TradeAggressor_from_byte (char_of (48 + unat (TradeCondition_code (tr_condition t)))),
      tr_original_conditions := [TradeAggressor_code (tr_aggressor t)]\<rparr>)))"
  by (simp add: gqt_parse_fields [OF gqt_print_split] assms(1,2) trade_op_of_truncated [OF assms(1,3-6)])

theorem snapshot_empty_conditions_misread_witness:
  "gqt_parse (gqt_print ''PETR4'' (sample_trade (Some ''7'') []) ''43.005'') =
     Inr (PM_Trade ''PETR4'' (TO_Add (sample_trade (Some ''7'') []
       \<lparr>tr_request_id := None, tr_condition := TC_Unknown 7, tr_aggressor := TA_Unknown (CHR ''2''),
        tr_original_conditions := ''V''\<rparr>)))"
proof -
  have "parse_u16 ''7'' ''trade condition'' = Inr 7"
    by (simp add: parse_u16_eq is_digit_def byte_in_def dec_value_def digit_val_def)
  moreover have "char_of (50 :: nat) = CHR ''2''"
    by (simp add: char_of_eq_iff)
  ultimately show ?thesis
    using snapshot_empty_conditions_misread [of "sample_trade (Some ''7'') []" "''43.005''" "''PETR4''" "''7''" 7]
    by (simp add: sample_trade_def [of "Some ''7''"] wire_sample [unfolded sample_trade_def]
        TradeCondition_from_code_def TradeAggressor_from_byte_def del: wire_sample)
qed

end
