(* ===== verification/Parse_Misc.thy ===== *)
theory Parse_Misc
  imports Scanner
begin

text \<open>
  The remaining frame parsers of \<^verbatim>\<open>crates/cedro-protocol/src/parser/\<close>: protocol errors
  (\<^verbatim>\<open>error.rs\<close>), broker dictionary (\<^verbatim>\<open>gpn.rs\<close>), server time (\<^verbatim>\<open>gtc.rs\<close>), catalog (\<^verbatim>\<open>mqc.rs\<close>), news
  (\<^verbatim>\<open>nem.rs\<close>) and volume at price (\<^verbatim>\<open>vap.rs\<close>), each with its reading as a function of the fields.
\<close>

section \<open>Errors, brokers, server time, catalog\<close>

definition error_parse :: "bytes \<Rightarrow> ParseError + ProtocolMessage" where
  [parser_defs]: "error_parse frame = sc_run
     (sc_bind (required ''E header'') (\<lambda>header.
      sc_bind (required ''error code'') (\<lambda>code_bytes.
      sc_bind (sc_lift (parse_u16 code_bytes ''error code'')) (\<lambda>code.
      sc_bind (\<lambda>s. Inr (scan_collect s)) (\<lambda>context.
      sc_return (PM_Error \<lparr>ce_code = code, ce_context = context\<rparr>)))))) frame"

definition gpn_parse :: "bytes \<Rightarrow> ParseError + ProtocolMessage" where
  [parser_defs]: "gpn_parse frame = sc_run
     (sc_bind (required ''G header'') (\<lambda>header.
      sc_bind (required ''exchange'') (\<lambda>exchange.
      sc_bind (required ''broker code'') (\<lambda>code.
      sc_bind (required ''broker name'') (\<lambda>name.
      sc_bind (required ''cedro id'') (\<lambda>cedro_id.
      sc_bind (required ''active flag'') (\<lambda>active_field.
      sc_bind (if active_field = ''1'' then sc_return True
               else if active_field = ''0'' then sc_return False
               else sc_fail (PE_InvalidField ''active flag'' (''expected '0' or '1'' @ [CHR 0x27]))) (\<lambda>active.
      sc_return (PM_GpnItem \<lparr>gp_exchange = exchange, gp_code = code, gp_name = name,
        gp_cedro_id = cedro_id, gp_active = active\<rparr>))))))))) frame"

definition gtc_parse :: "bytes \<Rightarrow> ParseError + ProtocolMessage" where
  [parser_defs]: "gtc_parse frame = sc_run
     (sc_bind (required ''GTC header'') (\<lambda>header.
      sc_bind (required ''server time payload'') (\<lambda>payload.
        if length payload \<noteq> 14 then
          sc_fail (PE_InvalidField ''server time'' ''expected 14-digit YYYYMMDDHHMMSS'')
        else
          sc_bind (sc_lift (parse_u32 (take 8 payload) ''GTC date'')) (\<lambda>date.
          sc_bind (sc_lift (parse_u32 (drop 8 payload) ''GTC time'')) (\<lambda>time.
          sc_return (PM_ServerTime \<lparr>sv_date = date, sv_time = time\<rparr>)))))) frame"

text \<open>\<open>&&\<close> is lazy: the scanner moves only when the third field is \<open>E\<close>.\<close>

definition mqc_parse :: "bytes \<Rightarrow> ParseError + ProtocolMessage" where
  [parser_defs]: "mqc_parse frame = sc_run
     (sc_bind (required ''C header'') (\<lambda>header.
      sc_bind (required ''market'') (\<lambda>market.
      sc_bind (required ''ticker or end-sentinel'') (\<lambda>third.
      sc_bind (if third = ''E'' then sc_bind sc_next (\<lambda>r. sc_return (r = None))
               else sc_return False) (\<lambda>is_end.
        if is_end then sc_return (PM_MqcItem (MQ_End market))
        else sc_return (PM_MqcItem (MQ_Symbol market third))))))) frame"

section \<open>News\<close>

definition read_headline :: "bytes option \<Rightarrow> NewsHeadline parser" where
  [parser_defs]: "read_headline pre_consumed_agency =
     sc_bind (case pre_consumed_agency of Some a \<Rightarrow> sc_return a | None \<Rightarrow> required ''agency'') (\<lambda>agency.
     sc_bind (required ''code'') (\<lambda>code.
     sc_bind (required ''news date'') (\<lambda>date_bytes.
     sc_bind (sc_lift (parse_u32 date_bytes ''news date'')) (\<lambda>date.
     sc_bind (required ''news time'') (\<lambda>time_bytes.
     sc_bind (sc_lift (parse_u32 time_bytes ''news time'')) (\<lambda>time.
     sc_bind (required ''news category'') (\<lambda>category_bytes.
     sc_bind (sc_lift (parse_u32 category_bytes ''news category'')) (\<lambda>category.
     sc_bind (required ''news title length'') (\<lambda>title_len_bytes.
     sc_bind sc_take_rest (\<lambda>title.
     sc_return \<lparr>nh_agency = agency, nh_code = code, nh_date = date, nh_time = time,
       nh_category = category, nh_title = title\<rparr>))))))))))"

definition nem_parse :: "bytes \<Rightarrow> ParseError + ProtocolMessage" where
  [parser_defs]: "nem_parse frame = sc_run
     (sc_bind (required ''O header'') (\<lambda>header.
      sc_bind (required ''news kind'') (\<lambda>kind.
      sc_bind
        (if kind = ''A'' then sc_bind (read_headline None) (\<lambda>h. sc_return (NM_Headline h))
         else if kind = ''L'' then
           sc_bind (required ''request id'') (\<lambda>req_id.
           sc_bind (required ''agency or END'') (\<lambda>nxt.
             if nxt = ''END'' then sc_return (NM_HistoryEnd req_id)
             else sc_bind (read_headline (Some nxt)) (\<lambda>h. sc_return (NM_HistoryItem req_id h))))
         else if kind = ''N'' then
           sc_bind (required ''request id'') (\<lambda>request_id.
           sc_bind (required ''agency'') (\<lambda>agency.
           sc_bind (required ''code'') (\<lambda>code.
           sc_bind sc_take_rest (\<lambda>body_raw.
           sc_return (NM_Body request_id agency code body_raw)))))
         else sc_fail (PE_InvalidField ''news kind'' ''expected A, L, or N''))
        (\<lambda>msg. sc_return (PM_News msg))))) frame"

section \<open>Volume at price\<close>

definition scanner_parse_u32 :: "bytes \<Rightarrow> string \<Rightarrow> ParseError + u32" where
  "scanner_parse_u32 b field = parse_u32 b field"

definition vap_terminator :: "bytes \<Rightarrow> u32 option \<Rightarrow> VapEntry" where
  "vap_terminator ticker period =
     \<lparr>va_ticker = ticker, va_price = f64_zero, va_buyer_trades = f64_zero,
      va_buyer_volume = f64_zero, va_seller_trades = f64_zero, va_seller_volume = f64_zero,
      va_direct_trades = f64_zero, va_direct_volume = f64_zero, va_undefined_trades = f64_zero,
      va_undefined_volume = f64_zero, va_period_minutes = period, va_rlp_trades = f64_zero,
      va_rlp_volume = f64_zero, va_auction_trades = f64_zero, va_auction_volume = f64_zero\<rparr>"

definition vap_data :: "bytes \<Rightarrow> bytes \<Rightarrow> ProtocolMessage parser" where
  [parser_defs]: "vap_data ticker third =
     sc_bind (sc_lift (parse_f64 third ''vap price'')) (\<lambda>price.
     sc_bind (required_f64 ''vap buyer_trades'') (\<lambda>buyer_trades.
     sc_bind (required_f64 ''vap buyer_volume'') (\<lambda>buyer_volume.
     sc_bind (required_f64 ''vap seller_trades'') (\<lambda>seller_trades.
     sc_bind (required_f64 ''vap seller_volume'') (\<lambda>seller_volume.
     sc_bind (required_f64 ''vap direct_trades'') (\<lambda>direct_trades.
     sc_bind (required_f64 ''vap direct_volume'') (\<lambda>direct_volume.
     sc_bind (required_f64 ''vap undefined_trades'') (\<lambda>undefined_trades.
     sc_bind (required_f64 ''vap undefined_volume'') (\<lambda>undefined_volume.
     sc_bind (required ''vap period'') (\<lambda>period_raw.
     sc_bind (if period_raw = ''0'' \<or> period_raw = [] then sc_return None
              else sc_bind (sc_lift (scanner_parse_u32 period_raw ''vap period'')) (\<lambda>n. sc_return (Some n)))
       (\<lambda>period_minutes.
     sc_bind (required_f64 ''vap rlp_trades'') (\<lambda>rlp_trades.
     sc_bind (required_f64 ''vap rlp_volume'') (\<lambda>rlp_volume.
     sc_bind (required_f64 ''vap auction_trades'') (\<lambda>auction_trades.
     sc_bind (required_f64 ''vap auction_volume'') (\<lambda>auction_volume.
     sc_return (PM_Vap
       \<lparr>va_ticker = ticker, va_price = price, va_buyer_trades = buyer_trades,
        va_buyer_volume = buyer_volume, va_seller_trades = seller_trades,
        va_seller_volume = seller_volume, va_direct_trades = direct_trades,
        va_direct_volume = direct_volume, va_undefined_trades = undefined_trades,
        va_undefined_volume = undefined_volume, va_period_minutes = period_minutes,
        va_rlp_trades = rlp_trades, va_rlp_volume = rlp_volume,
        va_auction_trades = auction_trades, va_auction_volume = auction_volume\<rparr>))))))))))))))))"

definition vap_parse :: "bytes \<Rightarrow> ParseError + ProtocolMessage" where
  [parser_defs]: "vap_parse frame = sc_run
     (sc_bind (required ''VAP header'') (\<lambda>header.
      sc_bind (required ''ticker'') (\<lambda>ticker.
      sc_bind (required ''price or terminator'') (\<lambda>third.
        if third = ''E'' then
          sc_bind sc_next (\<lambda>p.
          sc_bind (case p of
              Some q \<Rightarrow> if q \<noteq> [] then sc_bind (sc_lift (scanner_parse_u32 q ''vap period'')) (\<lambda>n. sc_return (Some n))
                        else sc_return None
            | None \<Rightarrow> sc_return None)
            (\<lambda>period_minutes. sc_return (PM_Vap (vap_terminator ticker period_minutes))))
        else vap_data ticker third)))) frame"

section \<open>The parsers as functions of the fields\<close>

lemma error_parse_fields:
  assumes "split_on (CHR '':'') frame = h # code # ts"
  shows "error_parse frame = bind_res (parse_u16 code ''error code'')
           (\<lambda>c. Inr (PM_Error \<lparr>ce_code = c, ce_context = ts\<rparr>))"
proof -
  let ?s = "scan_adv (scan_adv (Scanner_new frame))"
  have "fst (scan_collect ?s) = ts"
    using assms by (simp add: scanner.drain_items)
  with assms show ?thesis
    by (cases "scan_collect ?s"; cases "parse_u16 code ''error code''")
       (simp_all add: error_parse_def sc_run_eq scan_eval)
qed

lemma gpn_parse_fields:
  assumes "split_on (CHR '':'') frame = h # ex # code # nm # cid # act # ts"
  shows "gpn_parse frame =
     (if act = ''1'' \<or> act = ''0'' then
        Inr (PM_GpnItem \<lparr>gp_exchange = ex, gp_code = code, gp_name = nm, gp_cedro_id = cid,
                          gp_active = (act = ''1'')\<rparr>)
      else Inl (PE_InvalidField ''active flag'' (''expected '0' or '1'' @ [CHR 0x27])))"
  using assms by (simp add: gpn_parse_def sc_run_eq scan_eval)

lemma gtc_parse_fields:
  assumes "split_on (CHR '':'') frame = h # payload # ts"
  shows "gtc_parse frame =
     (if length payload \<noteq> 14 then
        Inl (PE_InvalidField ''server time'' ''expected 14-digit YYYYMMDDHHMMSS'')
      else bind_res (parse_u32 (take 8 payload) ''GTC date'') (\<lambda>d.
           bind_res (parse_u32 (drop 8 payload) ''GTC time'') (\<lambda>t.
           Inr (PM_ServerTime \<lparr>sv_date = d, sv_time = t\<rparr>))))"
  using assms
  by (cases "parse_u32 (take 8 payload) ''GTC date''"; cases "parse_u32 (drop 8 payload) ''GTC time''")
     (simp_all add: gtc_parse_def sc_run_eq scan_eval)

lemma mqc_parse_fields:
  assumes "split_on (CHR '':'') frame = h # market # third # ts"
  shows "mqc_parse frame = Inr (PM_MqcItem
     (if third = ''E'' \<and> ts = [] then MQ_End market else MQ_Symbol market third))"
  using assms by (cases ts) (simp_all add: mqc_parse_def sc_run_eq scan_eval)

text \<open>The tail of a news frame after its last fixed field is kept verbatim, separators included.\<close>

lemma sc_take_rest_tokens: "sc_take_rest s = Inr (join_on (CHR '':'') (scan_tokens s), snd (take_rest s))"
  by (simp add: sc_take_rest_def take_rest_join [symmetric])

lemma split_join_tail:
  "\<forall>t \<in> set ts. c \<notin> set t \<Longrightarrow> split_on c (join_on c (ts @ [x])) = ts @ split_on c x"
proof (induction ts)
  case (Cons t ts)
  then show ?case by (cases "ts @ [x]") (simp_all add: split_on_append)
qed simp

lemma nem_parse_body:
  assumes "split_on (CHR '':'') frame = h # ''N'' # req # agency # code # ts"
  shows "nem_parse frame = Inr (PM_News (NM_Body req agency code (join_on (CHR '':'') ts)))"
  using assms by (simp add: nem_parse_def sc_run_eq scan_eval sc_take_rest_tokens)

definition headline_fields :: "NewsHeadline \<Rightarrow> bytes \<Rightarrow> bytes list" where
  "headline_fields h len =
     [nh_code h, show_nat (unat (nh_date h)), show_nat (unat (nh_time h)),
      show_nat (unat (nh_category h)), len]"

lemma read_headline_tokens:
  assumes "scan_tokens s = headline_fields h len @ split_on (CHR '':'') (nh_title h)"
  shows "read_headline (Some (nh_agency h)) s =
    Inr (h, snd (take_rest (scan_adv (scan_adv (scan_adv (scan_adv (scan_adv s)))))))"
  using assms
  by (simp add: headline_fields_def read_headline_def scan_eval sc_take_rest_tokens)

lemma read_headline_None:
  assumes "scan_tokens s = a # ts"
  shows "read_headline None s = read_headline (Some a) (scan_adv s)"
  using assms by (simp add: read_headline_def scan_eval)

text \<open>The wire form of a news message, for a title length text \<open>len\<close>.\<close>

fun news_fields :: "NewsMessage \<Rightarrow> bytes \<Rightarrow> bytes list" where
  "news_fields (NM_Headline h) len = ''A'' # nh_agency h # headline_fields h len @ [nh_title h]"
| "news_fields (NM_HistoryItem r h) len = ''L'' # r # nh_agency h # headline_fields h len @ [nh_title h]"
| "news_fields (NM_HistoryEnd r) len = [''L'', r, ''END'']"
| "news_fields (NM_Body r a c b) len = [''N'', r, a, c, b]"

definition nem_print :: "NewsMessage \<Rightarrow> bytes \<Rightarrow> bytes" where
  "nem_print m len = join_on (CHR '':'') (''O'' # news_fields m len)"

definition no_colon :: "bytes \<Rightarrow> bool" where
  "no_colon b \<longleftrightarrow> CHR '':'' \<notin> set b"

fun wire_news :: "NewsMessage \<Rightarrow> bool" where
  "wire_news (NM_Headline h) \<longleftrightarrow> no_colon (nh_agency h) \<and> no_colon (nh_code h)"
| "wire_news (NM_HistoryItem r h) \<longleftrightarrow>
     no_colon r \<and> no_colon (nh_agency h) \<and> nh_agency h \<noteq> ''END'' \<and> no_colon (nh_code h)"
| "wire_news (NM_HistoryEnd r) \<longleftrightarrow> no_colon r"
| "wire_news (NM_Body r a c b) \<longleftrightarrow> no_colon r \<and> no_colon a \<and> no_colon c"

lemma nem_print_split:
  assumes "wire_news m" and "no_colon len"
  shows "split_on (CHR '':'') (nem_print m len) =
           ''O'' # butlast (news_fields m len) @ split_on (CHR '':'') (last (news_fields m len))"
proof -
  have ne: "news_fields m len \<noteq> []" by (cases m) simp_all
  have "\<forall>t \<in> set (''O'' # butlast (news_fields m len)). CHR '':'' \<notin> set t"
    using assms
    by (cases m) (auto simp: headline_fields_def no_colon_def butlast_append digits_no_colon)
  from split_join_tail [OF this, of "last (news_fields m len)"] ne show ?thesis
    by (simp add: nem_print_def)
qed

lemma nem_parse_kind:
  assumes "split_on (CHR '':'') frame = h # kind # ts"
  shows "\<exists>s. scan_tokens s = ts \<and> nem_parse frame =
     bind_res
       ((if kind = ''A'' then sc_bind (read_headline None) (\<lambda>h. sc_return (NM_Headline h))
         else if kind = ''L'' then
           sc_bind (required ''request id'') (\<lambda>req_id.
           sc_bind (required ''agency or END'') (\<lambda>nxt.
             if nxt = ''END'' then sc_return (NM_HistoryEnd req_id)
             else sc_bind (read_headline (Some nxt)) (\<lambda>h. sc_return (NM_HistoryItem req_id h))))
         else if kind = ''N'' then
           sc_bind (required ''request id'') (\<lambda>request_id.
           sc_bind (required ''agency'') (\<lambda>agency.
           sc_bind (required ''code'') (\<lambda>code.
           sc_bind sc_take_rest (\<lambda>body_raw.
           sc_return (NM_Body request_id agency code body_raw)))))
         else sc_fail (PE_InvalidField ''news kind'' ''expected A, L, or N'')) s)
       (\<lambda>(m, _). Inr (PM_News m))"
  by (rule exI [of _ "scan_adv (scan_adv (Scanner_new frame))"])
     (use assms in \<open>simp add: nem_parse_def sc_run_eq scan_eval bind_res_def split: sum.splits\<close>)

section \<open>Properties\<close>

text \<open>News frames round-trip whatever the title or body holds: a live headline, a history item,
  the end of a history list and a body come back with every field, and the free text, separators
  included, byte for byte.\<close>

lemma news_frame_roundtrip:
  assumes "wire_news m" and "no_colon len"
  shows "nem_parse (nem_print m len) = Inr (PM_News m)"
proof (cases m)
  case (NM_Headline h)
  with nem_print_split [OF assms]
  have "split_on (CHR '':'') (nem_print m len) =
      ''O'' # ''A'' # nh_agency h # headline_fields h len @ split_on (CHR '':'') (nh_title h)"
    by (simp add: butlast_append)
  from nem_parse_kind [OF this] NM_Headline show ?thesis
    by (auto simp: sc_bind_def read_headline_None read_headline_tokens [of _ h len])
next
  case (NM_HistoryItem r h)
  with nem_print_split [OF assms]
  have "split_on (CHR '':'') (nem_print m len) =
      ''O'' # ''L'' # r # nh_agency h # headline_fields h len @ split_on (CHR '':'') (nh_title h)"
    by (simp add: butlast_append)
  from nem_parse_kind [OF this] NM_HistoryItem assms show ?thesis
    by (auto simp: scan_eval read_headline_tokens [of _ h len])
next
  case (NM_HistoryEnd r)
  from nem_print_split [OF assms] NM_HistoryEnd
  have "split_on (CHR '':'') (nem_print m len) = [''O'', ''L'', r, ''END'']"
    by simp
  from nem_parse_kind [OF this] NM_HistoryEnd show ?thesis
    by (auto simp: scan_eval)
next
  case (NM_Body r a c b)
  from nem_print_split [OF assms] NM_Body
  have "split_on (CHR '':'') (nem_print m len) = ''O'' # ''N'' # r # a # c # split_on (CHR '':'') b"
    by simp
  from nem_parse_body [OF this] NM_Body show ?thesis by simp
qed

end
