(* ===== verification/Parser.thy ===== *)
theory Parser
  imports Frame Parse_Quote Parse_Book Parse_Trade Parse_Misc
begin

text \<open>
  \<^verbatim>\<open>crates/cedro-protocol/src/parser/mod.rs\<close>: the dispatch of a frame on its functional header.
  The chain of \<open>starts_with\<close> tests is compared with a table indexed by the first field; that table
  also settles the \<open>debug_assert_eq!\<close> of every frame parser, since the parser for a header is run
  only on a frame whose first field is that header.
\<close>

section \<open>Dispatch\<close>

definition starts_with :: "bytes \<Rightarrow> bytes \<Rightarrow> bool" where
  "starts_with p b \<longleftrightarrow> take (length p) b = p"

definition parse_frame :: "FrameKind \<Rightarrow> bytes \<Rightarrow> ParseError + ProtocolMessage" where
  "parse_frame kind frame =
     (if frame = [] then Inl PE_Empty
      else if starts_with ''T:'' frame then sqt_parse frame
      else if starts_with ''B:'' frame then bqt_parse frame
      else if starts_with ''Z:'' frame then sab_parse frame
      else if starts_with ''V:'' frame then gqt_parse frame
      else if starts_with ''O:'' frame then nem_parse frame
      else if starts_with ''VAP:'' frame then vap_parse frame
      else if starts_with ''GTC:'' frame then gtc_parse frame
      else if starts_with ''C:'' frame then mqc_parse frame
      else if starts_with ''G:'' frame then gpn_parse frame
      else if starts_with ''E:'' frame then error_parse frame
      else Inl (PE_UnknownHeader frame))"

section \<open>The table of headers\<close>

definition frame_parsers :: "(bytes \<times> (bytes \<Rightarrow> ParseError + ProtocolMessage)) list" where
  "frame_parsers =
     [(''T'', sqt_parse), (''B'', bqt_parse), (''Z'', sab_parse), (''V'', gqt_parse),
      (''O'', nem_parse), (''VAP'', vap_parse), (''GTC'', gtc_parse), (''C'', mqc_parse),
      (''G'', gpn_parse), (''E'', error_parse)]"

lemma starts_with_header:
  assumes "c \<notin> set h"
  shows "starts_with (h @ [c]) f \<longleftrightarrow> (\<exists>t ts. split_on c f = h # t # ts)"
proof
  assume "starts_with (h @ [c]) f"
  then have "f = (h @ [c]) @ drop (length (h @ [c])) f"
    unfolding starts_with_def by (metis append_take_drop_id)
  then obtain r where "f = h @ c # r" by auto
  then have "split_on c f = h # split_on c r"
    using assms by (simp add: split_on_append)
  then show "\<exists>t ts. split_on c f = h # t # ts"
    by (metis list.exhaust split_on_nonempty)
next
  assume "\<exists>t ts. split_on c f = h # t # ts"
  then obtain t ts where "split_on c f = h # t # ts" by blast
  then have "f = h @ c # join_on c (t # ts)"
    by (metis join_on.simps(3) join_split_on)
  then show "starts_with (h @ [c]) f" by (simp add: starts_with_def)
qed

lemmas starts_with_headers =
  starts_with_header [of "CHR '':''" "''T''", simplified]
  starts_with_header [of "CHR '':''" "''B''", simplified]
  starts_with_header [of "CHR '':''" "''Z''", simplified]
  starts_with_header [of "CHR '':''" "''V''", simplified]
  starts_with_header [of "CHR '':''" "''O''", simplified]
  starts_with_header [of "CHR '':''" "''VAP''", simplified]
  starts_with_header [of "CHR '':''" "''GTC''", simplified]
  starts_with_header [of "CHR '':''" "''C''", simplified]
  starts_with_header [of "CHR '':''" "''G''", simplified]
  starts_with_header [of "CHR '':''" "''E''", simplified]

lemma parse_frame_table:
  assumes "split_on (CHR '':'') frame = h # t # ts"
  shows "parse_frame kind frame =
           (case map_of frame_parsers h of Some p \<Rightarrow> p frame | None \<Rightarrow> Inl (PE_UnknownHeader frame))"
proof -
  have "frame \<noteq> []" using assms by auto
  with assms show ?thesis
    by (simp add: parse_frame_def starts_with_headers frame_parsers_def)
qed

lemma parse_frame_no_separator:
  assumes "split_on (CHR '':'') frame = [h]" and "frame \<noteq> []"
  shows "parse_frame kind frame = Inl (PE_UnknownHeader frame)"
  using assms by (simp add: parse_frame_def starts_with_headers)

text \<open>The terminator is not checked: the result never depends on the kind of the frame.\<close>

lemma parse_frame_kind: "parse_frame k frame = parse_frame Newline frame"
  by (simp add: parse_frame_def)

section \<open>What kind of message a frame gives\<close>

fun header_of :: "ProtocolMessage \<Rightarrow> bytes" where
  "header_of (PM_Quote t time diff) = ''T''"
| "header_of (PM_Book t op) = ''B''"
| "header_of (PM_AggBook t op) = ''Z''"
| "header_of (PM_Trade t op) = ''V''"
| "header_of (PM_News n) = ''O''"
| "header_of (PM_Vap v) = ''VAP''"
| "header_of (PM_ServerTime s) = ''GTC''"
| "header_of (PM_MqcItem i) = ''C''"
| "header_of (PM_GpnItem i) = ''G''"
| "header_of (PM_Error e) = ''E''"

fun ticker_of :: "ProtocolMessage \<Rightarrow> bytes option" where
  "ticker_of (PM_Quote t time diff) = Some t"
| "ticker_of (PM_Book t op) = Some t"
| "ticker_of (PM_AggBook t op) = Some t"
| "ticker_of (PM_Trade t op) = Some t"
| "ticker_of (PM_Vap v) = Some (va_ticker v)"
| "ticker_of _ = None"

definition has_type :: "bytes \<Rightarrow> bytes \<Rightarrow> ProtocolMessage \<Rightarrow> bool" where
  "has_type h t m \<longleftrightarrow> header_of m = h \<and> (case ticker_of m of Some k \<Rightarrow> k = t | None \<Rightarrow> True)"

text \<open>A typing judgement for parsers, with one rule per combinator: every result satisfies a predicate.\<close>

definition yields :: "('a \<Rightarrow> bool) \<Rightarrow> 'a parser \<Rightarrow> bool" where
  "yields P m \<longleftrightarrow> (\<forall>s x t. m s = Inr (x, t) \<longrightarrow> P x)"

lemma yields_bind: "(\<And>x. yields P (f x)) \<Longrightarrow> yields P (sc_bind m f)"
  by (auto simp: yields_def sc_bind_Inr_iff)

lemma yields_return: "P x \<Longrightarrow> yields P (sc_return x)"
  by (simp add: yields_def)

lemma yields_fail: "yields P (sc_fail e)"
  by (simp add: yields_def)

lemma yields_if: "(b \<Longrightarrow> yields P m) \<Longrightarrow> (\<not> b \<Longrightarrow> yields P n) \<Longrightarrow> yields P (if b then m else n)"
  by simp

lemmas yields_rules = yields_bind yields_return yields_fail yields_if

lemma run_yields:
  assumes "sc_run (sc_bind (required a) (\<lambda>h. sc_bind (required b) g)) frame = Inr m"
    and "split_on (CHR '':'') frame = h # t # ts" and "yields (has_type c t) (g t)"
  shows "has_type c t m"
  using assms by (auto simp: sc_run_Inr_iff sc_bind_Inr_iff required_Inr_iff yields_def)

lemma parser_types:
  assumes "split_on (CHR '':'') frame = h # t # ts"
  shows "sqt_parse frame = Inr m \<Longrightarrow> has_type ''T'' t m" "bqt_parse frame = Inr m \<Longrightarrow> has_type ''B'' t m"
    "sab_parse frame = Inr m \<Longrightarrow> has_type ''Z'' t m" "gqt_parse frame = Inr m \<Longrightarrow> has_type ''V'' t m"
    "nem_parse frame = Inr m \<Longrightarrow> has_type ''O'' t m" "vap_parse frame = Inr m \<Longrightarrow> has_type ''VAP'' t m"
    "gtc_parse frame = Inr m \<Longrightarrow> has_type ''GTC'' t m" "mqc_parse frame = Inr m \<Longrightarrow> has_type ''C'' t m"
    "gpn_parse frame = Inr m \<Longrightarrow> has_type ''G'' t m" "error_parse frame = Inr m \<Longrightarrow> has_type ''E'' t m"
  unfolding sqt_parse_def bqt_parse_def sab_parse_def gqt_parse_def nem_parse_def vap_parse_def vap_data_def
    gtc_parse_def mqc_parse_def gpn_parse_def error_parse_def
  by (erule run_yields [OF _ assms], (rule yields_rules)+, simp add: has_type_def vap_terminator_def,
      ((rule yields_rules)+, simp add: has_type_def)?)+

lemma parse_frame_Inr:
  assumes "parse_frame k frame = Inr m"
  obtains h t ts p where "split_on (CHR '':'') frame = h # t # ts" "map_of frame_parsers h = Some p" "p frame = Inr m"
proof -
  have ne: "frame \<noteq> []" using assms by (auto simp: parse_frame_def)
  obtain h rest where h: "split_on (CHR '':'') frame = h # rest" by (metis list.exhaust split_on_nonempty)
  with assms ne obtain t ts where "rest = t # ts"
    by (cases rest) (auto simp: parse_frame_no_separator)
  with assms h that show ?thesis
    by (auto simp: parse_frame_table split: option.splits)
qed

section \<open>Properties\<close>

text \<open>The dispatcher is total and unambiguous: it looks the first field up in the table of the
  ten headers and runs that header's parser on the whole frame; an empty frame, a frame without
  a separator and any other first field are errors. In particular \<open>VAP:\<close> never reaches the trade
  parser, \<open>GTC:\<close> never the broker parser, and each parser's header assertion holds.\<close>

lemma parse_frame_dispatch:
  "parse_frame kind frame =
     (if frame = [] then Inl PE_Empty
      else case split_on (CHR '':'') frame of
        h # t # ts \<Rightarrow>
          (case map_of frame_parsers h of Some p \<Rightarrow> p frame | None \<Rightarrow> Inl (PE_UnknownHeader frame))
      | _ \<Rightarrow> Inl (PE_UnknownHeader frame))"
proof (cases "frame = []")
  case True
  then show ?thesis by (simp add: parse_frame_def)
next
  case False
  obtain h rest where "split_on (CHR '':'') frame = h # rest"
    by (metis list.exhaust split_on_nonempty)
  with False show ?thesis
    by (cases rest) (simp_all add: parse_frame_table parse_frame_no_separator)
qed

text \<open>C18. Parsing is well typed: a message comes only from the frame of its own kind (its constructor is
  the one of the frame's first field) and, for the five kinds that carry a ticker, the ticker is
  the frame's second field, byte for byte. So no frame can touch the book, the quote or the trades
  of a ticker it does not name.\<close>

theorem parse_frame_typed:
  assumes "parse_frame k frame = Inr m"
  shows "\<exists>t ts. split_on (CHR '':'') frame = header_of m # t # ts \<and>
           (case ticker_of m of Some ticker \<Rightarrow> ticker = t | None \<Rightarrow> True)"
proof -
  from assms obtain h t ts p where f: "split_on (CHR '':'') frame = h # t # ts"
    "map_of frame_parsers h = Some p" "p frame = Inr m" by (rule parse_frame_Inr)
  with parser_types [OF f(1)] have "has_type h t m"
    by (auto simp: frame_parsers_def split: if_splits)
  with f(1) show ?thesis by (simp add: has_type_def)
qed

theorem parse_frame_typed_witness:
  "\<exists>t ts. split_on (CHR '':'') ''T:PETR4:101758'' = header_of (PM_Quote ''PETR4'' 101758 []) # t # ts \<and>
     (case ticker_of (PM_Quote ''PETR4'' 101758 []) of Some ticker \<Rightarrow> ticker = t | None \<Rightarrow> True)"
proof (rule parse_frame_typed)
  show "parse_frame Bang ''T:PETR4:101758'' = Inr (PM_Quote ''PETR4'' 101758 [])"
    by (simp add: parse_frame_table frame_parsers_def sqt_parse_fields parse_u32_eq is_digit_def byte_in_def
        dec_value_def digit_val_def)
qed

end
