(* ===== verification/Order_Book.thy ===== *)
theory Order_Book
  imports Types
begin

text \<open>
  \<^verbatim>\<open>crates/market-engine/src/book/order_book.rs\<close>: the book of one ticker. The state is the source's:
  two vectors, the index from order ids to side and position, and the flag of the initial
  snapshot. \<open>spec_apply\<close> is the contract, a book of two lists without an index; \<open>index_ok\<close> says that
  the index is the inverse of the vectors, and \<open>fresh_op\<close> what the feed must promise for it.
\<close>

named_theorems book_defs \<open>operations of the order book\<close>

section \<open>State and operations\<close>

record OrderBookStats =
  st_bids :: usize
  st_asks :: usize

record OrderBook =
  ob_bids :: "BookEntry list"
  ob_asks :: "BookEntry list"
  ob_by_order_id :: "bytes \<rightharpoonup> Side \<times> usize"
  ob_initialised :: bool

definition OrderBook_default :: OrderBook where
  "OrderBook_default =
     \<lparr>ob_bids = [], ob_asks = [], ob_by_order_id = Map.empty, ob_initialised = False\<rparr>"

text \<open>\<open>vec_mut\<close> is a mutable borrow of one side: reading it is \<open>vec_of\<close>, and \<open>vec_mut f\<close> is a
  mutation \<open>f\<close> through the borrow.\<close>

definition vec_of :: "Side \<Rightarrow> OrderBook \<Rightarrow> BookEntry list" where
  "vec_of side b = (case side of Buy \<Rightarrow> ob_bids b | Sell \<Rightarrow> ob_asks b)"

definition vec_mut :: "Side \<Rightarrow> (BookEntry list \<Rightarrow> BookEntry list) \<Rightarrow> OrderBook \<Rightarrow> OrderBook" where
  "vec_mut side f b =
     (case side of Buy \<Rightarrow> b\<lparr>ob_bids := f (ob_bids b)\<rparr> | Sell \<Rightarrow> b\<lparr>ob_asks := f (ob_asks b)\<rparr>)"

definition shift_index :: "Side \<Rightarrow> usize \<Rightarrow> int \<Rightarrow> Side \<times> usize \<Rightarrow> Side \<times> usize" where
  "shift_index side from by' = (\<lambda>(s, i).
     if s = side \<and> from \<le> i then
       (let new = int i + by' in if 0 \<le> new then (s, nat new) else (s, i))
     else (s, i))"

definition shift_indices_after :: "Side \<Rightarrow> usize \<Rightarrow> int \<Rightarrow> OrderBook \<Rightarrow> OrderBook" where
  "shift_indices_after side from by' b =
     b\<lparr>ob_by_order_id := (\<lambda>k. map_option (shift_index side from by') (ob_by_order_id b k))\<rparr>"

definition index_insert :: "bytes option \<Rightarrow> Side \<times> usize \<Rightarrow> OrderBook \<Rightarrow> OrderBook" where
  "index_insert oid v b =
     (case oid of None \<Rightarrow> b | Some k \<Rightarrow> b\<lparr>ob_by_order_id := (ob_by_order_id b)(k \<mapsto> v)\<rparr>)"

definition index_remove :: "bytes option \<Rightarrow> OrderBook \<Rightarrow> OrderBook" where
  "index_remove oid b =
     (case oid of None \<Rightarrow> b | Some k \<Rightarrow> b\<lparr>ob_by_order_id := (ob_by_order_id b)(k := None)\<rparr>)"

definition book_add :: "BookEntry \<Rightarrow> OrderBook \<Rightarrow> OrderBook" where
  [book_defs]: "book_add entry b =
     (let side = be_side entry;
          pos = unat (be_position entry);
          b1 = (if length (vec_of side b) \<le> pos then vec_mut side (\<lambda>v. v @ [entry]) b
                else shift_indices_after side pos 1 (vec_mut side (insert_at pos entry) b));
          idx = min pos (length (vec_of side b1) - 1)
      in index_insert (be_order_id entry) (side, idx) b1)"

definition book_update :: "u32 \<Rightarrow> BookEntry \<Rightarrow> OrderBook \<Rightarrow> OrderBook" where
  [book_defs]: "book_update old_pos' entry b =
     (let side = be_side entry;
          new_pos = unat (be_position entry);
          old_pos = unat old_pos'
      in if length (vec_of side b) \<le> old_pos then book_add entry b
         else
           let removed = vec_of side b ! old_pos;
               b1 = shift_indices_after side old_pos (- 1) (vec_mut side (remove_at old_pos) b);
               b2 = index_remove (be_order_id removed) b1;
               b3 = (if length (vec_of side b2) \<le> new_pos then vec_mut side (\<lambda>v. v @ [entry]) b2
                     else shift_indices_after side new_pos 1 (vec_mut side (insert_at new_pos entry) b2));
               final_pos = min new_pos (length (vec_of side b3) - 1)
           in index_insert (be_order_id entry) (side, final_pos) b3)"

definition book_delete :: "BookDelete \<Rightarrow> OrderBook \<Rightarrow> OrderBook" where
  [book_defs]: "book_delete d b =
     (case d of
        BD_Single side position \<Rightarrow>
          let pos = unat position
          in if pos < length (vec_of side b) then
               let removed = vec_of side b ! pos;
                   b1 = shift_indices_after side pos (- 1) (vec_mut side (remove_at pos) b)
               in index_remove (be_order_id removed) b1
             else b
      | BD_PrefixInclusive side position \<Rightarrow>
          let pos = unat position;
              end' = min (pos + 1) (length (vec_of side b));
              drained = take end' (vec_of side b);
              b1 = vec_mut side (drop end') b;
              b2 = fold (\<lambda>e. index_remove (be_order_id e)) drained b1
          in shift_indices_after side 0 (- int end') b2
      | BD_ClearAll \<Rightarrow>
          b\<lparr>ob_bids := [], ob_asks := [], ob_by_order_id := Map.empty\<rparr>)"

definition book_apply :: "BookOp \<Rightarrow> OrderBook \<Rightarrow> bool \<times> OrderBook" where
  [book_defs]: "book_apply op b =
     (let b' = (case op of
          BO_Add entry \<Rightarrow> book_add entry b
        | BO_Update old_pos entry \<Rightarrow> book_update old_pos entry b
        | BO_Delete d \<Rightarrow> book_delete d b
        | BO_EndOfInitial \<Rightarrow> b\<lparr>ob_initialised := True\<rparr>)
      in (ob_initialised b', b'))"

definition stats :: "OrderBook \<Rightarrow> OrderBookStats" where
  "stats b = \<lparr>st_bids = length (ob_bids b), st_asks = length (ob_asks b)\<rparr>"

definition best_bid :: "OrderBook \<Rightarrow> BookEntry option" where
  "best_bid b = (case ob_bids b of [] \<Rightarrow> None | e # _ \<Rightarrow> Some e)"

definition best_ask :: "OrderBook \<Rightarrow> BookEntry option" where
  "best_ask b = (case ob_asks b of [] \<Rightarrow> None | e # _ \<Rightarrow> Some e)"

definition is_initialised :: "OrderBook \<Rightarrow> bool" where
  "is_initialised b = ob_initialised b"

section \<open>Projections\<close>

lemma vec_of_simps [simp]:
  "vec_of Buy b = ob_bids b" "vec_of Sell b = ob_asks b"
  by (simp_all add: vec_of_def)

lemma vec_of_vec_mut [simp]:
  "vec_of s (vec_mut side f b) = (if s = side then f (vec_of s b) else vec_of s b)"
  by (cases s; cases side) (simp_all add: vec_mut_def)

lemma vec_of_index_ops [simp]:
  "vec_of s (shift_indices_after side from by' b) = vec_of s b"
  "vec_of s (index_insert oid v b) = vec_of s b"
  "vec_of s (index_remove oid b) = vec_of s b"
  by (cases s; simp add: shift_indices_after_def index_insert_def index_remove_def split: option.split)+

lemma initialised_ops [simp]:
  "ob_initialised (vec_mut side f b) = ob_initialised b"
  "ob_initialised (shift_indices_after side from by' b) = ob_initialised b"
  "ob_initialised (index_insert oid v b) = ob_initialised b"
  "ob_initialised (index_remove oid b) = ob_initialised b"
  by (simp_all add: vec_mut_def shift_indices_after_def index_insert_def index_remove_def
      split: option.split Side.split)

lemma index_ops [simp]:
  "ob_by_order_id (vec_mut side f b) = ob_by_order_id b"
  "ob_by_order_id (shift_indices_after side from by' b) =
     (\<lambda>k. map_option (shift_index side from by') (ob_by_order_id b k))"
  "ob_by_order_id (index_insert oid v b) =
     (case oid of None \<Rightarrow> ob_by_order_id b | Some k \<Rightarrow> (ob_by_order_id b)(k \<mapsto> v))"
  "ob_by_order_id (index_remove oid b) =
     (case oid of None \<Rightarrow> ob_by_order_id b | Some k \<Rightarrow> (ob_by_order_id b)(k := None))"
  by (simp_all add: vec_mut_def shift_indices_after_def index_insert_def index_remove_def
      split: option.split Side.split)

lemma fold_index_remove [simp]:
  "vec_of s (fold (\<lambda>e. index_remove (be_order_id e)) es b) = vec_of s b"
  "ob_initialised (fold (\<lambda>e. index_remove (be_order_id e)) es b) = ob_initialised b"
  by (induction es arbitrary: b) simp_all

lemma fold_index_remove_index:
  "ob_by_order_id (fold (\<lambda>e. index_remove (be_order_id e)) es b) =
     (\<lambda>k. if Some k \<in> be_order_id ` set es then None else ob_by_order_id b k)"
  by (induction es arbitrary: b) (auto simp: fun_eq_iff split: option.split)

lemma index_update [simp]:
  "vec_of s (b\<lparr>ob_initialised := i\<rparr>) = vec_of s b"
  "vec_of s (b\<lparr>ob_bids := [], ob_asks := [], ob_by_order_id := m\<rparr>) = []"
  by (cases s; simp)+

section \<open>The contract: a book of two lists\<close>

text \<open>The abstract book gives the resting orders of each side in the server's order. An add
  inserts at a position, clamped to the end; an update is a removal and an insertion, or an
  insertion alone when the old position does not exist; a prefix delete drops positions up to
  and including the given one.\<close>

record book_spec =
  sp_orders :: "Side \<Rightarrow> BookEntry list"
  sp_ready :: bool

definition place :: "BookEntry \<Rightarrow> BookEntry list \<Rightarrow> BookEntry list" where
  "place e xs = insert_at (min (unat (be_position e)) (length xs)) e xs"

definition spec_side :: "BookOp \<Rightarrow> Side \<Rightarrow> BookEntry list \<Rightarrow> BookEntry list" where
  "spec_side op s xs =
     (case op of
        BO_Add e \<Rightarrow> if be_side e = s then place e xs else xs
      | BO_Update old e \<Rightarrow>
          if be_side e \<noteq> s then xs
          else if unat old < length xs then place e (remove_at (unat old) xs) else place e xs
      | BO_Delete (BD_Single sd p) \<Rightarrow> if sd = s \<and> unat p < length xs then remove_at (unat p) xs else xs
      | BO_Delete (BD_PrefixInclusive sd p) \<Rightarrow> if sd = s then drop (unat p + 1) xs else xs
      | BO_Delete BD_ClearAll \<Rightarrow> []
      | BO_EndOfInitial \<Rightarrow> xs)"

definition spec_apply :: "BookOp \<Rightarrow> book_spec \<Rightarrow> book_spec" where
  "spec_apply op a =
     \<lparr>sp_orders = (\<lambda>s. spec_side op s (sp_orders a s)), sp_ready = (sp_ready a \<or> op = BO_EndOfInitial)\<rparr>"

definition book_abs :: "OrderBook \<Rightarrow> book_spec" where
  "book_abs b = \<lparr>sp_orders = (\<lambda>s. vec_of s b), sp_ready = ob_initialised b\<rparr>"

lemma book_add_vec:
  "vec_of s (book_add e b) = (if s = be_side e then place e (vec_of s b) else vec_of s b)"
  by (auto simp: book_add_def Let_def place_def min_def)

text \<open>Taking out one order, as update and single delete do; the second half of an update is an
  add.\<close>

definition take_order :: "Side \<Rightarrow> usize \<Rightarrow> OrderBook \<Rightarrow> OrderBook" where
  "take_order side pos b =
     index_remove (be_order_id (vec_of side b ! pos))
       (shift_indices_after side pos (- 1) (vec_mut side (remove_at pos) b))"

lemma book_update_eq:
  "book_update old e b =
     book_add e (if unat old < length (vec_of (be_side e) b) then take_order (be_side e) (unat old) b else b)"
  by (simp add: book_update_def book_add_def take_order_def Let_def)

lemma book_delete_single_eq:
  "book_delete (BD_Single side p) b =
     (if unat p < length (vec_of side b) then take_order side (unat p) b else b)"
  by (simp add: book_delete_def take_order_def Let_def)

lemma vec_of_take_order [simp]:
  "vec_of s (take_order side pos b) = (if s = side then remove_at pos (vec_of s b) else vec_of s b)"
  by (simp add: take_order_def)

lemma book_update_vec:
  "vec_of s (book_update old e b) = spec_side (BO_Update old e) s (vec_of s b)"
  by (simp add: book_update_eq spec_side_def book_add_vec)

lemma book_delete_vec:
  "vec_of s (book_delete d b) = spec_side (BO_Delete d) s (vec_of s b)"
  by (auto simp: book_delete_def spec_side_def Let_def min_def split: BookDelete.split)

lemma book_ops_initialised [simp]:
  "ob_initialised (book_add e b) = ob_initialised b"
  "ob_initialised (book_update old e b) = ob_initialised b"
  "ob_initialised (book_delete d b) = ob_initialised b"
  by (simp_all add: book_add_def book_update_def book_delete_def Let_def split: BookDelete.split)

lemma vec_of_book_apply: "vec_of s (snd (book_apply op b)) = spec_side op s (vec_of s b)"
  by (cases op)
     (simp_all add: book_apply_def Let_def book_add_vec book_update_vec book_delete_vec,
      simp_all add: spec_side_def)

lemma book_apply_refines:
  "book_abs (snd (book_apply op b)) = spec_apply op (book_abs b) \<and>
   fst (book_apply op b) = sp_ready (spec_apply op (book_abs b))"
proof -
  have "ob_initialised (snd (book_apply op b)) = (ob_initialised b \<or> op = BO_EndOfInitial)"
    by (cases op) (simp_all add: book_apply_def Let_def)
  then show ?thesis
    by (simp add: book_abs_def spec_apply_def vec_of_book_apply)
       (simp add: book_apply_def Let_def)
qed

section \<open>The index\<close>

text \<open>The index is the inverse of the vectors: an id is mapped to a side and position exactly when
  the order there carries it. Each order lies on its own side.\<close>

definition index_ok :: "OrderBook \<Rightarrow> bool" where
  "index_ok b \<longleftrightarrow>
     (\<forall>k s i. ob_by_order_id b k = Some (s, i) \<longleftrightarrow>
              i < length (vec_of s b) \<and> be_order_id (vec_of s b ! i) = Some k)"

definition sides_ok :: "OrderBook \<Rightarrow> bool" where
  "sides_ok b \<longleftrightarrow> (\<forall>s. \<forall>e \<in> set (vec_of s b). be_side e = s)"

text \<open>The id of a new order is not that of an order resting in the book; an update may keep the id
  of the order it replaces.\<close>

definition has_id :: "bytes \<Rightarrow> OrderBook \<Rightarrow> bool" where
  "has_id k b \<longleftrightarrow> (\<exists>s. \<exists>e \<in> set (vec_of s b). be_order_id e = Some k)"

fun fresh_op :: "BookOp \<Rightarrow> OrderBook \<Rightarrow> bool" where
  "fresh_op (BO_Add e) b \<longleftrightarrow> (\<forall>k. be_order_id e = Some k \<longrightarrow> \<not> has_id k b)"
| "fresh_op (BO_Update old e) b \<longleftrightarrow>
     (\<forall>k. be_order_id e = Some k \<longrightarrow>
        \<not> has_id k (if unat old < length (vec_of (be_side e) b)
                     then take_order (be_side e) (unat old) b else b))"
| "fresh_op (BO_Delete d) b \<longleftrightarrow> True"
| "fresh_op BO_EndOfInitial b \<longleftrightarrow> True"

lemma index_okD: "index_ok b \<Longrightarrow> ob_by_order_id b k = Some (s, i) \<longleftrightarrow>
    i < length (vec_of s b) \<and> be_order_id (vec_of s b ! i) = Some k"
  by (simp add: index_ok_def)

lemma index_ok_unique:
  assumes "index_ok b" and "i < length (vec_of s b)" and "be_order_id (vec_of s b ! i) = Some k"
    and "j < length (vec_of t b)" and "be_order_id (vec_of t b ! j) = Some k"
  shows "t = s \<and> j = i"
  using assms by (metis index_okD option.inject prod.inject)

lemma has_id_index: "index_ok b \<Longrightarrow> \<not> has_id k b \<longleftrightarrow> ob_by_order_id b k = None"
  by (metis has_id_def in_set_conv_nth index_okD not_None_eq surj_pair)

lemma index_ok_take_order:
  assumes ok: "index_ok b" and pos: "pos < length (vec_of side b)"
  shows "index_ok (take_order side pos b)"
  unfolding index_ok_def
proof (intro allI)
  fix k s i
  let ?m = "ob_by_order_id b k" and ?rid = "be_order_id (vec_of side b ! pos)"
  let ?b = "take_order side pos b" and ?old = "if s = side \<and> pos \<le> i then Suc i else i"
  have lookup: "ob_by_order_id ?b k =
      (if ?rid = Some k then None else map_option (shift_index side pos (- 1)) ?m)"
    by (simp add: take_order_def split: option.split)
  have len: "i < length (vec_of s ?b) \<longleftrightarrow> ?old < length (vec_of s b) \<and> (s, ?old) \<noteq> (side, pos)"
    using pos by auto
  have nth: "vec_of s ?b ! i = vec_of s b ! ?old" if "i < length (vec_of s ?b)"
    using that pos by (auto simp: nth_remove_at)
  have rhs: "i < length (vec_of s ?b) \<and> be_order_id (vec_of s ?b ! i) = Some k \<longleftrightarrow>
      ?m = Some (s, ?old) \<and> (s, ?old) \<noteq> (side, pos)"
    using len nth index_okD [OF ok, of k s ?old] by auto
  show "ob_by_order_id ?b k = Some (s, i) \<longleftrightarrow>
      i < length (vec_of s ?b) \<and> be_order_id (vec_of s ?b ! i) = Some k"
  proof (cases "?rid = Some k")
    case True
    with index_okD [OF ok, of k side pos] pos have "?m = Some (side, pos)" by simp
    then have "?m = Some (s, ?old) \<Longrightarrow> (s, ?old) = (side, pos)"
      using option.inject by metis
    with rhs have "\<not> (i < length (vec_of s ?b) \<and> be_order_id (vec_of s ?b ! i) = Some k)" by blast
    with True lookup show ?thesis by simp
  next
    case False
    with index_okD [OF ok, of k side pos] have "?m \<noteq> Some (side, pos)" by simp
    with False lookup rhs show ?thesis
      by (cases ?m) (auto simp: shift_index_def Let_def split: prod.splits if_splits)
  qed
qed

lemma book_add_lookup:
  fixes b e
  defines "p \<equiv> min (unat (be_position e)) (length (vec_of (be_side e) b))"
  assumes "index_ok b"
  shows "ob_by_order_id (book_add e b) k =
    (if be_order_id e = Some k then Some (be_side e, p) else map_option (shift_index (be_side e) p 1) (ob_by_order_id b k))"
proof -
  have "j < length (vec_of (be_side e) b)" if "ob_by_order_id b k = Some (be_side e, j)" for j
    using that index_okD [OF assms(2)] by blast
  then show ?thesis
    by (cases "ob_by_order_id b k"; cases "be_order_id e")
       (auto simp: book_add_def Let_def shift_index_def p_def min_def split: prod.splits)
qed

lemma index_ok_add:
  assumes ok: "index_ok b" and fresh: "fresh_op (BO_Add e) b"
  shows "index_ok (book_add e b)"
  unfolding index_ok_def
proof (intro allI)
  fix k s i
  let ?m = "ob_by_order_id b k" and ?side = "be_side e" and ?b = "book_add e b"
  define p where "p = min (unat (be_position e)) (length (vec_of ?side b))"
  let ?old = "if s = ?side \<and> p < i then i - 1 else i"
  have lookup: "ob_by_order_id ?b k =
      (if be_order_id e = Some k then Some (?side, p) else map_option (shift_index ?side p 1) ?m)"
    unfolding p_def by (rule book_add_lookup [OF ok])
  have p_le: "p \<le> length (vec_of ?side b)" by (simp add: p_def)
  have vec: "vec_of s ?b = (if s = ?side then insert_at p e (vec_of s b) else vec_of s b)"
    by (simp add: book_add_vec place_def p_def)
  have len: "i < length (vec_of s ?b) \<longleftrightarrow> ?old < length (vec_of s b) \<or> (s, i) = (?side, p)"
    using p_le by (auto simp: vec)
  have nth: "vec_of s ?b ! i = (if (s, i) = (?side, p) then e else vec_of s b ! ?old)"
    if "i < length (vec_of s ?b)"
    using that p_le by (auto simp: vec nth_insert_at)
  have rhs: "i < length (vec_of s ?b) \<and> be_order_id (vec_of s ?b ! i) = Some k \<longleftrightarrow>
      (if (s, i) = (?side, p) then be_order_id e = Some k else ?m = Some (s, ?old))"
    using len nth index_okD [OF ok, of k s ?old] by (metis (no_types, lifting))
  show "ob_by_order_id ?b k = Some (s, i) \<longleftrightarrow>
      i < length (vec_of s ?b) \<and> be_order_id (vec_of s ?b ! i) = Some k"
  proof (cases "be_order_id e = Some k")
    case True
    with fresh have "?m = None" using has_id_index [OF ok] by simp
    with True lookup rhs show ?thesis by auto
  next
    case False
    show ?thesis
    proof (cases ?m)
      case None
      with False lookup rhs show ?thesis by auto
    next
      case (Some r)
      obtain t j where r: "r = (t, j)" by (cases r)
      have "(if t = ?side \<and> p \<le> j then Suc j else j) = i \<longleftrightarrow> j = ?old \<and> (s, i) \<noteq> (?side, p)"
        if "t = s" using that by auto
      with False lookup rhs Some r show ?thesis
        by (auto simp: shift_index_def Let_def nat_add_distrib)
    qed
  qed
qed

lemma index_ok_prefix:
  assumes ok: "index_ok b"
  shows "index_ok (book_delete (BD_PrefixInclusive side p) b)"
  unfolding index_ok_def
proof (intro allI)
  fix k s i
  let ?m = "ob_by_order_id b k" and ?b = "book_delete (BD_PrefixInclusive side p) b"
  define n where "n = min (unat p + 1) (length (vec_of side b))"
  let ?old = "if s = side then i + n else i"
  let ?gone = "Some k \<in> be_order_id ` set (take n (vec_of side b))"
  have lookup: "ob_by_order_id ?b k =
      (if ?gone then None else map_option (shift_index side 0 (- int n)) ?m)"
    by (simp add: book_delete_def Let_def fold_index_remove_index n_def)
  have vec: "vec_of s ?b = (if s = side then drop n (vec_of s b) else vec_of s b)"
    by (simp add: book_delete_def Let_def n_def)
  have rhs: "i < length (vec_of s ?b) \<and> be_order_id (vec_of s ?b ! i) = Some k \<longleftrightarrow> ?m = Some (s, ?old)"
    using index_okD [OF ok, of k s ?old] by (auto simp: vec add.commute)
  have n_le: "n \<le> length (vec_of side b)" by (simp add: n_def)
  have gone: "?gone \<longleftrightarrow> (\<exists>j < n. ?m = Some (side, j))"
    unfolding nth_image [OF n_le, symmetric] index_okD [OF ok]
    using n_le by (auto simp: image_iff) (metis atLeastLessThan_iff less_eq_nat.simps(1))
  show "ob_by_order_id ?b k = Some (s, i) \<longleftrightarrow>
      i < length (vec_of s ?b) \<and> be_order_id (vec_of s ?b ! i) = Some k"
    using lookup rhs gone
    by (cases ?m) (auto simp: shift_index_def Let_def split: prod.splits if_splits)
qed

section \<open>Invariant of reachable books\<close>

lemma index_ok_apply:
  assumes "index_ok b" and "fresh_op op b"
  shows "index_ok (snd (book_apply op b))"
proof (cases op)
  case (BO_Add e)
  with assms index_ok_add show ?thesis by (simp add: book_apply_def Let_def)
next
  case (BO_Update old e)
  let ?b = "if unat old < length (vec_of (be_side e) b) then take_order (be_side e) (unat old) b else b"
  have "index_ok ?b" using assms(1) by (simp add: index_ok_take_order)
  moreover have "fresh_op (BO_Add e) ?b" using assms(2) BO_Update by simp
  ultimately have "index_ok (book_add e ?b)" by (rule index_ok_add)
  with BO_Update show ?thesis by (simp add: book_apply_def Let_def book_update_eq)
next
  case (BO_Delete d)
  with assms index_ok_take_order index_ok_prefix show ?thesis
    by (cases d)
       (simp_all add: book_apply_def Let_def book_delete_single_eq,
        simp_all add: book_delete_def index_ok_def)
next
  case BO_EndOfInitial
  with assms(1) show ?thesis by (simp add: book_apply_def index_ok_def)
qed

lemma set_remove_at: "set (remove_at i xs) \<subseteq> set xs"
  by (auto simp: remove_at_def dest: in_set_takeD in_set_dropD)

lemma spec_side_ok:
  assumes "\<forall>e \<in> set xs. be_side e = s"
  shows "\<forall>e \<in> set (spec_side op s xs). be_side e = s"
  using assms set_remove_at [of _ xs]
  by (auto simp: spec_side_def place_def split: BookOp.splits BookDelete.splits if_splits
      dest: in_set_dropD)

lemma sides_ok_apply: "sides_ok b \<Longrightarrow> sides_ok (snd (book_apply op b))"
  unfolding sides_ok_def vec_of_book_apply using spec_side_ok by blast

text \<open>The books a feed can build when it never reuses the id of a resting order.\<close>

inductive reachable_book :: "OrderBook \<Rightarrow> bool" where
  initial: "reachable_book OrderBook_default"
| step: "reachable_book b \<Longrightarrow> fresh_op op b \<Longrightarrow> reachable_book (snd (book_apply op b))"

inductive_cases reachable_bookE: "reachable_book b"

lemma reachable_book_ok: "reachable_book b \<Longrightarrow> index_ok b \<and> sides_ok b"
proof (induction rule: reachable_book.induct)
  case initial
  then show ?case by (simp add: index_ok_def sides_ok_def OrderBook_default_def vec_of_def split: Side.split)
next
  case (step b op)
  then show ?case by (simp add: index_ok_apply sides_ok_apply)
qed

definition book_run :: "BookOp list \<Rightarrow> OrderBook \<Rightarrow> OrderBook" where
  "book_run ops b = fold (\<lambda>op b. snd (book_apply op b)) ops b"

lemma book_run_refines: "book_abs (book_run ops b) = fold spec_apply ops (book_abs b)"
  unfolding book_run_def by (induction ops arbitrary: b) (simp_all add: book_apply_refines)

section \<open>Properties\<close>

text \<open>C5. The order book implements a book of two lists. After any sequence of operations, from any
  book, the bids, the asks and the ready flag are those of the contract, whatever the index of
  order ids holds; and each call returns whether the contract's book is ready.\<close>

theorem order_book_refines_lists:
  "book_abs (book_run ops b) = fold spec_apply ops (book_abs b) \<and>
   fst (book_apply op (book_run ops b)) = sp_ready (spec_apply op (fold spec_apply ops (book_abs b)))"
  using book_run_refines [of ops b] book_apply_refines [of op "book_run ops b"] by simp

text \<open>C4. As long as the feed gives a new order an id that no resting order has, the index of order
  ids is exact in every reachable book: it maps an id to a side and a position exactly when the
  order at that position carries the id, so no entry is stale and none is missing, and no two
  resting orders share an id. Every order lies on the side it was sent for.\<close>

theorem order_index_exact:
  assumes "reachable_book b"
  shows "(\<forall>k s i. ob_by_order_id b k = Some (s, i) \<longleftrightarrow>
            i < length (vec_of s b) \<and> be_order_id (vec_of s b ! i) = Some k) \<and>
         (\<forall>s. \<forall>e \<in> set (vec_of s b). be_side e = s)"
  using reachable_book_ok [OF assms] unfolding index_ok_def sides_ok_def .

definition sample_entry :: "u32 \<Rightarrow> Side \<Rightarrow> bytes \<Rightarrow> BookEntry" where
  "sample_entry pos side oid =
     \<lparr>be_position = pos, be_side = side, be_price = 0, be_quantity = 100, be_broker_id = 3,
      be_timestamp_ddmmhhmm = 0, be_order_id = Some oid, be_offer_type = Some (CHR ''L'')\<rparr>"

lemmas book_eval = book_run_def book_apply_def book_add_def book_update_def book_delete_def
  vec_mut_def insert_at_def remove_at_def shift_indices_after_def shift_index_def index_insert_def
  index_remove_def OrderBook_default_def sample_entry_def Let_def

theorem order_index_exact_witness:
  "ob_by_order_id (book_run [BO_Add (sample_entry 0 Buy ''a''), BO_Add (sample_entry 0 Buy ''b'')]
     OrderBook_default) ''a'' = Some (Buy, 1)"
proof -
  let ?b1 = "snd (book_apply (BO_Add (sample_entry 0 Buy ''a'')) OrderBook_default)"
  let ?b2 = "snd (book_apply (BO_Add (sample_entry 0 Buy ''b'')) ?b1)"
  have "reachable_book ?b1"
    by (rule reachable_book.step [OF reachable_book.initial])
       (auto simp: has_id_def OrderBook_default_def vec_of_def split: Side.splits)
  then have "reachable_book ?b2"
    by (rule reachable_book.step)
       (auto simp: has_id_def vec_of_def book_eval split: Side.splits)
  from order_index_exact [OF this] have
    "ob_by_order_id ?b2 ''a'' = Some (Buy, 1) \<longleftrightarrow>
       1 < length (vec_of Buy ?b2) \<and> be_order_id (vec_of Buy ?b2 ! 1) = Some ''a''" by blast
  then show ?thesis by (simp add: book_eval)
qed

text \<open>The freshness is needed, and order ids are unique only per broker, instrument and side:
  when a bid and an ask share an id, deleting the bid also forgets the ask. The ask is still in
  the book at position 0, but the index has no entry for its id.\<close>

lemma order_index_shared_id:
  "let b = book_run [BO_Add (sample_entry 0 Buy ''7''), BO_Add (sample_entry 0 Sell ''7''),
                     BO_Delete (BD_Single Buy 0)] OrderBook_default
   in ob_asks b = [sample_entry 0 Sell ''7''] \<and> ob_by_order_id b ''7'' = None"
  by (simp add: book_eval)

end
