(* ===== verification/Keyed_Engine.thy ===== *)
theory Keyed_Engine
  imports Main
begin

text \<open>
  The interface shared by the market engine's registries (books, quotes, recent trades): a state
  that holds one value per ticker, and an operation on one ticker. The provider promises that an
  operation changes the value of its own ticker only, and by a function of that value; the
  clients' facts say that the value of a ticker is then a function of the ticker's own messages
  in their order, however the messages of other tickers are interleaved with them.
\<close>

definition ops_for :: "'k \<Rightarrow> ('k \<times> 'op) list \<Rightarrow> 'op list" where
  "ops_for k msgs = map snd (filter (\<lambda>m. fst m = k) msgs)"

definition run_keyed :: "('k \<Rightarrow> 'op \<Rightarrow> 's \<Rightarrow> 's) \<Rightarrow> ('k \<times> 'op) list \<Rightarrow> 's \<Rightarrow> 's" where
  "run_keyed f msgs s = fold (\<lambda>(k, op). f k op) msgs s"

lemma ops_for_simps [simp]:
  "ops_for k [] = []"
  "ops_for k ((j, op) # msgs) = (if j = k then op # ops_for k msgs else ops_for k msgs)"
  by (simp_all add: ops_for_def)

lemma run_keyed_simps [simp]:
  "run_keyed f [] s = s"
  "run_keyed f ((k, op) # msgs) s = run_keyed f msgs (f k op s)"
  by (simp_all add: run_keyed_def)

locale keyed_engine =
  fixes view :: "'s \<Rightarrow> 'k \<Rightarrow> 'v option"
    and act :: "'k \<Rightarrow> 'op \<Rightarrow> 's \<Rightarrow> 's"
    and step :: "'k \<Rightarrow> 'op \<Rightarrow> 'v option \<Rightarrow> 'v option"
    and inv :: "'s \<Rightarrow> bool"
  assumes inv_act: "inv s \<Longrightarrow> inv (act k op s)"
    and view_act: "inv s \<Longrightarrow> view (act k op s) = (view s)(k := step k op (view s k))"
begin

lemma inv_run: "inv s \<Longrightarrow> inv (run_keyed act msgs s)"
  by (induction msgs arbitrary: s) (auto simp: inv_act)

lemma view_run: "inv s \<Longrightarrow> view (run_keyed act msgs s) k = fold (step k) (ops_for k msgs) (view s k)"
  by (induction msgs arbitrary: s) (auto simp: inv_act view_act)

lemma interleaving_irrelevant:
  assumes "inv s" and "\<And>k. ops_for k ms = ops_for k ns"
  shows "view (run_keyed act ms s) = view (run_keyed act ns s)"
  using assms by (simp add: fun_eq_iff view_run)

end

end
