(* ===== verification/Book_Engine.thy ===== *)
theory Book_Engine
  imports Order_Book Keyed_Engine
begin

text \<open>
  \<^verbatim>\<open>crates/market-engine/src/shard.rs\<close> and \<^verbatim>\<open>book/engine.rs\<close>: the sharded registry of order books. The
  hash of the \<open>ahash\<close> crate is the parameter \<open>hash\<close>, a function of the ticker's bytes. Each call
  runs under the mutex of one shard, so a call is one atomic step; the mutexes and the read-write
  lock of the filter have no other trace here. The metrics counters are not modelled.
\<close>

section \<open>Routing\<close>

definition shard_for :: "(bytes \<Rightarrow> u64) \<Rightarrow> bytes \<Rightarrow> usize \<Rightarrow> usize" where
  "shard_for hash ticker n_shards = unat (hash ticker) mod n_shards"

text \<open>\<open>FastHasher\<close> builds default hashers, so \<open>shard_with\<close> hashes as \<open>shard_for\<close> does.\<close>

definition shard_with :: "(bytes \<Rightarrow> u64) \<Rightarrow> bytes \<Rightarrow> usize \<Rightarrow> usize" where
  "shard_with builder ticker n_shards = unat (builder ticker) mod n_shards"

section \<open>The engine\<close>

record BookEngine =
  en_shards :: "(bytes \<rightharpoonup> OrderBook) list"
  en_allowed :: "bytes set option"

definition BookEngine_new :: "usize \<Rightarrow> BookEngine" where
  "BookEngine_new n_shards =
     (let n = (if n_shards = 0 then 8 else n_shards)
      in \<lparr>en_shards = replicate n Map.empty, en_allowed = None\<rparr>)"

definition set_allowed :: "bytes set option \<Rightarrow> BookEngine \<Rightarrow> BookEngine" where
  "set_allowed allowed e = e\<lparr>en_allowed := allowed\<rparr>"

definition is_allowed :: "bytes \<Rightarrow> BookEngine \<Rightarrow> bool" where
  "is_allowed ticker e = (case en_allowed e of None \<Rightarrow> True | Some S \<Rightarrow> ticker \<in> S)"

definition or_default :: "OrderBook option \<Rightarrow> OrderBook" where
  "or_default v = (case v of None \<Rightarrow> OrderBook_default | Some b \<Rightarrow> b)"

definition engine_apply :: "(bytes \<Rightarrow> u64) \<Rightarrow> bytes \<Rightarrow> BookOp \<Rightarrow> BookEngine \<Rightarrow> bool \<times> BookEngine" where
  "engine_apply hash ticker op e =
     (if \<not> is_allowed ticker e then (False, e)
      else
        let idx = shard_for hash ticker (length (en_shards e));
            shard = en_shards e ! idx;
            (observable, book) = book_apply op (or_default (shard ticker))
        in (observable, e\<lparr>en_shards := (en_shards e)[idx := shard(ticker \<mapsto> book)]\<rparr>))"

definition with_book :: "(bytes \<Rightarrow> u64) \<Rightarrow> bytes \<Rightarrow> (OrderBook option \<Rightarrow> 'r) \<Rightarrow> BookEngine \<Rightarrow> 'r" where
  "with_book hash ticker f e =
     f ((en_shards e ! shard_for hash ticker (length (en_shards e))) ticker)"

definition engine_len :: "BookEngine \<Rightarrow> usize" where
  "engine_len e = sum_list (map (\<lambda>m. card (dom m)) (en_shards e))"

definition engine_is_empty :: "BookEngine \<Rightarrow> bool" where
  "engine_is_empty e \<longleftrightarrow> engine_len e = 0"

section \<open>The engine as one map from tickers to books\<close>

definition book_view :: "(bytes \<Rightarrow> u64) \<Rightarrow> BookEngine \<Rightarrow> bytes \<rightharpoonup> OrderBook" where
  "book_view hash e ticker = with_book hash ticker (\<lambda>b. b) e"

text \<open>Every book lies in the shard of its ticker, so an index into the shards is in range and no
  ticker is in two of them.\<close>

definition engine_inv :: "(bytes \<Rightarrow> u64) \<Rightarrow> bytes set option \<Rightarrow> BookEngine \<Rightarrow> bool" where
  "engine_inv hash al e \<longleftrightarrow>
     en_shards e \<noteq> [] \<and> en_allowed e = al \<and>
     (\<forall>i < length (en_shards e). finite (dom (en_shards e ! i)) \<and>
        (\<forall>t \<in> dom (en_shards e ! i). shard_for hash t (length (en_shards e)) = i))"

definition book_step :: "bytes set option \<Rightarrow> bytes \<Rightarrow> BookOp \<Rightarrow> OrderBook option \<Rightarrow> OrderBook option" where
  "book_step al ticker op v =
     (if (case al of None \<Rightarrow> True | Some S \<Rightarrow> ticker \<in> S)
      then Some (snd (book_apply op (or_default v))) else v)"

lemma shard_for_less: "en_shards e \<noteq> [] \<Longrightarrow> shard_for hash t (length (en_shards e)) < length (en_shards e)"
  by (simp add: shard_for_def)

lemma engine_inv_new: "engine_inv hash al (set_allowed al (BookEngine_new n))"
  by (simp add: engine_inv_def set_allowed_def BookEngine_new_def)

lemma book_view_new [simp]: "book_view hash (set_allowed al (BookEngine_new n)) t = None"
  using shard_for_less [of "set_allowed al (BookEngine_new n)" hash t]
  by (simp add: book_view_def with_book_def set_allowed_def BookEngine_new_def Let_def)

interpretation book: keyed_engine "book_view hash" "\<lambda>t op e. snd (engine_apply hash t op e)"
  "book_step al" "engine_inv hash al" for hash al
proof
  fix e :: BookEngine and t op
  assume inv: "engine_inv hash al e"
  then have lt: "shard_for hash t (length (en_shards e)) < length (en_shards e)" for t
    by (simp add: engine_inv_def shard_for_less)
  show "engine_inv hash al (snd (engine_apply hash t op e))"
    using inv lt
    by (auto simp: engine_inv_def engine_apply_def Let_def nth_list_update split: prod.split)
  show "book_view hash (snd (engine_apply hash t op e)) =
      (book_view hash e)(t := book_step al t op (book_view hash e t))"
    using inv lt
    by (auto simp: fun_eq_iff engine_inv_def book_view_def with_book_def engine_apply_def
        is_allowed_def book_step_def Let_def nth_list_update split: prod.split)
qed

lemma book_step_run:
  "fold (book_step al t) ops v =
     (if ops = [] \<or> \<not> (case al of None \<Rightarrow> True | Some S \<Rightarrow> t \<in> S) then v
      else Some (book_run ops (or_default v)))"
proof (induction ops arbitrary: v)
  case (Cons op ops)
  then show ?case by (auto simp: book_step_def book_run_def or_default_def)
qed simp

lemma engine_invD:
  "engine_inv hash al e \<Longrightarrow> i < length (en_shards e) \<Longrightarrow> t \<in> dom (en_shards e ! i) \<Longrightarrow>
   shard_for hash t (length (en_shards e)) = i"
  unfolding engine_inv_def by blast

lemma engine_len_view:
  assumes "engine_inv hash al e"
  shows "engine_len e = card (dom (book_view hash e))"
proof -
  let ?n = "length (en_shards e)" and ?d = "\<lambda>i. dom (en_shards e ! i)"
  have "dom (book_view hash e) = (\<Union>i < ?n. ?d i)"
    using assms shard_for_less [of e hash]
    by (fastforce simp: engine_inv_def book_view_def with_book_def dom_def)
  also have "card \<dots> = (\<Sum>i < ?n. card (?d i))"
  proof (rule card_UN_disjoint)
    show "\<forall>i \<in> {..< ?n}. \<forall>j \<in> {..< ?n}. i \<noteq> j \<longrightarrow> ?d i \<inter> ?d j = {}"
    proof (intro ballI impI equals0I)
      fix i j t
      assume "i \<in> {..< ?n}" "j \<in> {..< ?n}" "i \<noteq> j" "t \<in> ?d i \<inter> ?d j"
      with engine_invD [OF assms, of i t] engine_invD [OF assms, of j t] show False by simp
    qed
  qed (use assms in \<open>auto simp: engine_inv_def\<close>)
  also have "\<dots> = engine_len e"
    by (simp add: engine_len_def sum_list_sum_nth atLeast0LessThan)
  finally show ?thesis by simp
qed

section \<open>Properties\<close>

text \<open>C7. Whatever the hash and the number of shards (zero included), after any interleaving of
  operations on any tickers the book of an allowed ticker is the book its own operations build,
  in their order, from an empty book; a ticker that is filtered out or has no operations has no
  book. Sharding is invisible.\<close>

theorem book_engine_isolates_tickers:
  "with_book hash t f
     (run_keyed (\<lambda>t op e. snd (engine_apply hash t op e)) msgs (set_allowed al (BookEngine_new n))) =
   f (if ops_for t msgs \<noteq> [] \<and> (case al of None \<Rightarrow> True | Some S \<Rightarrow> t \<in> S)
      then Some (book_run (ops_for t msgs) OrderBook_default) else None)"
proof -
  let ?e = "run_keyed (\<lambda>t op e. snd (engine_apply hash t op e)) msgs (set_allowed al (BookEngine_new n))"
  have "with_book hash t f ?e = f (book_view hash ?e t)"
    by (simp add: book_view_def with_book_def)
  also have "book_view hash ?e t = fold (book_step al t) (ops_for t msgs) None"
    using book.view_run [of hash al "set_allowed al (BookEngine_new n)" msgs t] engine_inv_new by simp
  finally show ?thesis by (auto simp: book_step_run or_default_def)
qed

text \<open>The engine's length counts every ticker with a book exactly once: summing the sizes of the
  shards gives the number of tickers that have been applied an allowed operation.\<close>

lemma book_engine_len:
  "engine_len
     (run_keyed (\<lambda>t op e. snd (engine_apply hash t op e)) msgs (set_allowed al (BookEngine_new n))) =
   card {t \<in> fst ` set msgs. case al of None \<Rightarrow> True | Some S \<Rightarrow> t \<in> S}"
proof -
  let ?e = "run_keyed (\<lambda>t op e. snd (engine_apply hash t op e)) msgs (set_allowed al (BookEngine_new n))"
  have "book_view hash ?e t = fold (book_step al t) (ops_for t msgs) None" for t
    using book.view_run [of hash al "set_allowed al (BookEngine_new n)" msgs t] engine_inv_new by simp
  moreover have "ops_for t msgs = [] \<longleftrightarrow> t \<notin> fst ` set msgs" for t
    by (auto simp: ops_for_def filter_empty_conv)
  ultimately have "dom (book_view hash ?e) = {t \<in> fst ` set msgs. case al of None \<Rightarrow> True | Some S \<Rightarrow> t \<in> S}"
    by (auto simp: dom_def book_step_run)
  then show ?thesis
    using engine_len_view [of hash al ?e]
      book.inv_run [of hash al "set_allowed al (BookEngine_new n)" msgs] engine_inv_new by simp
qed

end
