(* ===== verification/Quote_Engine.thy ===== *)
theory Quote_Engine
  imports Types Keyed_Engine
begin

text \<open>
  \<^verbatim>\<open>crates/market-engine/src/quote.rs\<close>: the consolidated quote of each ticker. The \<open>DashMap\<close> locks the
  entry of one ticker during a call, so a call is one atomic step on a map.
\<close>

section \<open>One ticker\<close>

record QuoteState =
  qs_time_hhmmss :: u32
  qs_version :: u64
  qs_fields :: "u16 \<rightharpoonup> QuoteFieldValue"

definition QuoteState_default :: QuoteState where
  "QuoteState_default = \<lparr>qs_time_hhmmss = 0, qs_version = 0, qs_fields = Map.empty\<rparr>"

fun insert_field :: "QuoteFieldId \<times> QuoteFieldValue \<Rightarrow> (u16 \<rightharpoonup> QuoteFieldValue) \<Rightarrow> (u16 \<rightharpoonup> QuoteFieldValue)" where
  "insert_field (QuoteFieldId idx, v) m = m(idx \<mapsto> v)"

definition apply_diff :: "u32 \<Rightarrow> QuoteDiff \<Rightarrow> QuoteState \<Rightarrow> usize \<times> QuoteState" where
  "apply_diff time diff s =
     (length diff,
      s\<lparr>qs_time_hhmmss := time, qs_version := qs_version s + 1,
        qs_fields := fold insert_field diff (qs_fields s)\<rparr>)"

definition quote_get :: "u16 \<Rightarrow> QuoteState \<Rightarrow> QuoteFieldValue option" where
  "quote_get idx s = qs_fields s idx"

section \<open>The engine\<close>

type_synonym QuoteEngine = "bytes \<rightharpoonup> QuoteState"

definition QuoteEngine_new :: QuoteEngine where
  "QuoteEngine_new = Map.empty"

definition quote_or_default :: "QuoteState option \<Rightarrow> QuoteState" where
  "quote_or_default v = (case v of None \<Rightarrow> QuoteState_default | Some s \<Rightarrow> s)"

definition quote_apply :: "bytes \<Rightarrow> u32 \<Rightarrow> QuoteDiff \<Rightarrow> QuoteEngine \<Rightarrow> usize \<times> QuoteEngine" where
  "quote_apply ticker time diff e =
     (case apply_diff time diff (quote_or_default (e ticker)) of
        (updated, s) \<Rightarrow> (updated, e(ticker \<mapsto> s)))"

definition with_state :: "bytes \<Rightarrow> (QuoteState option \<Rightarrow> 'r) \<Rightarrow> QuoteEngine \<Rightarrow> 'r" where
  "with_state ticker f e = (case e ticker of Some s \<Rightarrow> f (Some s) | None \<Rightarrow> f None)"

text \<open>The rows in the map's own order, which is not specified; as a set.\<close>

definition quote_known_tickers :: "QuoteEngine \<Rightarrow> (bytes \<times> u64 \<times> u32) set" where
  "quote_known_tickers e = (\<lambda>t. (t, qs_version (the (e t)), qs_time_hhmmss (the (e t)))) ` dom e"

definition quote_len :: "QuoteEngine \<Rightarrow> usize" where
  "quote_len e = card (dom e)"

definition quote_is_empty :: "QuoteEngine \<Rightarrow> bool" where
  "quote_is_empty e \<longleftrightarrow> dom e = {}"

section \<open>The last update wins\<close>

fun field_pair :: "QuoteFieldId \<times> QuoteFieldValue \<Rightarrow> u16 \<times> QuoteFieldValue" where
  "field_pair (QuoteFieldId idx, v) = (idx, v)"

definition diff_pairs :: "QuoteDiff \<Rightarrow> (u16 \<times> QuoteFieldValue) list" where
  "diff_pairs diff = map field_pair diff"

lemma fold_diff:
  "fold insert_field diff m = m ++ map_of (rev (diff_pairs diff))"
proof (induction diff arbitrary: m)
  case Nil
  then show ?case by (simp add: diff_pairs_def)
next
  case (Cons x diff)
  obtain i v where "x = (QuoteFieldId i, v)"
    by (metis QuoteFieldId.exhaust surj_pair)
  with Cons show ?case
    by (simp add: diff_pairs_def map_add_def fun_eq_iff split: option.split)
qed

definition quote_step :: "bytes \<Rightarrow> u32 \<times> QuoteDiff \<Rightarrow> QuoteState option \<Rightarrow> QuoteState option" where
  "quote_step ticker = (\<lambda>(time, diff) v. Some (snd (apply_diff time diff (quote_or_default v))))"

interpretation quote: keyed_engine "\<lambda>e. e" "\<lambda>t (time, diff) e. snd (quote_apply t time diff e)"
  quote_step "\<lambda>_. True"
  by unfold_locales
     (auto simp: quote_apply_def quote_step_def split: prod.splits)

text \<open>The state a list of messages builds.\<close>

definition quote_after :: "(u32 \<times> QuoteDiff) list \<Rightarrow> QuoteState" where
  "quote_after ms =
     \<lparr>qs_time_hhmmss = (if ms = [] then 0 else fst (last ms)),
      qs_version = word_of_nat (length ms),
      qs_fields = map_of (rev (diff_pairs (concat (map snd ms))))\<rparr>"

lemma quote_after_snoc:
  "quote_after (ms @ [(time, diff)]) = snd (apply_diff time diff (quote_after ms))"
  by (simp add: quote_after_def apply_diff_def fold_diff diff_pairs_def map_add_def fun_eq_iff
      add.commute split: option.split)

lemma quote_steps: "ms \<noteq> [] \<Longrightarrow> fold (quote_step t) ms None = Some (quote_after ms)"
proof (induction ms rule: rev_induct)
  case (snoc m ms)
  obtain time diff where m: "m = (time, diff)" by (cases m)
  have "quote_or_default (fold (quote_step t) ms None) = quote_after ms"
    using snoc.IH by (cases "ms = []")
      (simp_all add: quote_or_default_def quote_after_def QuoteState_default_def diff_pairs_def)
  with m show ?case by (simp add: quote_step_def quote_after_snoc)
qed simp

section \<open>Properties\<close>

text \<open>C24. The quote of a ticker is the consolidation of its own messages: after any interleaving of
  messages for any tickers, every field has the value of the ticker's last update of that field
  (within one message too), the version counts the ticker's messages modulo the word size, the
  time is that of its last message, and a ticker without messages has no quote.\<close>

theorem quote_engine_last_update_wins:
  "with_state t f (run_keyed (\<lambda>t (time, diff) e. snd (quote_apply t time diff e)) msgs QuoteEngine_new) =
     f (if ops_for t msgs = [] then None
        else Some \<lparr>qs_time_hhmmss = fst (last (ops_for t msgs)),
                   qs_version = word_of_nat (length (ops_for t msgs)),
                   qs_fields = map_of (rev (diff_pairs (concat (map snd (ops_for t msgs)))))\<rparr>)"
proof -
  let ?e = "run_keyed (\<lambda>t (time, diff) e. snd (quote_apply t time diff e)) msgs QuoteEngine_new"
  have "?e t = fold (quote_step t) (ops_for t msgs) None"
    using quote.view_run [of msgs QuoteEngine_new t] by (simp add: QuoteEngine_new_def)
  then show ?thesis
    using quote_steps [of "ops_for t msgs" t]
    by (simp add: with_state_def quote_after_def split: option.split)
qed

end
