(* ===== verification/Trade_Buffer.thy ===== *)
theory Trade_Buffer
  imports Types Keyed_Engine
begin

text \<open>
  \<^verbatim>\<open>crates/market-engine/src/trade.rs\<close>: the bounded queue of recent trades of each ticker. A
  \<open>VecDeque\<close> is a list, oldest trade first. The commands the feed sends (push, remove, clear) are
  gathered in \<open>trade_cmd\<close> to speak of sequences of them.
\<close>

section \<open>State and operations\<close>

record TradeRecord =
  rc_time_hhmmss :: u32
  rc_price :: f64
  rc_quantity :: u64
  rc_trade_id :: bytes
  rc_broker_buy_id :: u32
  rc_broker_sell_id :: u32
  rc_condition :: TradeCondition
  rc_aggressor :: TradeAggressor

definition TradeRecord_from :: "Trade \<Rightarrow> TradeRecord" where
  "TradeRecord_from t =
     \<lparr>rc_time_hhmmss = tr_time_hhmmss t, rc_price = tr_price t, rc_quantity = tr_quantity t,
      rc_trade_id = tr_trade_id t, rc_broker_buy_id = tr_broker_buy_id t,
      rc_broker_sell_id = tr_broker_sell_id t, rc_condition = tr_condition t,
      rc_aggressor = tr_aggressor t\<rparr>"

record TradeBuffer =
  tb_per_ticker_capacity :: usize
  tb_inner :: "bytes \<rightharpoonup> TradeRecord list"

definition TradeBuffer_new :: "usize \<Rightarrow> TradeBuffer" where
  "TradeBuffer_new cap = \<lparr>tb_per_ticker_capacity = max cap 1, tb_inner = Map.empty\<rparr>"

definition queue_or_default :: "TradeRecord list option \<Rightarrow> TradeRecord list" where
  "queue_or_default v = (case v of None \<Rightarrow> [] | Some q \<Rightarrow> q)"

text \<open>\<open>VecDeque::pop_front\<close> of an empty deque does nothing, as \<open>tl\<close>.\<close>

definition trade_push :: "bytes \<Rightarrow> TradeRecord \<Rightarrow> TradeBuffer \<Rightarrow> TradeBuffer" where
  "trade_push ticker trade b =
     (let cap = tb_per_ticker_capacity b;
          entry = queue_or_default (tb_inner b ticker);
          entry' = (if length entry = cap then tl entry else entry)
      in b\<lparr>tb_inner := (tb_inner b)(ticker \<mapsto> entry' @ [trade])\<rparr>)"

definition trade_remove :: "bytes \<Rightarrow> bytes \<Rightarrow> TradeBuffer \<Rightarrow> bool \<times> TradeBuffer" where
  "trade_remove ticker trade_id b =
     (case tb_inner b ticker of
        None \<Rightarrow> (False, b)
      | Some entry \<Rightarrow>
          (case find_index (\<lambda>t. rc_trade_id t = trade_id) entry of
             None \<Rightarrow> (False, b)
           | Some pos \<Rightarrow> (True, b\<lparr>tb_inner := (tb_inner b)(ticker \<mapsto> remove_at pos entry)\<rparr>)))"

definition trade_clear :: "bytes \<Rightarrow> TradeBuffer \<Rightarrow> TradeBuffer" where
  "trade_clear ticker b =
     (case tb_inner b ticker of
        None \<Rightarrow> b
      | Some entry \<Rightarrow> b\<lparr>tb_inner := (tb_inner b)(ticker \<mapsto> [])\<rparr>)"

definition trade_snapshot :: "bytes \<Rightarrow> usize \<Rightarrow> TradeBuffer \<Rightarrow> TradeRecord list" where
  "trade_snapshot ticker limit b =
     (case tb_inner b ticker of
        None \<Rightarrow> []
      | Some entry \<Rightarrow>
          let n = min limit (length entry)
          in rev (take n (rev entry)))"

definition len_for :: "bytes \<Rightarrow> TradeBuffer \<Rightarrow> usize" where
  "len_for ticker b = (case tb_inner b ticker of None \<Rightarrow> 0 | Some e \<Rightarrow> length e)"

definition trade_known_tickers :: "TradeBuffer \<Rightarrow> usize" where
  "trade_known_tickers b = card (dom (tb_inner b))"

section \<open>Sequences of commands\<close>

datatype trade_cmd = Push TradeRecord | Remove bytes | Clear

fun trade_act :: "bytes \<Rightarrow> trade_cmd \<Rightarrow> TradeBuffer \<Rightarrow> TradeBuffer" where
  "trade_act t (Push r) b = trade_push t r b"
| "trade_act t (Remove i) b = snd (trade_remove t i b)"
| "trade_act t Clear b = trade_clear t b"

text \<open>The effect on one queue: \<open>last_n\<close> keeps the newest trades, and \<open>without_first\<close> drops the oldest
  trade with an id.\<close>

definition last_n :: "nat \<Rightarrow> 'a list \<Rightarrow> 'a list" where
  "last_n n xs = drop (length xs - n) xs"

fun without_first :: "bytes \<Rightarrow> TradeRecord list \<Rightarrow> TradeRecord list" where
  "without_first i [] = []"
| "without_first i (r # rs) = (if rc_trade_id r = i then rs else r # without_first i rs)"

fun trade_step :: "usize \<Rightarrow> bytes \<Rightarrow> trade_cmd \<Rightarrow> TradeRecord list option \<Rightarrow> TradeRecord list option" where
  "trade_step cap t (Push r) v = Some (last_n cap (queue_or_default v @ [r]))"
| "trade_step cap t (Remove i) v = map_option (without_first i) v"
| "trade_step cap t Clear v = map_option (\<lambda>_. []) v"

definition buffer_inv :: "usize \<Rightarrow> TradeBuffer \<Rightarrow> bool" where
  "buffer_inv cap b \<longleftrightarrow> tb_per_ticker_capacity b = cap \<and> 0 < cap \<and>
     (\<forall>t q. tb_inner b t = Some q \<longrightarrow> length q \<le> cap)"

lemma length_last_n [simp]: "length (last_n n xs) = min n (length xs)"
  by (simp add: last_n_def)

lemma without_first_find:
  "without_first i q =
     (case find_index (\<lambda>t. rc_trade_id t = i) q of None \<Rightarrow> q | Some pos \<Rightarrow> remove_at pos q)"
  by (induction q) (auto simp: remove_at_def split: option.splits)

lemma length_without_first: "length (without_first i q) \<le> length q"
  by (induction q) auto

lemma snapshot_last_n: "trade_snapshot t limit b = last_n limit (queue_or_default (tb_inner b t))"
  by (simp add: trade_snapshot_def queue_or_default_def last_n_def Let_def rev_take min_def
      split: option.split)

lemma buffer_inv_new: "buffer_inv (max cap 1) (TradeBuffer_new cap)"
  by (simp add: buffer_inv_def TradeBuffer_new_def)

lemma push_queue:
  assumes "length q \<le> cap" and "0 < cap"
  shows "(if length q = cap then tl q else q) @ [r] = last_n cap (q @ [r])"
  using assms by (cases q) (auto simp: last_n_def)

lemma trade_act_inner:
  assumes "buffer_inv cap b"
  shows "tb_inner (trade_act t cmd b) = (tb_inner b)(t := trade_step cap t cmd (tb_inner b t))"
proof (cases cmd)
  case (Push r)
  have "length (queue_or_default (tb_inner b t)) \<le> cap" "0 < cap"
    using assms by (auto simp: buffer_inv_def queue_or_default_def split: option.split)
  from push_queue [OF this] Push assms show ?thesis
    by (simp add: trade_push_def Let_def buffer_inv_def)
next
  case (Remove i)
  then show ?thesis
    by (auto simp: trade_remove_def without_first_find fun_eq_iff split: option.split)
next
  case Clear
  then show ?thesis by (auto simp: trade_clear_def fun_eq_iff split: option.split)
qed

lemma trade_act_capacity [simp]:
  "tb_per_ticker_capacity (trade_act t cmd b) = tb_per_ticker_capacity b"
  by (cases cmd) (simp_all add: trade_push_def trade_remove_def trade_clear_def Let_def split: option.split)

lemma trade_step_bound:
  assumes "\<forall>q. v = Some q \<longrightarrow> length q \<le> cap" and "trade_step cap t cmd v = Some q"
  shows "length q \<le> cap"
  using assms length_without_first
  by (cases cmd) (auto intro: order_trans)

interpretation trades: keyed_engine tb_inner trade_act "trade_step cap" "buffer_inv cap" for cap
proof
  fix b :: TradeBuffer and t cmd
  assume inv: "buffer_inv cap b"
  show eq: "tb_inner (trade_act t cmd b) = (tb_inner b)(t := trade_step cap t cmd (tb_inner b t))"
    using inv by (rule trade_act_inner)
  from inv have "length q \<le> cap" if "trade_step cap t cmd (tb_inner b t) = Some q" for q
    using that trade_step_bound [of "tb_inner b t" cap t cmd q] by (simp add: buffer_inv_def)
  with inv show "buffer_inv cap (trade_act t cmd b)"
    by (simp add: buffer_inv_def eq)
qed

lemma last_n_last_n: "last_n n (last_n m xs) = last_n (min n m) xs"
  unfolding last_n_def drop_drop length_drop
  by (rule arg_cong [where f = "\<lambda>k. drop k xs"]) (simp add: min_def, arith?)

lemma last_n_append: "last_n n (last_n n xs @ [x]) = last_n n (xs @ [x])"
proof (cases "length xs < n")
  case True
  then show ?thesis by (simp add: last_n_def)
next
  case False
  then show ?thesis
    by (cases n) (simp_all add: last_n_def Suc_diff_le Suc_diff_Suc)
qed

lemma trade_pushes:
  "rs \<noteq> [] \<Longrightarrow> fold (trade_step cap t) (map Push rs) None = Some (last_n cap rs)"
proof (induction rs rule: rev_induct)
  case (snoc r rs)
  then show ?case
    by (cases "rs = []") (simp_all add: queue_or_default_def last_n_append)
qed simp

section \<open>Properties\<close>

text \<open>The queue of a ticker is a window on its own trades: after any interleaving of pushes for
  any tickers, a snapshot returns the ticker's newest trades, as many as the limit and the
  capacity (at least one) allow, oldest first.\<close>

lemma trade_buffer_window:
  "trade_snapshot t limit (run_keyed trade_act (map (\<lambda>(k, r). (k, Push r)) trades) (TradeBuffer_new cap)) =
     last_n (min limit (max cap 1)) (ops_for t trades)"
proof -
  let ?b = "run_keyed trade_act (map (\<lambda>(k, r). (k, Push r)) trades) (TradeBuffer_new cap)"
  have "ops_for t (map (\<lambda>(k, r). (k, Push r)) trades) = map Push (ops_for t trades)"
    by (induction trades) auto
  then have "tb_inner ?b t = fold (trade_step (max cap 1) t) (map Push (ops_for t trades)) None"
    using trades.view_run [OF buffer_inv_new [of cap]] by (simp add: TradeBuffer_new_def)
  then have "queue_or_default (tb_inner ?b t) = last_n (max cap 1) (ops_for t trades)"
    using trade_pushes [of "ops_for t trades" "max cap 1" t]
    by (cases "ops_for t trades = []") (simp_all add: queue_or_default_def last_n_def)
  then show ?thesis by (simp add: snapshot_last_n last_n_last_n)
qed

text \<open>Under any interleaving of pushes, bust corrections and clears, no queue ever holds more
  than the capacity, each command changes only its own ticker's queue, and a bust correction
  removes the oldest trade with its id and nothing else.\<close>

lemma trade_buffer_commands:
  "(let b = run_keyed trade_act cmds (TradeBuffer_new cap)
    in len_for t b \<le> max cap 1 \<and>
       tb_inner b t = fold (trade_step (max cap 1) t) (ops_for t cmds) None)"
proof -
  let ?b = "run_keyed trade_act cmds (TradeBuffer_new cap)"
  have "buffer_inv (max cap 1) ?b"
    by (rule trades.inv_run [OF buffer_inv_new])
  moreover have "tb_inner ?b t = fold (trade_step (max cap 1) t) (ops_for t cmds) None"
    using trades.view_run [OF buffer_inv_new [of cap]] by (simp add: TradeBuffer_new_def)
  ultimately show ?thesis
    by (auto simp: buffer_inv_def len_for_def Let_def split: option.split)
qed

end
