(* ===== verification/Wal.thy ===== *)
theory Wal
  imports Prelude
begin

text \<open>
  \<^verbatim>\<open>crates/persistence/src/wal.rs\<close>: the append-only log of trades. The state is the file's content,
  the bytes still in the \<open>BufWriter\<close> of 64 KiB in front of it, the length of the prefix known to be
  on disk (\<open>sync_all\<close>), and the byte counter. Calls of the operating system are taken to succeed;
  a crash is a step of its own (\<open>crash_at\<close>), which loses the writer's buffer and may cut the file
  anywhere past the synced prefix. The mutex makes every call one atomic step.
\<close>

named_theorems wal_defs \<open>operations of the log\<close>

section \<open>Checksum\<close>

definition crc_poly :: u32 where
  "crc_poly = 0xEDB88320"

text \<open>One turn of the inner loop: \<open>mask\<close> is all ones or all zeros, without a branch.\<close>

definition crc_bit :: "u32 \<Rightarrow> u32" where
  "crc_bit crc =
     (let mask = NOT (crc AND 1) + 1
      in drop_bit 1 crc XOR (crc_poly AND mask))"

definition crc_byte :: "u32 \<Rightarrow> u8 \<Rightarrow> u32" where
  "crc_byte crc byte = (crc_bit ^^ 8) (crc XOR word_of_nat (of_char byte))"

definition compute_crc32 :: "u32 \<Rightarrow> bytes \<Rightarrow> u32" where
  "compute_crc32 len payload = NOT (foldl crc_byte 0xFFFFFFFF (to_le 4 (unat len) @ payload))"

section \<open>State and operations\<close>

text \<open>The errors of \<^verbatim>\<open>error.rs\<close>; an error of another library is its message.\<close>

datatype PersistenceError =
    PX_Database string
  | PX_Wal string
  | PX_UnknownTicker bytes
  | PX_InvalidTrade string
  | PX_Decimal string
  | PX_ShuttingDown

record TradeWal =
  wal_file :: bytes
  wal_buf :: bytes
  wal_synced :: usize
  wal_bytes_written :: u64

definition buf_capacity :: usize where
  "buf_capacity = 64 * 1024"

definition wal_open :: "bytes \<Rightarrow> TradeWal" where
  "wal_open contents =
     \<lparr>wal_file = contents, wal_buf = [], wal_synced = length contents,
      wal_bytes_written = word_of_nat (length contents)\<rparr>"

text \<open>\<open>BufWriter::flush\<close> and \<open>BufWriter::write_all\<close>: data that does not fit the free space empties
  the buffer first, and data of at least the capacity goes straight to the file.\<close>

definition buf_flush :: "TradeWal \<Rightarrow> TradeWal" where
  "buf_flush w = w\<lparr>wal_file := wal_file w @ wal_buf w, wal_buf := []\<rparr>"

definition write_all :: "bytes \<Rightarrow> TradeWal \<Rightarrow> TradeWal" where
  "write_all xs w =
     (let w1 = (if buf_capacity < length (wal_buf w) + length xs then buf_flush w else w)
      in if buf_capacity \<le> length xs then w1\<lparr>wal_file := wal_file w1 @ xs\<rparr>
         else w1\<lparr>wal_buf := wal_buf w1 @ xs\<rparr>)"

definition wal_append :: "bytes \<Rightarrow> TradeWal \<Rightarrow> (PersistenceError + u64) \<times> TradeWal" where
  [wal_defs]: "wal_append payload w =
     (if 2 ^ 32 \<le> length payload then (Inl (PX_InvalidTrade ''payload larger than 4 GiB rejected''), w)
      else
        let len = word_of_nat (length payload) :: u32;
            crc = compute_crc32 len payload;
            w1 = write_all (to_le 4 (unat len)) w;
            w2 = write_all payload w1;
            w3 = write_all (to_le 4 (unat crc)) w2;
            written = 4 + word_of_nat (length payload) + 4;
            w4 = w3\<lparr>wal_bytes_written := wal_bytes_written w3 + written\<rparr>
        in (Inr (wal_bytes_written w4), w4))"

definition wal_sync :: "TradeWal \<Rightarrow> TradeWal" where
  [wal_defs]: "wal_sync w =
     (let w1 = buf_flush w in w1\<lparr>wal_synced := length (wal_file w1)\<rparr>)"

definition bytes_written :: "TradeWal \<Rightarrow> u64" where
  "bytes_written w = wal_bytes_written w"

function replay_loop :: "bytes \<Rightarrow> usize \<Rightarrow> bytes list \<Rightarrow> bytes list" where
  "replay_loop buf pos out =
     (if pos + 4 \<le> length buf then
        let len = from_le (take 4 (drop pos buf));
            pos1 = pos + 4
        in if length buf < pos1 + len + 4 then out
           else
             let payload = take len (drop pos1 buf);
                 stored_crc = word_of_nat (from_le (take 4 (drop (pos1 + len) buf)));
                 expected = compute_crc32 (word_of_nat len) payload
             in if stored_crc \<noteq> expected then out
                else replay_loop buf (pos1 + (len + 4)) (out @ [payload])
      else out)"
  by pat_completeness auto
termination
  by (relation "measure (\<lambda>(buf, pos, out). length buf - pos)") auto

declare replay_loop.simps [simp del]

definition wal_replay :: "TradeWal \<Rightarrow> bytes list \<times> TradeWal" where
  [wal_defs]: "wal_replay w = (let w1 = buf_flush w in (replay_loop (wal_file w1) 0 [], w1))"

definition wal_truncate :: "TradeWal \<Rightarrow> TradeWal" where
  [wal_defs]: "wal_truncate w =
     (buf_flush w)\<lparr>wal_file := [], wal_synced := 0, wal_bytes_written := 0\<rparr>"

text \<open>The process dies: the writer's buffer is gone and the file keeps its first \<open>n\<close> bytes, at least
  the synced ones. The log is then opened again.\<close>

definition crash_at :: "usize \<Rightarrow> TradeWal \<Rightarrow> TradeWal" where
  "crash_at n w = wal_open (take (max n (wal_synced w)) (wal_file w))"

section \<open>The checksum by branches, and its injectivity\<close>

lemma crc_bit_branch:
  "crc_bit crc = (if odd crc then drop_bit 1 crc XOR crc_poly else drop_bit 1 crc)"
proof -
  have "crc AND 1 = of_bool (odd crc)"
    by (simp add: and_one_eq mod_2_eq_odd)
  moreover have "NOT (0 :: u32) + 1 = 0" "NOT (1 :: u32) + 1 = - 1"
    by simp_all
  ultimately show ?thesis by (simp add: crc_bit_def Let_def)
qed

text \<open>The top bit of the result is the bit shifted out, because the polynomial has its top bit set
  and the shift clears it; so the step can be undone.\<close>

lemma crc_bit_top: "bit (crc_bit crc) 31 \<longleftrightarrow> odd crc"
proof -
  have "\<not> bit (drop_bit 1 crc) 31"
    using bit_imp_le_length [of crc 32] by (auto simp: bit_simps)
  moreover have "bit crc_poly 31" by (simp add: crc_poly_def)
  ultimately show ?thesis by (simp add: crc_bit_branch bit_xor_iff)
qed

lemma crc_bit_inj: "inj crc_bit"
proof (rule injI)
  fix x y assume eq: "crc_bit x = crc_bit y"
  then have odd: "odd x = odd y" by (metis crc_bit_top)
  have "drop_bit 1 x = drop_bit 1 y"
  proof (cases "odd x")
    case True
    with eq odd have "(drop_bit 1 x XOR crc_poly) XOR crc_poly = (drop_bit 1 y XOR crc_poly) XOR crc_poly"
      by (simp add: crc_bit_branch)
    then show ?thesis by (simp add: xor.assoc)
  next
    case False
    with eq odd show ?thesis by (simp add: crc_bit_branch)
  qed
  then have "x div 2 = y div 2" by (simp add: drop_bit_Suc)
  moreover from odd have "x mod 2 = y mod 2" by (simp add: mod_2_eq_odd)
  ultimately show "x = y" by (metis div_mult_mod_eq)
qed

lemma crc_byte_inj: "crc_byte a b = crc_byte a' b' \<longleftrightarrow>
    a XOR word_of_nat (of_char b) = a' XOR word_of_nat (of_char b')"
proof -
  have "inj (crc_bit ^^ 8)" by (rule inj_fn [OF crc_bit_inj])
  then show ?thesis unfolding crc_byte_def by (rule inj_eq)
qed

lemma crc_byte_inj_state: "crc_byte a b = crc_byte a' b \<longleftrightarrow> a = a'"
proof -
  have "x XOR z = y XOR z \<longleftrightarrow> x = y" for x y z :: u32
    by (metis xor.assoc xor.right_neutral xor_self_eq)
  then show ?thesis by (simp add: crc_byte_inj)
qed

lemma crc_byte_inj_byte: "crc_byte a b = crc_byte a b' \<longleftrightarrow> b = b'"
proof -
  have "a XOR x = a XOR y \<longleftrightarrow> x = y" for x y :: u32
    by (metis xor.assoc xor.left_neutral xor_self_eq)
  moreover have "unat (word_of_nat (of_char c) :: u32) = of_char c" for c :: u8
    by (rule unat_small, rule less_trans [OF nat_of_char_less_256]) simp
  ultimately show ?thesis
    by (metis crc_byte_inj of_char_eq_iff)
qed

lemma crc_fold_inj: "foldl crc_byte a xs = foldl crc_byte a' xs \<longleftrightarrow> a = a'"
  by (induction xs arbitrary: a a') (simp_all add: crc_byte_inj_state)

lemma crc32_one_byte:
  assumes "b \<noteq> b'"
  shows "compute_crc32 len (xs @ b # ys) \<noteq> compute_crc32 len (xs @ b' # ys)"
proof
  assume "compute_crc32 len (xs @ b # ys) = compute_crc32 len (xs @ b' # ys)"
  then have "NOT (NOT (foldl crc_byte 0xFFFFFFFF (to_le 4 (unat len) @ xs @ b # ys))) =
      NOT (NOT (foldl crc_byte 0xFFFFFFFF (to_le 4 (unat len) @ xs @ b' # ys)))"
    by (simp only: compute_crc32_def)
  with assms show False
    by (simp add: crc_fold_inj crc_byte_inj_byte del: to_le.simps)
qed

section \<open>The content of the log\<close>

definition wal_contents :: "TradeWal \<Rightarrow> bytes" where
  "wal_contents w = wal_file w @ wal_buf w"

definition record_bytes :: "bytes \<Rightarrow> bytes" where
  "record_bytes p =
     to_le 4 (length p) @ p @ to_le 4 (unat (compute_crc32 (word_of_nat (length p)) p))"

definition log_bytes :: "bytes list \<Rightarrow> bytes" where
  "log_bytes ps = concat (map record_bytes ps)"

lemma length_record_bytes [simp]: "length (record_bytes p) = length p + 8"
  by (simp add: record_bytes_def)

lemma contents_flush [simp]:
  "wal_contents (buf_flush w) = wal_contents w" "wal_file (buf_flush w) = wal_contents w"
  by (simp_all add: buf_flush_def wal_contents_def)

lemma contents_write_all [simp]: "wal_contents (write_all xs w) = wal_contents w @ xs"
  by (cases "wal_buf w") (auto simp: write_all_def Let_def wal_contents_def buf_flush_def)

lemma contents_append:
  "length p < 2 ^ 32 \<Longrightarrow> wal_contents (snd (wal_append p w)) = wal_contents w @ record_bytes p"
proof -
  have cw: "wal_contents (v\<lparr>wal_bytes_written := n\<rparr>) = wal_contents v" for v n
    by (simp add: wal_contents_def)
  assume "length p < 2 ^ 32"
  then show ?thesis
    by (simp add: wal_append_def Let_def cw record_bytes_def unat_small del: to_le.simps)
qed

lemma contents_sync [simp]: "wal_contents (wal_sync w) = wal_contents w"
  by (simp add: wal_sync_def Let_def) (simp add: wal_contents_def buf_flush_def)

lemma contents_truncate [simp]: "wal_contents (wal_truncate w) = []"
  by (simp add: wal_truncate_def) (simp add: wal_contents_def buf_flush_def)

text \<open>Replay as a function of the bytes still to be read.\<close>

function replay_from :: "bytes \<Rightarrow> bytes list" where
  "replay_from bs =
     (if length bs < 4 then []
      else let len = from_le (take 4 bs); rest = drop 4 bs
           in if length rest < len + 4 then []
              else if word_of_nat (from_le (take 4 (drop len rest))) \<noteq>
                      compute_crc32 (word_of_nat len) (take len rest) then []
              else take len rest # replay_from (drop (len + 4) rest))"
  by pat_completeness auto
termination
  by (relation "measure length") auto

declare replay_from.simps [simp del]

lemma replay_loop_from: "replay_loop buf pos out = out @ replay_from (drop pos buf)"
proof (induction buf pos out rule: replay_loop.induct)
  case (1 buf pos out)
  let ?bs = "drop pos buf" and ?len = "from_le (take 4 (drop pos buf))"
  show ?case
  proof (cases "length ?bs < 4 \<or> length (drop 4 ?bs) < ?len + 4")
    case True
    then show ?thesis
      by (subst replay_loop.simps, subst replay_from.simps) (auto simp: Let_def)
  next
    case False
    then have c: "pos + 4 \<le> length buf" "\<not> length buf < pos + 4 + ?len + 4" by auto
    have d: "drop (pos + 4 + ?len) buf = drop ?len (drop 4 ?bs)" "drop (pos + 4) buf = drop 4 ?bs"
      "drop (pos + 4 + (?len + 4)) buf = drop (?len + 4) (drop 4 ?bs)"
      by (simp_all add: add.commute add.left_commute)
    show ?thesis
    proof (cases "word_of_nat (from_le (take 4 (drop ?len (drop 4 ?bs)))) =
        compute_crc32 (word_of_nat ?len) (take ?len (drop 4 ?bs))")
      case True
      with "1.IH" c d have "replay_loop buf (pos + 4 + (?len + 4)) (out @ [take ?len (drop 4 ?bs)]) =
          (out @ [take ?len (drop 4 ?bs)]) @ replay_from (drop (?len + 4) (drop 4 ?bs))"
        by (simp only: not_not simp_thms Let_def)
      with True False c d show ?thesis
        by (subst replay_loop.simps, subst (1) replay_from.simps) (simp add: Let_def)
    next
      case crc: False
      with False c d show ?thesis
        by (subst replay_loop.simps, subst replay_from.simps) (simp add: Let_def)
    qed
  qed
qed

lemma wal_replay_contents: "fst (wal_replay w) = replay_from (wal_contents w)"
  by (simp add: wal_replay_def Let_def replay_loop_from)

lemma from_le_4 [simp]: "n < 2 ^ 32 \<Longrightarrow> from_le (to_le 4 n) = n"
  by (rule from_le_to_le) simp

lemma replay_from_record:
  assumes "length p < 2 ^ 32" and "length c = 4"
  shows "replay_from (to_le 4 (length p) @ p @ c @ rest) =
     (if word_of_nat (from_le c) = compute_crc32 (word_of_nat (length p)) p
      then p # replay_from rest else [])"
  using assms by (subst replay_from.simps) (simp add: Let_def del: to_le.simps)

lemma replay_from_cons:
  assumes "length p < 2 ^ 32"
  shows "replay_from (record_bytes p @ rest) = p # replay_from rest"
proof -
  have "unat (compute_crc32 (word_of_nat (length p)) p) < 2 ^ LENGTH(32)" by (rule unsigned_less)
  with assms show ?thesis
    by (simp add: record_bytes_def replay_from_record del: to_le.simps)
qed

lemma replay_from_log:
  "\<forall>p \<in> set ps. length p < 2 ^ 32 \<Longrightarrow> replay_from (log_bytes ps @ rest) = ps @ replay_from rest"
  by (induction ps) (simp_all add: log_bytes_def replay_from_cons)

lemma replay_from_incomplete:
  "length bs < from_le (take 4 bs) + 8 \<Longrightarrow> replay_from bs = []"
  by (subst replay_from.simps) (auto simp: Let_def)

lemma replay_from_short:
  assumes "n < length p + 8" and "length p < 2 ^ 32"
  shows "replay_from (take n (record_bytes p)) = []"
proof (cases "n < 4")
  case True
  then show ?thesis by (subst replay_from.simps) simp
next
  case False
  have "take 4 (record_bytes p) = to_le 4 (length p)"
    by (simp add: record_bytes_def del: to_le.simps)
  with assms False show ?thesis
    by (intro replay_from_incomplete) (simp add: min_def del: to_le.simps)
qed

text \<open>The number of whole records in the first \<open>n\<close> bytes of a log.\<close>

fun records_within :: "nat \<Rightarrow> bytes list \<Rightarrow> nat" where
  "records_within n [] = 0"
| "records_within n (p # ps) =
     (if length p + 8 \<le> n then Suc (records_within (n - (length p + 8)) ps) else 0)"

lemma replay_from_cut:
  "\<forall>p \<in> set ps. length p < 2 ^ 32 \<Longrightarrow>
   replay_from (take n (log_bytes ps)) = take (records_within n ps) ps"
proof (induction ps arbitrary: n)
  case Nil
  then show ?case by (subst replay_from.simps) (simp add: log_bytes_def)
next
  case (Cons p ps)
  show ?case
  proof (cases "length p + 8 \<le> n")
    case True
    then have "take n (log_bytes (p # ps)) =
        record_bytes p @ take (n - (length p + 8)) (log_bytes ps)"
      by (simp add: log_bytes_def)
    with True Cons show ?thesis by (simp add: replay_from_cons)
  next
    case False
    then have "take n (log_bytes (p # ps)) = take n (record_bytes p)"
      by (simp add: log_bytes_def)
    with False Cons.prems show ?thesis by (simp add: replay_from_short)
  qed
qed

section \<open>Sequences of appends\<close>

definition append_all :: "bytes list \<Rightarrow> TradeWal \<Rightarrow> TradeWal" where
  "append_all ps w = fold (\<lambda>p w. snd (wal_append p w)) ps w"

lemma contents_append_all:
  "\<forall>p \<in> set ps. length p < 2 ^ 32 \<Longrightarrow> wal_contents (append_all ps w) = wal_contents w @ log_bytes ps"
  unfolding append_all_def
  by (induction ps arbitrary: w) (simp_all add: log_bytes_def contents_append)

lemma log_bytes_append [simp]: "log_bytes (ps @ qs) = log_bytes ps @ log_bytes qs"
  by (simp add: log_bytes_def)

lemma contents_open [simp]: "wal_contents (wal_open bs) = bs"
  by (simp add: wal_open_def wal_contents_def)

lemma write_all_file: "\<exists>ys. wal_file (write_all xs w) = wal_file w @ ys"
  by (auto simp: write_all_def Let_def buf_flush_def)

lemma append_file: "\<exists>ys. wal_file (snd (wal_append p w)) = wal_file w @ ys"
proof -
  let ?w1 = "write_all (to_le 4 (unat (word_of_nat (length p) :: u32))) w"
  let ?w2 = "write_all p ?w1"
  let ?w3 = "write_all (to_le 4 (unat (compute_crc32 (word_of_nat (length p)) p))) ?w2"
  obtain a b c where "wal_file ?w1 = wal_file w @ a" "wal_file ?w2 = wal_file ?w1 @ b"
    "wal_file ?w3 = wal_file ?w2 @ c"
    using write_all_file by metis
  then show ?thesis by (auto simp: wal_append_def Let_def simp del: to_le.simps)
qed

lemma append_all_file: "\<exists>ys. wal_file (append_all ps w) = wal_file w @ ys"
  unfolding append_all_def
proof (induction ps arbitrary: w)
  case (Cons p ps)
  obtain a where "wal_file (snd (wal_append p w)) = wal_file w @ a" using append_file by blast
  moreover obtain b where
    "wal_file (fold (\<lambda>p w. snd (wal_append p w)) ps (snd (wal_append p w))) =
       wal_file (snd (wal_append p w)) @ b"
    using Cons.IH by blast
  ultimately show ?case by simp
qed simp

lemma write_all_synced [simp]: "wal_synced (write_all xs w) = wal_synced w"
  by (simp add: write_all_def Let_def buf_flush_def)

lemma append_all_synced [simp]: "wal_synced (append_all ps w) = wal_synced w"
  unfolding append_all_def
  by (induction ps arbitrary: w) (simp_all add: wal_append_def Let_def)

lemma sync_file [simp]: "wal_file (wal_sync w) = wal_contents w" "wal_synced (wal_sync w) = length (wal_contents w)"
  by (simp_all add: wal_sync_def Let_def)

section \<open>Properties\<close>

text \<open>What is appended is replayed: from an empty log, any payloads below 4 GiB, appended in any
  mix of sizes (so through any pattern of buffer flushes) and replayed, come back complete, in
  order and unchanged; truncation empties the log.\<close>

lemma wal_append_replay:
  assumes "\<forall>p \<in> set ps. length p < 2 ^ 32"
  shows "fst (wal_replay (append_all ps (wal_open []))) = ps \<and>
         fst (wal_replay (wal_truncate (append_all ps (wal_open [])))) = []"
  using replay_from_log [OF assms, of "[]"]
  by (simp add: wal_replay_contents contents_append_all [OF assms] replay_from.simps [of "[]"])

text \<open>C8. A crash loses no synced record and invents none: when the process dies at any moment after
  a sync, whatever has been appended since and wherever the file is cut, replaying the reopened
  log gives every record from before the sync followed by a prefix of the later ones. A record
  torn by the cut is dropped, never misread.\<close>

theorem wal_crash_keeps_synced:
  assumes "\<forall>p \<in> set (ps @ qs). length p < 2 ^ 32"
  shows "\<exists>k. fst (wal_replay (crash_at n (append_all qs (wal_sync (append_all ps (wal_open [])))))) =
             ps @ take k qs"
proof -
  let ?w = "append_all qs (wal_sync (append_all ps (wal_open [])))"
  have ps: "\<forall>p \<in> set ps. length p < 2 ^ 32" and qs: "\<forall>p \<in> set qs. length p < 2 ^ 32"
    using assms by simp_all
  have cont: "wal_contents ?w = log_bytes ps @ log_bytes qs"
    by (simp add: contents_append_all [OF ps] contents_append_all [OF qs])
  obtain ys where fl: "wal_file ?w = log_bytes ps @ ys"
    using append_all_file [of qs "wal_sync (append_all ps (wal_open []))"]
    by (auto simp: contents_append_all [OF ps])
  with cont have "log_bytes qs = ys @ wal_buf ?w"
    by (simp add: wal_contents_def)
  then have ys: "ys = take (length ys) (log_bytes qs)" by simp
  define m where "m = min (max n (length (log_bytes ps)) - length (log_bytes ps)) (length ys)"
  have "take (max n (length (log_bytes ps))) (wal_file ?w) = log_bytes ps @ take m (log_bytes qs)"
    unfolding m_def by (subst fl, subst ys) (simp add: min.commute)
  then have "fst (wal_replay (crash_at n ?w)) = ps @ replay_from (take m (log_bytes qs))"
    by (simp add: wal_replay_contents crash_at_def contents_append_all [OF ps]
        replay_from_log [OF ps])
  then show ?thesis by (auto simp: replay_from_cut [OF qs])
qed

theorem wal_crash_keeps_synced_witness:
  "\<exists>k. fst (wal_replay (crash_at 3 (append_all [''c''] (wal_sync (append_all [''ab''] (wal_open [])))))) =
       [''ab''] @ take k [''c'']"
  by (rule wal_crash_keeps_synced) simp

text \<open>C9. Replay stops at the first damaged record: when one byte of a record's payload or of its
  checksum is changed on disk, replay returns exactly the records before it. In particular no
  single-byte error in a payload escapes the CRC.\<close>

theorem wal_detects_damage:
  assumes "\<forall>p \<in> set ps. length p < 2 ^ 32" and "length (xs @ b # ys) < 2 ^ 32" and "b \<noteq> b'"
  shows "fst (wal_replay (wal_open (log_bytes ps @ to_le 4 (length (xs @ b # ys)) @ (xs @ b' # ys) @
           to_le 4 (unat (compute_crc32 (word_of_nat (length (xs @ b # ys))) (xs @ b # ys))) @ rest))) = ps"
proof -
  let ?p = "xs @ b # ys" and ?q = "xs @ b' # ys"
  let ?c = "compute_crc32 (word_of_nat (length ?p)) ?p"
  have len: "length ?q = length ?p" by simp
  have "unat ?c < 2 ^ LENGTH(32)" by (rule unsigned_less)
  then have c: "word_of_nat (from_le (to_le 4 (unat ?c))) = ?c" by simp
  have "?c \<noteq> compute_crc32 (word_of_nat (length ?q)) ?q"
    unfolding len using assms(3) by (rule crc32_one_byte)
  then have "replay_from (to_le 4 (length ?q) @ ?q @ to_le 4 (unat ?c) @ rest) = []"
    using replay_from_record [of ?q "to_le 4 (unat ?c)" rest] assms(2) c len
    by (simp del: to_le.simps)
  then show ?thesis
    unfolding len by (simp add: wal_replay_contents replay_from_log [OF assms(1)] del: to_le.simps)
qed

theorem wal_detects_damage_witness:
  "fst (wal_replay (wal_open (log_bytes [''x''] @ to_le 4 (length (''a'' @ CHR ''b'' # [])) @ (''a'' @ CHR ''c'' # []) @
     to_le 4 (unat (compute_crc32 (word_of_nat (length (''a'' @ CHR ''b'' # []))) (''a'' @ CHR ''b'' # []))) @ ''zz''))) = [''x'']"
  by (rule wal_detects_damage) simp_all

text \<open>A torn tail hides what is appended after it. The log is reopened in append mode without
  being cut back to its last whole record; as long as the new records are together shorter than
  the missing part of the torn one, replay sees none of them.\<close>

lemma wal_torn_tail_hides_appends:
  assumes "\<forall>r \<in> set (p # ps @ qs). length r < 2 ^ 32"
    and "4 \<le> n" and "n + length (log_bytes qs) < length p + 8"
  shows "fst (wal_replay (append_all qs (wal_open (log_bytes ps @ take n (record_bytes p))))) = ps"
proof -
  let ?tail = "take n (record_bytes p) @ log_bytes qs"
  have ps: "\<forall>r \<in> set ps. length r < 2 ^ 32" and qs: "\<forall>r \<in> set qs. length r < 2 ^ 32"
    using assms(1) by simp_all
  have "take 4 ?tail = to_le 4 (length p)"
    using assms(2) by (simp add: record_bytes_def min_def del: to_le.simps)
  moreover have "length p < 2 ^ 32" using assms(1) by simp
  ultimately have "from_le (take 4 ?tail) = length p" by simp
  with assms(3) have "replay_from ?tail = []"
    by (intro replay_from_incomplete) (simp add: min_def)
  then show ?thesis
    by (simp add: wal_replay_contents contents_append_all [OF qs] replay_from_log [OF ps])
qed

end
