(* ===== verification/Staged_Trade.thy ===== *)
theory Staged_Trade
  imports F64
begin

unbundle bit_operations_syntax

text \<open>
  The record of \<^verbatim>\<open>crates/persistence/src/trade_writer.rs\<close> and its binary form in the log. \<open>DateTime<Utc>\<close>
  of the \<open>chrono\<close> crate is a type parameter, with \<open>timestamp_micros\<close> and \<open>from_timestamp_micros\<close> as
  arguments; \<open>Decimal\<close> of \<open>rust_decimal\<close> likewise, its operations gathered in \<open>decimal_ops\<close>.
\<close>

section \<open>The record\<close>

record 'dt StagedTrade =
  sg_time :: 'dt
  sg_asset_id :: i32
  sg_price :: f64
  sg_amount :: i64
  sg_buyer_id :: "i32 option"
  sg_seller_id :: "i32 option"
  sg_aggressor_side :: "i16 option"
  sg_trade_id :: "bytes option"
  sg_is_direct :: bool

record 'dec decimal_ops =
  from_f64 :: "f64 \<Rightarrow> 'dec option"
  from_i64 :: "i64 \<Rightarrow> 'dec"
  dec_mul :: "'dec \<Rightarrow> 'dec \<Rightarrow> 'dec"
  round_dp :: "u32 \<Rightarrow> 'dec \<Rightarrow> 'dec"
  dec_default :: 'dec

definition financial_volume :: "'dec decimal_ops \<Rightarrow> 'dt StagedTrade \<Rightarrow> 'dec option" where
  "financial_volume D t =
     Option.bind (from_f64 D (sg_price t)) (\<lambda>price.
       Some (round_dp D 2 (dec_mul D price (from_i64 D (sg_amount t)))))"

section \<open>Encoding\<close>

definition wal_flags :: "'dt StagedTrade \<Rightarrow> nat" where
  "wal_flags t =
     (let flags = 0;
          flags = (if sg_buyer_id t \<noteq> None then flags OR 1 else flags);
          flags = (if sg_seller_id t \<noteq> None then flags OR 2 else flags);
          flags = (if sg_aggressor_side t \<noteq> None then flags OR 4 else flags);
          flags = (if sg_trade_id t \<noteq> None then flags OR 8 else flags)
      in if sg_is_direct t then flags OR 16 else flags)"

definition opt_bytes :: "('a \<Rightarrow> bytes) \<Rightarrow> 'a option \<Rightarrow> bytes" where
  "opt_bytes f v = (case v of None \<Rightarrow> [] | Some x \<Rightarrow> f x)"

definition encode_wal :: "('dt \<Rightarrow> i64) \<Rightarrow> 'dt StagedTrade \<Rightarrow> bytes" where
  "encode_wal timestamp_micros t =
     to_le 8 (unat (timestamp_micros (sg_time t))) @
     to_le 4 (unat (sg_asset_id t)) @
     to_le 8 (unat (sg_price t)) @
     to_le 8 (unat (sg_amount t)) @
     [char_of (wal_flags t)] @
     opt_bytes (\<lambda>v. to_le 4 (unat v)) (sg_buyer_id t) @
     opt_bytes (\<lambda>v. to_le 4 (unat v)) (sg_seller_id t) @
     opt_bytes (\<lambda>v. to_le 2 (unat v)) (sg_aggressor_side t) @
     opt_bytes (\<lambda>s. to_le 4 (if length s < 2 ^ 32 then length s else 2 ^ 32 - 1) @ s) (sg_trade_id t)"

section \<open>Decoding\<close>

text \<open>The cursor \<open>p\<close> is threaded; \<open>slice bytes p n\<close> is \<open>bytes[p..p + n]\<close>, in range where it is used.
  \<open>ReadResult\<close> carries a value with the cursor.\<close>

definition slice :: "bytes \<Rightarrow> usize \<Rightarrow> usize \<Rightarrow> bytes" where
  "slice bs p n = take n (drop p bs)"

datatype 'a ReadResult = RR_Ok 'a | RR_Truncated

fun ReadResult_ok :: "'a ReadResult \<Rightarrow> 'a option" where
  "ReadResult_ok (RR_Ok v) = Some v"
| "ReadResult_ok RR_Truncated = None"

definition read_flag_i32 :: "bytes \<Rightarrow> usize \<Rightarrow> bool \<Rightarrow> (i32 option \<times> usize) ReadResult" where
  "read_flag_i32 bs p present =
     (if \<not> present then RR_Ok (None, p)
      else if length bs < p + 4 then RR_Truncated
      else RR_Ok (Some (word_of_nat (from_le (slice bs p 4))), p + 4))"

definition read_aggressor :: "bytes \<Rightarrow> usize \<Rightarrow> bool \<Rightarrow> (i16 option \<times> usize) option" where
  "read_aggressor bs p present =
     (if present then
        if length bs < p + 2 then None
        else Some (Some (word_of_nat (from_le (slice bs p 2))), p + 2)
      else Some (None, p))"

definition read_trade_id :: "bytes \<Rightarrow> usize \<Rightarrow> bool \<Rightarrow> bytes option option" where
  "read_trade_id bs p present =
     (if present then
        if length bs < p + 4 then None
        else let len = from_le (slice bs p 4); q = p + 4
             in if length bs < q + len then None
                else if utf8_valid (slice bs q len) then Some (Some (slice bs q len)) else None
      else Some None)"

definition decode_wal :: "(i64 \<Rightarrow> 'dt option) \<Rightarrow> bytes \<Rightarrow> 'dt StagedTrade option" where
  "decode_wal from_timestamp_micros bs =
     (if length bs < 8 + 4 + 8 + 8 + 1 then None
      else
        let micros = word_of_nat (from_le (slice bs 0 8));
            asset_id = word_of_nat (from_le (slice bs 8 4));
            price = word_of_nat (from_le (slice bs 12 8));
            amount = word_of_nat (from_le (slice bs 20 8));
            flags = of_char (bs ! 28) :: nat
        in Option.bind (ReadResult_ok (read_flag_i32 bs 29 (flags AND 1 \<noteq> 0))) (\<lambda>(buyer_id, p1).
           Option.bind (ReadResult_ok (read_flag_i32 bs p1 (flags AND 2 \<noteq> 0))) (\<lambda>(seller_id, p2).
           Option.bind (read_aggressor bs p2 (flags AND 4 \<noteq> 0)) (\<lambda>(aggressor_side, p3).
           Option.bind (read_trade_id bs p3 (flags AND 8 \<noteq> 0)) (\<lambda>trade_id.
           Option.bind (from_timestamp_micros micros) (\<lambda>time.
           Some \<lparr>sg_time = time, sg_asset_id = asset_id, sg_price = price, sg_amount = amount,
             sg_buyer_id = buyer_id, sg_seller_id = seller_id, sg_aggressor_side = aggressor_side,
             sg_trade_id = trade_id, sg_is_direct = (flags AND 16 \<noteq> 0)\<rparr>))))))"

section \<open>Decoding inverts encoding\<close>

lemma word_from_le:
  fixes v :: "'a::len word"
  assumes "LENGTH('a) = 8 * k"
  shows "word_of_nat (from_le (to_le k (unat v))) = v"
proof -
  have "unat v < 2 ^ LENGTH('a)" by (rule unsigned_less)
  also have "\<dots> = 256 ^ k" by (simp add: assms power_mult)
  finally show ?thesis by (simp add: from_le_to_le)
qed

lemma word_from_le_widths [simp]:
  "word_of_nat (from_le (to_le 8 (unat (a :: 64 word)))) = a"
  "word_of_nat (from_le (to_le 4 (unat (b :: 32 word)))) = b"
  "word_of_nat (from_le (to_le 2 (unat (c :: 16 word)))) = c"
  by (simp_all add: word_from_le del: to_le.simps)

lemma wal_flags_bits:
  "wal_flags t < 256"
  "wal_flags t AND 1 \<noteq> 0 \<longleftrightarrow> sg_buyer_id t \<noteq> None"
  "wal_flags t AND 2 \<noteq> 0 \<longleftrightarrow> sg_seller_id t \<noteq> None"
  "wal_flags t AND 4 \<noteq> 0 \<longleftrightarrow> sg_aggressor_side t \<noteq> None"
  "wal_flags t AND 8 \<noteq> 0 \<longleftrightarrow> sg_trade_id t \<noteq> None"
  "wal_flags t AND 16 \<noteq> 0 \<longleftrightarrow> sg_is_direct t"
  by (simp_all add: wal_flags_def)

lemma wal_flags_byte: "of_char (char_of (wal_flags t) :: u8) = wal_flags t"
  using wal_flags_bits(1) [of t] by simp

lemma slice_append: "length xs = p \<Longrightarrow> slice (xs @ ys) (p + q) n = slice ys q n"
  by (simp add: slice_def)

lemma slice_here: "length xs = p \<Longrightarrow> length ys = n \<Longrightarrow> slice (xs @ ys @ zs) p n = ys"
  by (simp add: slice_def)

text \<open>Reading an optional field where the encoder wrote it, after any bytes \<open>xs\<close>.\<close>

lemma read_i32_written:
  "length xs = p \<Longrightarrow>
   ReadResult_ok (read_flag_i32 (xs @ opt_bytes (\<lambda>v. to_le 4 (unat v)) r @ zs) p (r \<noteq> None)) =
     Some (r, p + length (opt_bytes (\<lambda>v. to_le 4 (unat v)) r))"
  by (cases r) (simp_all add: read_flag_i32_def opt_bytes_def slice_here del: to_le.simps)

lemma read_aggressor_written:
  "length xs = p \<Longrightarrow>
   read_aggressor (xs @ opt_bytes (\<lambda>v. to_le 2 (unat v)) r @ zs) p (r \<noteq> None) =
     Some (r, p + length (opt_bytes (\<lambda>v. to_le 2 (unat v)) r))"
  by (cases r) (simp_all add: read_aggressor_def opt_bytes_def slice_here del: to_le.simps)

lemma read_trade_id_written:
  assumes "length xs = p" and "\<forall>s. r = Some s \<longrightarrow> utf8_valid s \<and> length s < 2 ^ 32"
  shows "read_trade_id (xs @ opt_bytes (\<lambda>s. to_le 4 (if length s < 2 ^ 32 then length s else 2 ^ 32 - 1) @ s) r)
           p (r \<noteq> None) = Some r"
proof (cases r)
  case None
  then show ?thesis by (simp add: read_trade_id_def)
next
  case (Some s)
  with assms have s: "utf8_valid s" "length s < 2 ^ 32" by simp_all
  then have len: "from_le (to_le 4 (length s)) = length s" by (intro from_le_to_le) simp
  have 1: "slice (xs @ to_le 4 (length s) @ s) p 4 = to_le 4 (length s)"
    using assms(1) by (simp add: slice_here del: to_le.simps)
  have 2: "slice (xs @ to_le 4 (length s) @ s) (p + 4) (length s) = s"
    using slice_here [of "xs @ to_le 4 (length s)" "p + 4" s "length s" "[]"] assms(1)
    by (simp del: to_le.simps)
  from Some s len 1 2 assms(1) show ?thesis
    by (simp add: read_trade_id_def opt_bytes_def Let_def del: to_le.simps)
qed

lemma decode_encode:
  assumes time: "from_timestamp_micros (timestamp_micros (sg_time t)) = Some (sg_time t)"
    and tid: "\<forall>s. sg_trade_id t = Some s \<longrightarrow> utf8_valid s \<and> length s < 2 ^ 32"
  shows "decode_wal from_timestamp_micros (encode_wal timestamp_micros t) = Some t"
proof -
  let ?m = "to_le 8 (unat (timestamp_micros (sg_time t)))" and ?a = "to_le 4 (unat (sg_asset_id t))"
  let ?p = "to_le 8 (unat (sg_price t))" and ?q = "to_le 8 (unat (sg_amount t))"
  let ?f = "[char_of (wal_flags t)]"
  let ?B = "opt_bytes (\<lambda>v. to_le 4 (unat v)) (sg_buyer_id t)"
  let ?S = "opt_bytes (\<lambda>v. to_le 4 (unat v)) (sg_seller_id t)"
  let ?G = "opt_bytes (\<lambda>v. to_le 2 (unat v)) (sg_aggressor_side t)"
  let ?I = "opt_bytes (\<lambda>s. to_le 4 (if length s < 2 ^ 32 then length s else 2 ^ 32 - 1) @ s) (sg_trade_id t)"
  let ?H = "?m @ ?a @ ?p @ ?q @ ?f"
  define e where "e = encode_wal timestamp_micros t"
  have e: "e = ?m @ ?a @ ?p @ ?q @ ?f @ ?B @ ?S @ ?G @ ?I"
    by (simp only: e_def encode_wal_def)
  have len: "\<not> length e < 8 + 4 + 8 + 8 + 1"
    by (simp add: e del: to_le.simps)
  have s: "slice e 0 8 = ?m" "slice e 8 4 = ?a" "slice e 12 8 = ?p" "slice e 20 8 = ?q"
    using slice_here [of "[]" 0 ?m 8] slice_here [of ?m 8 ?a 4] slice_here [of "?m @ ?a" 12 ?p 8]
      slice_here [of "?m @ ?a @ ?p" 20 ?q 8]
    by (simp_all add: e del: to_le.simps)
  have f: "e ! 28 = char_of (wal_flags t)"
    using nth_append_length [of "?m @ ?a @ ?p @ ?q"] by (simp add: e del: to_le.simps)
  have B: "ReadResult_ok (read_flag_i32 e 29 (sg_buyer_id t \<noteq> None)) = Some (sg_buyer_id t, 29 + length ?B)"
    using read_i32_written [of ?H 29 "sg_buyer_id t" "?S @ ?G @ ?I"] by (simp add: e del: to_le.simps)
  have S: "ReadResult_ok (read_flag_i32 e (29 + length ?B) (sg_seller_id t \<noteq> None)) =
      Some (sg_seller_id t, 29 + length ?B + length ?S)"
    using read_i32_written [of "?H @ ?B" "29 + length ?B" "sg_seller_id t" "?G @ ?I"]
    by (simp add: e del: to_le.simps)
  have G: "read_aggressor e (29 + length ?B + length ?S) (sg_aggressor_side t \<noteq> None) =
      Some (sg_aggressor_side t, 29 + length ?B + length ?S + length ?G)"
    using read_aggressor_written [of "?H @ ?B @ ?S" "29 + length ?B + length ?S" "sg_aggressor_side t" ?I]
    by (simp add: e add.assoc del: to_le.simps)
  have I: "read_trade_id e (29 + length ?B + length ?S + length ?G) (sg_trade_id t \<noteq> None) = Some (sg_trade_id t)"
    using read_trade_id_written [of "?H @ ?B @ ?S @ ?G" "29 + length ?B + length ?S + length ?G" "sg_trade_id t"] tid
    by (simp add: e add.assoc del: to_le.simps)
  have "decode_wal from_timestamp_micros e = Some t"
    unfolding decode_wal_def if_not_P [OF len] Let_def s f wal_flags_byte wal_flags_bits(2-6)
      word_from_le_widths B S G I Option.bind.bind_lunit prod.case time
    by simp
  then show ?thesis by (simp only: e_def)
qed

section \<open>Properties\<close>

text \<open>A staged trade survives the log: decoding what was encoded gives the trade back, whatever
  optional fields it has and for every value of the integers, the price's bit pattern included,
  provided its time is one the calendar library rebuilds from microseconds and its id is UTF-8
  text shorter than 4 GiB.\<close>

lemma staged_trade_roundtrip:
  assumes "from_timestamp_micros (timestamp_micros (sg_time t)) = Some (sg_time t)"
    and "\<forall>s. sg_trade_id t = Some s \<longrightarrow> utf8_valid s \<and> length s < 2 ^ 32"
  shows "decode_wal from_timestamp_micros (encode_wal timestamp_micros t) = Some t"
  using assms by (rule decode_encode)

definition sample_staged :: "bytes \<Rightarrow> i64 StagedTrade" where
  "sample_staged i = \<lparr>sg_time = 1700000000000000, sg_asset_id = 7, sg_price = 0x404DF9999999999A,
     sg_amount = 100, sg_buyer_id = Some 3, sg_seller_id = None, sg_aggressor_side = Some 2,
     sg_trade_id = Some i, sg_is_direct = True\<rparr>"

end
