(* ===== verification/Trade_Writer.thy ===== *)
theory Trade_Writer
  imports Wal Staged_Trade
begin

text \<open>
  \<^verbatim>\<open>crates/persistence/src/trade_writer.rs\<close>: staging, batching and recovery of trades. The database
  behind the connection pool is a value of type \<open>'db\<close> and the bulk INSERT a function of it, the
  argument \<open>we_exec\<close>, with the calendar and decimal libraries in the record \<open>writer_env\<close>. What the
  theorems assume of the INSERT is named: \<open>commits\<close>. Each operation is also given as its atomic
  parts (\<open>stage_append\<close>, \<open>stage_push\<close>), because the log and the buffer have separate locks.
\<close>

section \<open>Environment, rows and state\<close>

record ('dt, 'dec) TradeRow =
  rw_time :: 'dt
  rw_asset_id :: i32
  rw_price :: 'dec
  rw_amount :: i64
  rw_buyer_id :: "i32 option"
  rw_seller_id :: "i32 option"
  rw_aggressor_side :: "i16 option"
  rw_trade_id :: "bytes option"
  rw_is_direct :: bool
  rw_financial_volume :: 'dec

record ('dt, 'dec, 'db) writer_env =
  we_micros :: "'dt \<Rightarrow> i64"
  we_from_micros :: "i64 \<Rightarrow> 'dt option"
  we_decimal :: "'dec decimal_ops"
  we_exec :: "('dt, 'dec) TradeRow list \<Rightarrow> 'db \<Rightarrow> (string + u64) \<times> 'db"

record ('dt, 'db) TradeWriter =
  tw_pool :: 'db
  tw_wal :: TradeWal
  tw_buffer :: "'dt StagedTrade list"
  tw_batch_size :: usize

definition unwrap_or :: "'a \<Rightarrow> 'a option \<Rightarrow> 'a" where
  "unwrap_or d v = (case v of None \<Rightarrow> d | Some x \<Rightarrow> x)"

definition trade_row :: "'dec decimal_ops \<Rightarrow> 'dt StagedTrade \<Rightarrow> ('dt, 'dec) TradeRow" where
  "trade_row D t =
     \<lparr>rw_time = sg_time t, rw_asset_id = sg_asset_id t,
      rw_price = unwrap_or (dec_default D) (from_f64 D (sg_price t)), rw_amount = sg_amount t,
      rw_buyer_id = sg_buyer_id t, rw_seller_id = sg_seller_id t,
      rw_aggressor_side = sg_aggressor_side t, rw_trade_id = sg_trade_id t,
      rw_is_direct = sg_is_direct t,
      rw_financial_volume = unwrap_or (dec_default D) (financial_volume D t)\<rparr>"

section \<open>Operations\<close>

definition from_parts :: "'db \<Rightarrow> TradeWal \<Rightarrow> usize \<Rightarrow> ('dt, 'db) TradeWriter" where
  "from_parts pool wal batch_size =
     \<lparr>tw_pool = pool, tw_wal = wal, tw_buffer = [], tw_batch_size = batch_size\<rparr>"

text \<open>\<open>connect\<close> with the pool already connected: the log file holds \<open>contents\<close>.\<close>

definition writer_connect :: "'db \<Rightarrow> bytes \<Rightarrow> usize \<Rightarrow> ('dt, 'db) TradeWriter" where
  "writer_connect pool contents batch_size = from_parts pool (wal_open contents) batch_size"

definition flush_drained ::
  "('dt, 'dec, 'db) writer_env \<Rightarrow> 'dt StagedTrade list \<Rightarrow> ('dt, 'db) TradeWriter \<Rightarrow>
   (PersistenceError + unit) \<times> ('dt, 'db) TradeWriter" where
  "flush_drained env batch w =
     (if batch = [] then (Inr (), w)
      else
        let w1 = w\<lparr>tw_wal := wal_sync (tw_wal w)\<rparr>
        in case we_exec env (map (trade_row (we_decimal env)) batch) (tw_pool w1) of
             (Inl e, db) \<Rightarrow> (Inl (PX_Database e), w1\<lparr>tw_pool := db\<rparr>)
           | (Inr n, db) \<Rightarrow> (Inr (), w1\<lparr>tw_pool := db, tw_wal := wal_truncate (tw_wal w1)\<rparr>))"

definition stage_append ::
  "('dt, 'dec, 'db) writer_env \<Rightarrow> 'dt StagedTrade \<Rightarrow> ('dt, 'db) TradeWriter \<Rightarrow>
   (PersistenceError + unit) \<times> ('dt, 'db) TradeWriter" where
  "stage_append env trade w =
     (case wal_append (encode_wal (we_micros env) trade) (tw_wal w) of
        (Inl e, wal) \<Rightarrow> (Inl e, w\<lparr>tw_wal := wal\<rparr>)
      | (Inr off, wal) \<Rightarrow> (Inr (), w\<lparr>tw_wal := wal\<rparr>))"

definition stage_push ::
  "('dt, 'dec, 'db) writer_env \<Rightarrow> 'dt StagedTrade \<Rightarrow> ('dt, 'db) TradeWriter \<Rightarrow>
   (PersistenceError + unit) \<times> ('dt, 'db) TradeWriter" where
  "stage_push env trade w =
     (let buf = tw_buffer w @ [trade]
      in if tw_batch_size w \<le> length buf then flush_drained env buf (w\<lparr>tw_buffer := []\<rparr>)
         else (Inr (), w\<lparr>tw_buffer := buf\<rparr>))"

definition stage ::
  "('dt, 'dec, 'db) writer_env \<Rightarrow> 'dt StagedTrade \<Rightarrow> ('dt, 'db) TradeWriter \<Rightarrow>
   (PersistenceError + unit) \<times> ('dt, 'db) TradeWriter" where
  "stage env trade w =
     (case stage_append env trade w of
        (Inl e, w1) \<Rightarrow> (Inl e, w1)
      | (Inr _, w1) \<Rightarrow> stage_push env trade w1)"

definition flush ::
  "('dt, 'dec, 'db) writer_env \<Rightarrow> ('dt, 'db) TradeWriter \<Rightarrow>
   (PersistenceError + usize) \<times> ('dt, 'db) TradeWriter" where
  "flush env w =
     (let drained = tw_buffer w; w1 = w\<lparr>tw_buffer := []\<rparr>; n = length drained
      in if n = 0 then (Inr 0, w1)
         else case flush_drained env drained w1 of
             (Inl e, w2) \<Rightarrow> (Inl e, w2)
           | (Inr _, w2) \<Rightarrow> (Inr n, w2))"

definition recover_from_wal ::
  "('dt, 'dec, 'db) writer_env \<Rightarrow> ('dt, 'db) TradeWriter \<Rightarrow>
   (PersistenceError + usize) \<times> ('dt, 'db) TradeWriter" where
  "recover_from_wal env w =
     (case wal_replay (tw_wal w) of
        (records, wal) \<Rightarrow>
          let trades = List.map_filter (decode_wal (we_from_micros env)) records
          in (Inr (length trades), w\<lparr>tw_wal := wal, tw_buffer := tw_buffer w @ trades\<rparr>))"

text \<open>The process dies and starts again on the same database and log.\<close>

definition restart :: "usize \<Rightarrow> ('dt, 'db) TradeWriter \<Rightarrow> ('dt, 'db) TradeWriter" where
  "restart n w = from_parts (tw_pool w) (crash_at n (tw_wal w)) (tw_batch_size w)"

section \<open>The log holds the buffer\<close>

definition trade_ok :: "('dt, 'dec, 'db) writer_env \<Rightarrow> 'dt StagedTrade \<Rightarrow> bool" where
  "trade_ok env t \<longleftrightarrow>
     we_from_micros env (we_micros env (sg_time t)) = Some (sg_time t) \<and>
     (\<forall>s. sg_trade_id t = Some s \<longrightarrow> utf8_valid s \<and> length s < 2 ^ 32 - 64)"

definition log_of :: "('dt, 'dec, 'db) writer_env \<Rightarrow> 'dt StagedTrade list \<Rightarrow> bytes list" where
  "log_of env ts = map (encode_wal (we_micros env)) ts"

definition writer_inv :: "('dt, 'dec, 'db) writer_env \<Rightarrow> ('dt, 'db) TradeWriter \<Rightarrow> bool" where
  "writer_inv env w \<longleftrightarrow>
     wal_contents (tw_wal w) = log_bytes (log_of env (tw_buffer w)) \<and>
     (\<forall>t \<in> set (tw_buffer w). trade_ok env t)"

lemma encode_length:
  assumes "trade_ok env t"
  shows "length (encode_wal (we_micros env) t) < 2 ^ 32"
  using assms
  by (auto simp: encode_wal_def opt_bytes_def trade_ok_def simp del: to_le.simps split: option.split)

lemma decode_ok:
  "trade_ok env t \<Longrightarrow> decode_wal (we_from_micros env) (encode_wal (we_micros env) t) = Some t"
  by (rule decode_encode) (auto simp: trade_ok_def)

lemma log_of_length:
  "\<forall>t \<in> set ts. trade_ok env t \<Longrightarrow> \<forall>p \<in> set (log_of env ts). length p < 2 ^ 32"
  using encode_length by (auto simp: log_of_def)

lemma replay_log_of:
  "\<forall>t \<in> set ts. trade_ok env t \<Longrightarrow> replay_from (log_bytes (log_of env ts)) = log_of env ts"
  using replay_from_log [OF log_of_length, of ts env "[]"] by (simp add: replay_from.simps [of "[]"])

lemma decode_log_of:
  "\<forall>t \<in> set ts. trade_ok env t \<Longrightarrow> List.map_filter (decode_wal (we_from_micros env)) (log_of env ts) = ts"
  by (induction ts) (simp_all add: log_of_def decode_ok)

lemma stage_append_ok:
  assumes "writer_inv env w" and "trade_ok env t"
  obtains w1 where "stage_append env t w = (Inr (), w1)" and
    "wal_contents (tw_wal w1) = log_bytes (log_of env (tw_buffer w @ [t]))" and
    "tw_buffer w1 = tw_buffer w" and "tw_pool w1 = tw_pool w" and "tw_batch_size w1 = tw_batch_size w"
proof -
  let ?p = "encode_wal (we_micros env) t"
  have len: "length ?p < 2 ^ 32" using assms(2) by (rule encode_length)
  obtain off wal where wal: "wal_append ?p (tw_wal w) = (Inr off, wal)"
    using len by (simp add: wal_append_def Let_def)
  moreover have "wal_contents wal = log_bytes (log_of env (tw_buffer w @ [t]))"
    using assms(1) contents_append [OF len, of "tw_wal w"] wal
    by (simp add: writer_inv_def log_of_def log_bytes_def)
  ultimately show ?thesis
    by (intro that [of "w\<lparr>tw_wal := wal\<rparr>"]) (simp_all add: stage_append_def)
qed

section \<open>The database\<close>

text \<open>The unique key of the table, and what the INSERT with \<open>ON CONFLICT DO NOTHING\<close> promises: when it
  succeeds every row's key is in the table and no other key has come or gone. \<open>keys\<close> observes the
  table.\<close>

type_synonym 'dt trade_key = "'dt \<times> i32 \<times> bytes option"

definition row_key :: "('dt, 'dec) TradeRow \<Rightarrow> 'dt trade_key" where
  "row_key r = (rw_time r, rw_asset_id r, rw_trade_id r)"

definition key_of :: "'dt StagedTrade \<Rightarrow> 'dt trade_key" where
  "key_of t = (sg_time t, sg_asset_id t, sg_trade_id t)"

definition commits :: "('dt, 'dec, 'db) writer_env \<Rightarrow> ('db \<Rightarrow> 'dt trade_key set) \<Rightarrow> bool" where
  "commits env keys \<longleftrightarrow>
     (\<forall>rs db n db'. we_exec env rs db = (Inr n, db') \<longrightarrow> keys db' = keys db \<union> row_key ` set rs)"

definition always_succeeds :: "('dt, 'dec, 'db) writer_env \<Rightarrow> bool" where
  "always_succeeds env \<longleftrightarrow> (\<forall>rs db. \<exists>n db'. we_exec env rs db = (Inr n, db'))"

lemma row_key_trade_row [simp]: "row_key (trade_row D t) = key_of t"
  by (simp add: row_key_def trade_row_def key_of_def)

lemma flush_drained_ok:
  assumes "commits env keys" and "we_exec env (map (trade_row (we_decimal env)) batch) (tw_pool w) = (Inr n, db)"
    and "batch \<noteq> []"
  shows "fst (flush_drained env batch w) = Inr ()"
    and "keys (tw_pool (snd (flush_drained env batch w))) = keys (tw_pool w) \<union> key_of ` set batch"
    and "wal_contents (tw_wal (snd (flush_drained env batch w))) = []"
    and "tw_buffer (snd (flush_drained env batch w)) = tw_buffer w"
    and "tw_batch_size (snd (flush_drained env batch w)) = tw_batch_size w"
  using assms by (auto simp: flush_drained_def Let_def commits_def image_image)

text \<open>The trades a writer still answers for: in the table or in the buffer.\<close>

definition accounted :: "('db \<Rightarrow> 'dt trade_key set) \<Rightarrow> ('dt, 'db) TradeWriter \<Rightarrow> 'dt trade_key set" where
  "accounted keys w = keys (tw_pool w) \<union> key_of ` set (tw_buffer w)"

lemma stage_accounted:
  assumes inv: "writer_inv env w" and ok: "trade_ok env t" and db: "commits env keys" "always_succeeds env"
  shows "fst (stage env t w) = Inr () \<and> writer_inv env (snd (stage env t w)) \<and>
         accounted keys (snd (stage env t w)) = accounted keys w \<union> {key_of t}"
proof -
  obtain w1 where w1: "stage_append env t w = (Inr (), w1)"
    "wal_contents (tw_wal w1) = log_bytes (log_of env (tw_buffer w @ [t]))"
    "tw_buffer w1 = tw_buffer w" "tw_pool w1 = tw_pool w" "tw_batch_size w1 = tw_batch_size w"
    using stage_append_ok [OF inv ok] .
  let ?buf = "tw_buffer w @ [t]"
  show ?thesis
  proof (cases "tw_batch_size w \<le> length ?buf")
    case True
    obtain n db where "we_exec env (map (trade_row (we_decimal env)) ?buf) (tw_pool w1) = (Inr n, db)"
      using db(2) unfolding always_succeeds_def by blast
    then show ?thesis
      using flush_drained_ok [OF db(1), of ?buf "w1\<lparr>tw_buffer := []\<rparr>" n db] True w1
      by (simp add: stage_def stage_push_def Let_def accounted_def writer_inv_def log_of_def
          log_bytes_def insert_commute Un_commute Un_left_commute)
  next
    case False
    with w1 inv ok show ?thesis
      by (auto simp: stage_def stage_push_def Let_def accounted_def writer_inv_def)
  qed
qed

lemma flush_accounted:
  assumes inv: "writer_inv env w" and db: "commits env keys" "always_succeeds env"
  shows "fst (flush env w) = Inr (length (tw_buffer w)) \<and> writer_inv env (snd (flush env w)) \<and>
         tw_buffer (snd (flush env w)) = [] \<and> accounted keys (snd (flush env w)) = accounted keys w"
proof (cases "tw_buffer w = []")
  case True
  with inv show ?thesis by (simp add: flush_def Let_def accounted_def writer_inv_def)
next
  case False
  obtain n db' where "we_exec env (map (trade_row (we_decimal env)) (tw_buffer w)) (tw_pool w) = (Inr n, db')"
    using db(2) unfolding always_succeeds_def by blast
  then show ?thesis
    using flush_drained_ok [OF db(1), of "tw_buffer w" "w\<lparr>tw_buffer := []\<rparr>" n db'] False
    by (cases "flush_drained env (tw_buffer w) (w\<lparr>tw_buffer := []\<rparr>)")
       (auto simp: flush_def Let_def accounted_def writer_inv_def log_of_def log_bytes_def)
qed

text \<open>A schedule of calls of one task.\<close>

datatype 'dt writer_call = CallStage "'dt StagedTrade" | CallFlush

fun do_call :: "('dt, 'dec, 'db) writer_env \<Rightarrow> 'dt writer_call \<Rightarrow> ('dt, 'db) TradeWriter \<Rightarrow> ('dt, 'db) TradeWriter" where
  "do_call env (CallStage t) w = snd (stage env t w)"
| "do_call env CallFlush w = snd (flush env w)"

fun staged_in :: "'dt writer_call list \<Rightarrow> 'dt StagedTrade list" where
  "staged_in [] = []"
| "staged_in (CallStage t # cs) = t # staged_in cs"
| "staged_in (CallFlush # cs) = staged_in cs"

lemma calls_accounted:
  assumes "writer_inv env w" and "\<forall>t \<in> set (staged_in cs). trade_ok env t"
    and "commits env keys" and "always_succeeds env"
  shows "writer_inv env (fold (do_call env) cs w) \<and>
         accounted keys (fold (do_call env) cs w) = accounted keys w \<union> key_of ` set (staged_in cs)"
  using assms
proof (induction cs arbitrary: w rule: staged_in.induct)
  case (2 t cs)
  with stage_accounted [of env w t keys] show ?case by auto
next
  case (3 cs)
  with flush_accounted [of env w keys] show ?case by auto
qed simp

lemma writer_connect_simps [simp]:
  "tw_pool (writer_connect db bs n) = db" "tw_wal (writer_connect db bs n) = wal_open bs"
  "tw_buffer (writer_connect db bs n) = []" "tw_batch_size (writer_connect db bs n) = n"
  by (simp_all add: writer_connect_def from_parts_def)

lemma writer_inv_new [simp]: "writer_inv env (writer_connect db [] n)"
  by (simp add: writer_inv_def writer_connect_def from_parts_def log_of_def log_bytes_def)

section \<open>Failures and restarts\<close>

lemma flush_failed:
  assumes inv: "writer_inv env w" and ne: "tw_buffer w \<noteq> []"
    and ex: "we_exec env (map (trade_row (we_decimal env)) (tw_buffer w)) (tw_pool w) = (Inl e, db)"
  shows "flush env w = (Inl (PX_Database e), w\<lparr>tw_buffer := [], tw_wal := wal_sync (tw_wal w), tw_pool := db\<rparr>)"
  using ne ex by (simp add: flush_def flush_drained_def Let_def)

lemma flush_succeeded:
  assumes "tw_buffer w \<noteq> []"
    and "we_exec env (map (trade_row (we_decimal env)) (tw_buffer w)) (tw_pool w) = (Inr n, db)"
  shows "flush env w = (Inr (length (tw_buffer w)),
    w\<lparr>tw_buffer := [], tw_wal := wal_truncate (wal_sync (tw_wal w)), tw_pool := db\<rparr>)"
  using assms by (simp add: flush_def flush_drained_def Let_def)

lemma recover_log:
  assumes "wal_contents (tw_wal w) = log_bytes (log_of env ts)" and "\<forall>t \<in> set ts. trade_ok env t"
  shows "fst (recover_from_wal env w) = Inr (length ts) \<and>
         tw_buffer (snd (recover_from_wal env w)) = tw_buffer w @ ts"
proof -
  have "fst (wal_replay (tw_wal w)) = log_of env ts"
    using assms by (simp add: wal_replay_contents replay_log_of)
  with assms(2) show ?thesis
    by (cases "wal_replay (tw_wal w)") (simp add: recover_from_wal_def Let_def decode_log_of)
qed

lemma crash_synced: "wal_contents (crash_at n (wal_sync w)) = wal_contents w"
  by (simp add: crash_at_def)

lemma stage_buffers:
  assumes "writer_inv env w" and "trade_ok env t" and "Suc (length (tw_buffer w)) < tw_batch_size w"
  shows "fst (stage env t w) = Inr ()" and "writer_inv env (snd (stage env t w))"
    and "tw_buffer (snd (stage env t w)) = tw_buffer w @ [t]" and "tw_pool (snd (stage env t w)) = tw_pool w"
    and "tw_batch_size (snd (stage env t w)) = tw_batch_size w"
  by (rule stage_append_ok [OF assms(1,2)],
      use assms in \<open>auto simp: stage_def stage_push_def Let_def writer_inv_def\<close>)+

text \<open>A log whose bytes are all in the writer's buffer.\<close>

lemma append_in_buffer:
  assumes "wal_file w = []" and "length (wal_buf w) + length p + 8 \<le> buf_capacity"
  shows "wal_file (snd (wal_append p w)) = [] \<and> wal_synced (snd (wal_append p w)) = wal_synced w"
proof -
  have "buf_capacity < 2 ^ 32" by (simp add: buf_capacity_def)
  with assms show ?thesis
    by (auto simp: wal_append_def Let_def write_all_def buf_capacity_def simp del: to_le.simps)
qed

section \<open>Properties\<close>

text \<open>C6. No trade is lost while the database answers: from a fresh log, after any schedule of staging
  and flushing by one task, the table and the buffer together hold exactly the trades that were
  in the table at the start and those staged, and the log replays to exactly the trades still in
  the buffer, so a restart recovers them.\<close>

theorem writer_no_loss:
  assumes "commits env keys" and "always_succeeds env" and "\<forall>t \<in> set (staged_in cs). trade_ok env t"
  shows "let w = fold (do_call env) cs (writer_connect db [] n)
         in keys (tw_pool w) \<union> key_of ` set (tw_buffer w) = keys db \<union> key_of ` set (staged_in cs) \<and>
            List.map_filter (decode_wal (we_from_micros env)) (fst (wal_replay (tw_wal w))) = tw_buffer w"
proof -
  let ?w = "fold (do_call env) cs (writer_connect db [] n)"
  have c: "writer_inv env ?w \<and>
      accounted keys ?w = accounted keys (writer_connect db [] n) \<union> key_of ` set (staged_in cs)"
    using calls_accounted [of env "writer_connect db [] n" cs keys] assms by simp
  then have "fst (wal_replay (tw_wal ?w)) = log_of env (tw_buffer ?w)"
    by (simp add: wal_replay_contents writer_inv_def replay_log_of)
  with c show ?thesis
    by (simp add: Let_def accounted_def writer_inv_def decode_log_of writer_connect_def from_parts_def)
qed

text \<open>A table as a set of keys, and one that is down for its first \<open>k\<close> calls.\<close>

definition sample_decimal :: "nat decimal_ops" where
  "sample_decimal = \<lparr>from_f64 = (\<lambda>b. Some (unat b)), from_i64 = unat, dec_mul = (*), round_dp = (\<lambda>_ d. d),
     dec_default = 0\<rparr>"

definition sample_env :: "(i64, nat, nat \<times> i64 trade_key set) writer_env" where
  "sample_env = \<lparr>we_micros = (\<lambda>t. t), we_from_micros = Some, we_decimal = sample_decimal,
     we_exec = (\<lambda>rs (k, S). if k = 0 then (Inr (word_of_nat (length rs)), (0, S \<union> row_key ` set rs))
                            else (Inl ''down'', (k - 1, S)))\<rparr>"

lemma sample_trade_ok [simp]: "is_ascii i \<Longrightarrow> length i < 100 \<Longrightarrow> trade_ok sample_env (sample_staged i)"
  by (simp add: trade_ok_def sample_env_def sample_staged_def utf8_valid_ascii)

definition healthy_env :: "(i64, nat, i64 trade_key set) writer_env" where
  "healthy_env = \<lparr>we_micros = (\<lambda>t. t), we_from_micros = Some, we_decimal = sample_decimal,
     we_exec = (\<lambda>rs S. (Inr (word_of_nat (length rs)), S \<union> row_key ` set rs))\<rparr>"

theorem writer_no_loss_witness:
  "let w = fold (do_call healthy_env)
         [CallStage (sample_staged ''a''), CallFlush, CallStage (sample_staged ''b'')] (writer_connect {} [] 10)
   in tw_pool w \<union> key_of ` set (tw_buffer w) =
        {} \<union> key_of ` set (staged_in [CallStage (sample_staged ''a''), CallFlush, CallStage (sample_staged ''b'')]) \<and>
      List.map_filter (decode_wal (we_from_micros healthy_env)) (fst (wal_replay (tw_wal w))) = tw_buffer w"
  by (rule writer_no_loss [of healthy_env "\<lambda>S. S"])
     (auto simp: commits_def always_succeeds_def healthy_env_def trade_ok_def sample_staged_def
       utf8_valid_ascii is_ascii_def byte_in_def)

text \<open>A failed flush loses nothing if the daemon then restarts: the log was synced before the
  INSERT, so wherever the crash cuts the file, recovery brings back the whole batch, in order, and
  reports its size.\<close>

lemma writer_failed_flush_recovers:
  assumes "writer_inv env w" and "tw_buffer w \<noteq> []"
    and "we_exec env (map (trade_row (we_decimal env)) (tw_buffer w)) (tw_pool w) = (Inl e, db)"
  shows "fst (flush env w) = Inl (PX_Database e) \<and>
         (case recover_from_wal env (restart n (snd (flush env w))) of
            (r, w') \<Rightarrow> r = Inr (length (tw_buffer w)) \<and> tw_buffer w' = tw_buffer w)"
proof -
  let ?w = "restart n (snd (flush env w))"
  have "wal_contents (tw_wal ?w) = log_bytes (log_of env (tw_buffer w))"
    using assms by (simp add: flush_failed restart_def from_parts_def crash_synced writer_inv_def)
  moreover have "tw_buffer ?w = []" by (simp add: restart_def from_parts_def)
  ultimately show ?thesis
    using recover_log [of ?w env "tw_buffer w"] assms
    by (auto simp: flush_failed writer_inv_def split: prod.split)
qed

text \<open>C12. A failed flush loses its batch if the daemon keeps running: the drained trades are not put
  back into the buffer, and the next successful flush truncates the whole log. After staging one
  more trade and flushing it, the failed batch is neither in the buffer nor in the log, and the
  table has gained only the last trade.\<close>

theorem writer_failed_batch_is_dropped:
  assumes "writer_inv env w" and "tw_buffer w \<noteq> []" and "1 < tw_batch_size w" and "trade_ok env t"
    and "commits env keys"
    and "we_exec env (map (trade_row (we_decimal env)) (tw_buffer w)) (tw_pool w) = (Inl e, db)"
    and "we_exec env [trade_row (we_decimal env) t] db = (Inr n, db')"
  shows "let w' = snd (flush env (snd (stage env t (snd (flush env w)))))
         in tw_buffer w' = [] \<and> fst (wal_replay (tw_wal w')) = [] \<and>
            keys (tw_pool w') = keys db \<union> {key_of t}"
proof -
  define v where "v = snd (flush env w)"
  have v: "v = w\<lparr>tw_buffer := [], tw_wal := wal_sync (tw_wal w), tw_pool := db\<rparr>"
    unfolding v_def using flush_failed [OF assms(1,2,6)] by simp
  obtain off wal where wal: "wal_append (encode_wal (we_micros env) t) (tw_wal v) = (Inr off, wal)"
    using encode_length [OF assms(4)] by (simp add: wal_append_def Let_def)
  have st: "snd (stage env t v) = v\<lparr>tw_wal := wal, tw_buffer := [t]\<rparr>"
    using wal assms(3) by (simp add: stage_def stage_append_def stage_push_def Let_def v)
  have "flush env (v\<lparr>tw_wal := wal, tw_buffer := [t]\<rparr>) = (Inr 1,
      v\<lparr>tw_wal := wal_truncate (wal_sync wal), tw_buffer := [], tw_pool := db'\<rparr>)"
    using flush_succeeded [of "v\<lparr>tw_wal := wal, tw_buffer := [t]\<rparr>" env n db'] assms(7) by (simp add: v)
  moreover have "keys db' = keys db \<union> {key_of t}"
    using assms(5,7) unfolding commits_def by fastforce
  ultimately show ?thesis
    by (simp add: Let_def st v_def [symmetric] wal_replay_contents replay_from.simps [of "[]"])
qed

theorem writer_failed_batch_is_dropped_witness:
  "let w' = snd (flush sample_env (snd (stage sample_env (sample_staged ''b'') (snd (flush sample_env
           (snd (stage sample_env (sample_staged ''a'') (writer_connect (1, {}) [] 10))))))))
   in tw_buffer w' = [] \<and> fst (wal_replay (tw_wal w')) = [] \<and>
      snd (tw_pool w') = {} \<union> {key_of (sample_staged ''b'')}"
proof -
  let ?w = "snd (stage sample_env (sample_staged ''a'') (writer_connect (1, {}) [] 10))"
  have w: "writer_inv sample_env ?w" "tw_buffer ?w = [sample_staged ''a'']" "tw_pool ?w = (1, {})"
    "tw_batch_size ?w = 10"
    using stage_buffers [of sample_env "writer_connect (1, {}) [] 10" "sample_staged ''a''"]
    by (simp_all add: is_ascii_def byte_in_def)
  have "commits sample_env snd"
    by (auto simp: commits_def sample_env_def split: if_splits)
  moreover have "trade_ok sample_env (sample_staged ''b'')" by (simp add: is_ascii_def byte_in_def)
  moreover have "we_exec sample_env (map (trade_row (we_decimal sample_env)) (tw_buffer ?w)) (tw_pool ?w) =
      (Inl ''down'', (0, {}))"
    "we_exec sample_env [trade_row (we_decimal sample_env) (sample_staged ''b'')] (0, {}) =
      (Inr 1, (0, {key_of (sample_staged ''b'')}))"
    using w by (simp_all add: sample_env_def)
  ultimately show ?thesis
    using writer_failed_batch_is_dropped [of sample_env ?w "sample_staged ''b''" snd "''down''" "(0, {})"] w
    by simp
qed

text \<open>Two tasks can lose a trade even when the database never fails, because staging appends to
  the log before it takes the buffer's lock. When a flush by another task falls between the two,
  it truncates the log record of a trade it has not written: the trade then sits in the buffer of
  a log that replays to nothing, and a crash forgets it.\<close>

lemma writer_stage_flush_race:
  assumes "writer_inv env w" and "tw_buffer w \<noteq> []" and "1 < tw_batch_size w" and "trade_ok env t"
    and "always_succeeds env"
  shows "let w1 = snd (stage_append env t w); w2 = snd (flush env w1); w3 = snd (stage_push env t w2)
         in tw_buffer w3 = [t] \<and>
            tw_buffer (snd (recover_from_wal env (restart n w3))) = []"
proof -
  obtain w1 where w1: "stage_append env t w = (Inr (), w1)" "tw_buffer w1 = tw_buffer w"
    "tw_batch_size w1 = tw_batch_size w"
    by (rule stage_append_ok [OF assms(1,4)])
  obtain k db where "we_exec env (map (trade_row (we_decimal env)) (tw_buffer w1)) (tw_pool w1) = (Inr k, db)"
    using assms(5) unfolding always_succeeds_def by blast
  then have w2: "snd (flush env w1) =
      w1\<lparr>tw_buffer := [], tw_wal := wal_truncate (wal_sync (tw_wal w1)), tw_pool := db\<rparr>"
    using flush_succeeded [of w1 env k db] assms(2) w1 by simp
  let ?w3 = "snd (stage_push env t (snd (flush env w1)))"
  have w3: "tw_buffer ?w3 = [t]" "tw_wal ?w3 = wal_truncate (wal_sync (tw_wal w1))"
    using assms(3) w1 by (simp_all add: stage_push_def Let_def w2)
  have "wal_contents (crash_at n (wal_truncate (wal_sync (tw_wal w1)))) = []"
    by (simp add: crash_at_def wal_truncate_def)
  then have "tw_buffer (snd (recover_from_wal env (restart n ?w3))) = []"
    using recover_log [of "restart n ?w3" env "[]"] w3
    by (simp add: restart_def from_parts_def log_of_def log_bytes_def)
  with w1 w3 show ?thesis by (simp add: Let_def)
qed

text \<open>An acknowledged trade is not yet on disk: staging returns success while the record is only
  in the process's write buffer, so a crash before the next flush forgets it, wherever the file
  is cut. The documentation of the log says every staged trade is synced before it is
  acknowledged.\<close>

lemma writer_ack_is_not_durable:
  assumes "trade_ok env t" and "1 < batch_size"
    and "length (encode_wal (we_micros env) t) + 8 \<le> buf_capacity"
  shows "fst (stage env t (writer_connect db [] batch_size)) = Inr () \<and>
         tw_buffer (snd (recover_from_wal env
           (restart n (snd (stage env t (writer_connect db [] batch_size)))))) = []"
proof -
  let ?s = "snd (stage env t (writer_connect db [] batch_size))"
  let ?a = "wal_append (encode_wal (we_micros env) t) (wal_open [])"
  have wal: "tw_wal ?s = snd ?a"
    using encode_length [OF assms(1)] assms(2)
    by (simp add: stage_def stage_append_def stage_push_def Let_def wal_append_def)
  have "wal_file (snd ?a) = [] \<and> wal_synced (snd ?a) = 0"
    using append_in_buffer [of "wal_open []"] assms(3) by (simp add: wal_open_def)
  then have "wal_contents (tw_wal (restart n ?s)) = []"
    by (simp add: restart_def from_parts_def crash_at_def wal)
  then have "tw_buffer (snd (recover_from_wal env (restart n ?s))) = []"
    using recover_log [of "restart n ?s" env "[]"]
    by (simp add: log_of_def log_bytes_def) (simp add: restart_def from_parts_def)
  moreover have "fst (stage env t (writer_connect db [] batch_size)) = Inr ()"
    by (rule stage_buffers [OF writer_inv_new assms(1)]) (use assms(2) in simp)
  ultimately show ?thesis by simp
qed

end
