(* ===== verification/Fanout.thy ===== *)
theory Fanout
  imports Prelude
begin

text \<open>
  \<^verbatim>\<open>crates/fanout/src/\<close>: the keys of published snapshots (\<^verbatim>\<open>types.rs\<close>), the sinks (\<^verbatim>\<open>publisher.rs\<close>) and
  the coalescer (\<^verbatim>\<open>coalescer.rs\<close>). A sink is the argument \<open>publish\<close>, a function of a sink state; the
  NATS client and the Redis connection of the production sink are arguments too. The pending map
  is drained in the hash map's own order, so \<open>flush_once\<close> takes that order as an argument.
\<close>

section \<open>Lossy UTF-8\<close>

text \<open>\<open>String::from_utf8_lossy\<close> replaces each maximal prefix of a sequence that cannot be completed by
  the replacement character. \<open>utf8_chunk\<close> says whether the next character is well-formed and how
  many bytes it, or the ill-formed prefix, takes.\<close>

definition cont :: "bytes \<Rightarrow> nat \<Rightarrow> bool" where
  "cont bs i \<longleftrightarrow> i < length bs \<and> byte_in (bs ! i) 128 191"

definition second_ok :: "u8 \<Rightarrow> u8 \<Rightarrow> bool" where
  "second_ok a b \<longleftrightarrow>
     (if byte_in a 224 224 then byte_in b 160 191
      else if byte_in a 237 237 then byte_in b 128 159
      else if byte_in a 240 240 then byte_in b 144 191
      else if byte_in a 244 244 then byte_in b 128 143
      else byte_in b 128 191)"

definition utf8_chunk :: "bytes \<Rightarrow> bool \<times> nat" where
  "utf8_chunk bs =
     (let a = hd bs
      in if byte_in a 0 127 then (True, 1)
         else if byte_in a 194 223 then (if cont bs 1 then (True, 2) else (False, 1))
         else if byte_in a 224 239 then
           (if \<not> (1 < length bs \<and> second_ok a (bs ! 1)) then (False, 1)
            else if cont bs 2 then (True, 3) else (False, 2))
         else if byte_in a 240 244 then
           (if \<not> (1 < length bs \<and> second_ok a (bs ! 1)) then (False, 1)
            else if \<not> cont bs 2 then (False, 2)
            else if cont bs 3 then (True, 4) else (False, 3))
         else (False, 1))"

definition replacement :: bytes where
  "replacement = map char_of [0xEF, 0xBF, 0xBD :: nat]"

lemma utf8_chunk_pos: "(ok, n) = utf8_chunk bs \<Longrightarrow> 0 < n"
  by (auto simp: utf8_chunk_def Let_def split: if_splits)

function from_utf8_lossy :: "bytes \<Rightarrow> bytes" where
  "from_utf8_lossy bs =
     (if bs = [] then []
      else case utf8_chunk bs of
        (ok, n) \<Rightarrow> (if ok then take n bs else replacement) @ from_utf8_lossy (drop n bs))"
  by pat_completeness auto
termination
proof (relation "measure length", goal_cases)
  case (2 bs)
  then show ?case using utf8_chunk_pos [of _ _ bs] by (cases bs) auto
qed simp

declare from_utf8_lossy.simps [simp del]

lemma second_ok_iff:
  "byte_in a 224 239 \<Longrightarrow> second_ok a b \<longleftrightarrow>
     byte_in a 224 224 \<and> byte_in b 160 191 \<or> byte_in a 225 236 \<and> byte_in b 128 191 \<or>
     byte_in a 237 237 \<and> byte_in b 128 159 \<or> byte_in a 238 239 \<and> byte_in b 128 191"
  "byte_in a 240 244 \<Longrightarrow> second_ok a b \<longleftrightarrow>
     byte_in a 240 240 \<and> byte_in b 144 191 \<or> byte_in a 241 243 \<and> byte_in b 128 191 \<or>
     byte_in a 244 244 \<and> byte_in b 128 143"
  by (auto simp: second_ok_def byte_in_def)

lemma lead_ranges:
  "byte_in a 224 224 \<or> byte_in a 225 236 \<or> byte_in a 237 237 \<or> byte_in a 238 239 \<longleftrightarrow> byte_in a 224 239"
  "byte_in a 240 240 \<or> byte_in a 241 243 \<or> byte_in a 244 244 \<longleftrightarrow> byte_in a 240 244"
  by (auto simp: byte_in_def)

lemma utf8_chunk_valid:
  assumes "utf8_valid bs" and "bs \<noteq> []"
  shows "\<exists>n. utf8_chunk bs = (True, n) \<and> utf8_valid (drop n bs)"
  using assms
proof (cases bs rule: utf8_valid.cases)
  case (2 a)
  with assms show ?thesis by (simp add: utf8_chunk_def)
next
  case (3 a b)
  with assms show ?thesis by (auto simp: utf8_chunk_def cont_def split: if_splits)
next
  case (4 a b c)
  show ?thesis
  proof (cases "byte_in a 0 127 \<or> byte_in a 194 223")
    case True
    with 4 assms show ?thesis by (auto simp: utf8_chunk_def cont_def split: if_splits)
  next
    case False
    with 4 assms have "byte_in a 224 239" using lead_ranges(1) [of a] by auto
    with 4 False assms show ?thesis by (auto simp: utf8_chunk_def cont_def second_ok_iff(1))
  qed
next
  case (5 a b c d rest)
  consider "byte_in a 0 127 \<or> byte_in a 194 223" | "\<not> (byte_in a 0 127 \<or> byte_in a 194 223)" "byte_in a 224 239"
    | "\<not> (byte_in a 0 127 \<or> byte_in a 194 223)" "\<not> byte_in a 224 239" "byte_in a 240 244"
    using 5 assms lead_ranges(2) [of a] by (auto split: if_splits)
  then show ?thesis
  proof cases
    case 1
    with 5 assms show ?thesis by (auto simp: utf8_chunk_def cont_def split: if_splits)
  next
    case 2
    with 5 assms show ?thesis by (auto simp: utf8_chunk_def cont_def second_ok_iff(1))
  next
    case 3
    with 5 assms show ?thesis by (auto simp: utf8_chunk_def cont_def second_ok_iff(2))
  qed
qed simp

lemma from_utf8_lossy_valid: "utf8_valid bs \<Longrightarrow> from_utf8_lossy bs = bs"
proof (induction bs rule: from_utf8_lossy.induct)
  case (1 bs)
  show ?case
  proof (cases "bs = []")
    case True
    then show ?thesis by (simp add: from_utf8_lossy.simps [of "[]"])
  next
    case False
    with 1 utf8_chunk_valid obtain n where n: "utf8_chunk bs = (True, n)" "utf8_valid (drop n bs)"
      by blast
    with 1 False have "from_utf8_lossy (drop n bs) = drop n bs" by auto
    with n False show ?thesis by (simp add: from_utf8_lossy.simps [of bs])
  qed
qed

section \<open>Keys\<close>

datatype Kind = K_Quote | K_Book | K_Trade

fun Kind_as_str :: "Kind \<Rightarrow> bytes" where
  "Kind_as_str K_Quote = ''quote''"
| "Kind_as_str K_Book = ''book''"
| "Kind_as_str K_Trade = ''trade''"

definition Kind_fmt :: "Kind \<Rightarrow> bytes" where
  "Kind_fmt k = Kind_as_str k"

record PublishKey =
  pk_kind :: Kind
  pk_ticker :: bytes

definition PublishKey_new :: "Kind \<Rightarrow> bytes \<Rightarrow> PublishKey" where
  "PublishKey_new kind ticker = \<lparr>pk_kind = kind, pk_ticker = ticker\<rparr>"

definition nats_subject :: "PublishKey \<Rightarrow> bytes" where
  "nats_subject k =
     ''market.'' @ Kind_as_str (pk_kind k) @ ''.'' @
     (if utf8_valid (pk_ticker k) then pk_ticker k else from_utf8_lossy (pk_ticker k))"

definition redis_key :: "PublishKey \<Rightarrow> bytes" where
  "redis_key k =
     ''market:'' @ Kind_as_str (pk_kind k) @ '':'' @
     (if utf8_valid (pk_ticker k) then pk_ticker k else from_utf8_lossy (pk_ticker k))"

lemma keys_lossy:
  "nats_subject k = ''market.'' @ Kind_as_str (pk_kind k) @ ''.'' @ from_utf8_lossy (pk_ticker k)"
  "redis_key k = ''market:'' @ Kind_as_str (pk_kind k) @ '':'' @ from_utf8_lossy (pk_ticker k)"
  by (simp_all add: nats_subject_def redis_key_def from_utf8_lossy_valid)

section \<open>Sinks\<close>

datatype FanoutError = FE_Nats string | FE_NatsConnect string | FE_Redis string | FE_Config string

type_synonym 's sink = "PublishKey \<Rightarrow> bytes \<Rightarrow> 's \<Rightarrow> (FanoutError + unit) \<times> 's"

type_synonym NoopSink = "(PublishKey \<times> bytes) list"

definition noop_publish :: "NoopSink sink" where
  "noop_publish key payload calls = (Inr (), calls @ [(key, payload)])"

definition take_calls :: "NoopSink \<Rightarrow> (PublishKey \<times> bytes) list \<times> NoopSink" where
  "take_calls calls = (calls, [])"

text \<open>The production sink: both writes run (concurrently, on separate services), then the NATS error
  is reported first.\<close>

record ('n, 'r) FanoutPublisher =
  fp_nats :: "bytes \<Rightarrow> bytes \<Rightarrow> 'n \<Rightarrow> (string + unit) \<times> 'n"
  fp_redis_set :: "bytes \<Rightarrow> bytes \<Rightarrow> u64 option \<Rightarrow> 'r \<Rightarrow> (string + unit) \<times> 'r"
  fp_snapshot_ttl_seconds :: "u64 option"

definition publisher_publish :: "('n, 'r) FanoutPublisher \<Rightarrow> ('n \<times> 'r) sink" where
  "publisher_publish P key payload = (\<lambda>(n, r).
     (case fp_nats P (nats_subject key) payload n of
        (nats_res, n') \<Rightarrow>
          (case fp_redis_set P (redis_key key) payload (fp_snapshot_ttl_seconds P) r of
             (redis_res, r') \<Rightarrow>
               (case nats_res of
                  Inl e \<Rightarrow> (Inl (FE_Nats e), (n', r'))
                | Inr _ \<Rightarrow>
                    (case redis_res of
                       Inl e \<Rightarrow> (Inl (FE_Redis e), (n', r'))
                     | Inr _ \<Rightarrow> (Inr (), (n', r')))))))"

section \<open>The coalescer\<close>

record 's Coalescer =
  co_sink :: 's
  co_pending :: "PublishKey \<rightharpoonup> bytes"
  co_quote_window :: nat
  co_book_window :: nat
  co_trade_window :: nat

definition Coalescer_new :: "'s \<Rightarrow> 's Coalescer" where
  "Coalescer_new sink =
     \<lparr>co_sink = sink, co_pending = Map.empty, co_quote_window = 50, co_book_window = 100,
      co_trade_window = 0\<rparr>"

definition set_window :: "Kind \<Rightarrow> nat \<Rightarrow> 's Coalescer \<Rightarrow> 's Coalescer" where
  "set_window kind window c =
     (case kind of
        K_Quote \<Rightarrow> c\<lparr>co_quote_window := window\<rparr>
      | K_Book \<Rightarrow> c\<lparr>co_book_window := window\<rparr>
      | K_Trade \<Rightarrow> c\<lparr>co_trade_window := window\<rparr>)"

definition window_for :: "'s Coalescer \<Rightarrow> Kind \<Rightarrow> nat" where
  "window_for c kind =
     (case kind of K_Quote \<Rightarrow> co_quote_window c | K_Book \<Rightarrow> co_book_window c | K_Trade \<Rightarrow> co_trade_window c)"

definition submit :: "'s sink \<Rightarrow> PublishKey \<Rightarrow> bytes \<Rightarrow> 's Coalescer \<Rightarrow> 's Coalescer" where
  "submit publish key payload c =
     (if window_for c (pk_kind key) = 0 then c\<lparr>co_sink := snd (publish key payload (co_sink c))\<rparr>
      else c\<lparr>co_pending := (co_pending c)(key \<mapsto> payload)\<rparr>)"

definition flush_once :: "'s sink \<Rightarrow> PublishKey list \<Rightarrow> 's Coalescer \<Rightarrow> 's Coalescer" where
  "flush_once publish order c =
     c\<lparr>co_pending := Map.empty,
       co_sink := fold (\<lambda>k s. snd (publish k (the (co_pending c k)) s)) order (co_sink c)\<rparr>"

definition drain_order :: "PublishKey list \<Rightarrow> 's Coalescer \<Rightarrow> bool" where
  "drain_order order c \<longleftrightarrow> distinct order \<and> set order = dom (co_pending c)"

definition min_nonzero_window :: "'s Coalescer \<Rightarrow> nat option" where
  "min_nonzero_window c =
     (case filter (\<lambda>d. d \<noteq> 0) [co_quote_window c, co_book_window c, co_trade_window c] of
        [] \<Rightarrow> None
      | d # ds \<Rightarrow> Some (fold min ds d))"

text \<open>The period of the flush task.\<close>

definition flush_tick :: "'s Coalescer \<Rightarrow> nat" where
  "flush_tick c = (case min_nonzero_window c of None \<Rightarrow> 50 | Some d \<Rightarrow> d)"

section \<open>What is published\<close>

definition submit_all :: "'s sink \<Rightarrow> (PublishKey \<times> bytes) list \<Rightarrow> 's Coalescer \<Rightarrow> 's Coalescer" where
  "submit_all publish subs c = fold (\<lambda>(k, p). submit publish k p) subs c"

definition batched :: "'s Coalescer \<Rightarrow> PublishKey \<Rightarrow> bool" where
  "batched c k \<longleftrightarrow> window_for c (pk_kind k) \<noteq> 0"

lemma window_for_updates [simp]:
  "window_for (c\<lparr>co_sink := s\<rparr>) k = window_for c k"
  "window_for (c\<lparr>co_pending := m\<rparr>) k = window_for c k"
  by (simp_all add: window_for_def split: Kind.split)

lemma noop_publish_calls [simp]: "snd (noop_publish k p calls) = calls @ [(k, p)]"
  by (simp add: noop_publish_def)

lemma submit_all_noop:
  "co_sink (submit_all noop_publish subs c) = co_sink c @ filter (\<lambda>(k, p). \<not> batched c k) subs \<and>
   co_pending (submit_all noop_publish subs c) =
     co_pending c ++ map_of (rev (filter (\<lambda>(k, p). batched c k) subs))"
proof (induction subs arbitrary: c)
  case Nil
  then show ?case by (simp add: submit_all_def)
next
  case (Cons x subs)
  obtain k p where x: "x = (k, p)" by (cases x)
  have b: "batched (submit noop_publish k p c) = batched c"
    by (simp add: fun_eq_iff batched_def submit_def)
  have "submit_all noop_publish (x # subs) c = submit_all noop_publish subs (submit noop_publish k p c)"
    by (simp add: submit_all_def x)
  then show ?case
    using Cons.IH [of "submit noop_publish k p c"] x b
    by (auto simp: submit_def batched_def [of c k] fun_eq_iff map_add_def split: option.split)
qed

lemma flush_once_noop:
  "co_sink (flush_once noop_publish order c) = co_sink c @ map (\<lambda>k. (k, the (co_pending c k))) order"
proof -
  have "fold (\<lambda>k s. snd (noop_publish k (f k) s)) ks s = s @ map (\<lambda>k. (k, f k)) ks" for f ks s
    by (induction ks arbitrary: s) simp_all
  then show ?thesis by (simp add: flush_once_def)
qed

lemma map_of_drained:
  assumes "distinct order" and "set order = dom m"
  shows "map_of (map (\<lambda>k. (k, the (m k))) order) = m"
  using assms by (auto simp: map_of_map_restrict fun_eq_iff restrict_map_def)

lemma redis_key_inj:
  "utf8_valid (pk_ticker a) \<Longrightarrow> utf8_valid (pk_ticker b) \<Longrightarrow> redis_key a = redis_key b \<longleftrightarrow> a = b"
  by (cases a; cases b; cases "pk_kind a"; cases "pk_kind b") (auto simp: redis_key_def)

lemma nats_subject_inj:
  "utf8_valid (pk_ticker a) \<Longrightarrow> utf8_valid (pk_ticker b) \<Longrightarrow> nats_subject a = nats_subject b \<longleftrightarrow> a = b"
  by (cases a; cases b; cases "pk_kind a"; cases "pk_kind b") (auto simp: nats_subject_def)

lemma map_of_rename:
  "inj_on f (insert k (fst ` set xs)) \<Longrightarrow> map_of (map (\<lambda>(k, p). (f k, p)) xs) (f k) = map_of xs k"
  by (induction xs) (auto simp: inj_on_def)

lemma map_of_filter_key:
  "map_of (filter (\<lambda>(k, p). P k) xs) k = (if P k then map_of xs k else None)"
  by (induction xs) auto

section \<open>Properties\<close>

text \<open>Coalescing keeps exactly the latest: after any submissions to a coalescer with any windows
  and one flush, in whatever order the map is drained, the sink has been called with every
  submission of the kinds without a window, in order, and then once for each key of the other
  kinds, with the last payload submitted for it.\<close>

lemma coalescer_publishes_latest:
  assumes "co_pending c = Map.empty" and "co_sink c = []"
    and "drain_order order (submit_all noop_publish subs c)"
  shows "\<exists>batch. co_sink (flush_once noop_publish order (submit_all noop_publish subs c)) =
                   filter (\<lambda>(k, p). \<not> batched c k) subs @ batch \<and>
                 map fst batch = order \<and>
                 map_of batch = map_of (rev (filter (\<lambda>(k, p). batched c k) subs))"
proof -
  let ?c = "submit_all noop_publish subs c"
  have p: "co_pending ?c = map_of (rev (filter (\<lambda>(k, p). batched c k) subs))"
    using submit_all_noop [of subs c] assms by simp
  have o: "distinct order" "set order = dom (co_pending ?c)"
    using assms(3) by (simp_all add: drain_order_def)
  show ?thesis
    using submit_all_noop [of subs c] assms(2) map_of_drained [OF o] p
    by (intro exI [of _ "map (\<lambda>k. (k, the (co_pending ?c k))) order"]) (simp add: flush_once_noop comp_def)
qed

lemma flush_tick_covers:
  "window_for c kind \<noteq> 0 \<Longrightarrow> flush_tick c \<le> window_for c kind"
  by (auto simp: flush_tick_def min_nonzero_window_def window_for_def split: Kind.split)

end
