(* ===== verification/Archive.thy ===== *)
theory Archive
  imports Prelude
begin

text \<open>
  \<^verbatim>\<open>crates/raw-archive/src/writer.rs\<close>: the hourly raw archive. The writer thread runs over a script with
  one entry per frame received: the frame, the clock of \<open>Utc::now\<close>, and how the calls on the file and
  the zstd encoder went. What is kept of an encoder is the bytes handed to it; zstd is assumed to give
  back those bytes for a finished stream. An encoder that is dropped without \<open>finish\<close> leaves a stream
  of unknown end, which goes to \<open>ar_torn\<close>. Hour files are opened for appending, so a file can hold several streams,
  among them those of earlier runs of the program; \<open>ar_finished\<close> lists the finished streams of all files in the order
  they were written, beginning with those found in the directory, which are taken to be finished. The sending half of the channel is the parameter
  of \<open>try_push\<close>.
\<close>

section \<open>The producer's side\<close>

datatype push_result = PushSent | PushFull | PushDisconnected

record 'c ArchiveHandle =
  ah_tx :: 'c
  ah_dropped_frames :: nat

definition try_push :: "('c \<Rightarrow> bytes \<Rightarrow> push_result \<times> 'c) \<Rightarrow> bytes \<Rightarrow> 'c ArchiveHandle \<Rightarrow>
    bool \<times> 'c ArchiveHandle" where
  "try_push try_send frame h =
     (case try_send (ah_tx h) frame of
        (PushSent, c) \<Rightarrow> (True, h\<lparr>ah_tx := c\<rparr>)
      | (PushFull, c) \<Rightarrow> (False, h\<lparr>ah_tx := c, ah_dropped_frames := ah_dropped_frames h + 1\<rparr>)
      | (PushDisconnected, c) \<Rightarrow> (False, h\<lparr>ah_tx := c\<rparr>))"

section \<open>Hour files\<close>

record timestamp =
  ts_year :: int
  ts_month :: nat
  ts_day :: nat
  ts_hour :: nat

definition hour_key :: "timestamp \<Rightarrow> int \<times> nat \<times> nat \<times> nat" where
  "hour_key t = (ts_year t, ts_month t, ts_day t, ts_hour t)"

text \<open>\<open>{:0w}\<close>: the sign counts towards the width and stands before the zeros.\<close>

definition pad_nat :: "nat \<Rightarrow> nat \<Rightarrow> bytes" where
  "pad_nat w n = (let d = show_nat n in replicate (w - length d) (CHR ''0'') @ d)"

definition pad_int :: "nat \<Rightarrow> int \<Rightarrow> bytes" where
  "pad_int w i = (if i < 0 then ''-'' @ pad_nat (w - 1) (nat (- i)) else pad_nat w (nat i))"

definition current_path :: "timestamp \<Rightarrow> bytes" where
  "current_path t =
     pad_int 4 (ts_year t) @ ''-'' @ pad_nat 2 (ts_month t) @ ''-'' @ pad_nat 2 (ts_day t) @ ''T'' @
     pad_nat 2 (ts_hour t) @ ''.zst''"

text \<open>Paths of hour files are names inside the root directory.\<close>

record ArchiveConfig =
  ag_root :: bytes
  ag_zstd_level :: i32
  ag_channel_capacity :: usize
  ag_flush_every_bytes :: usize

definition ArchiveConfig_default :: ArchiveConfig where
  "ArchiveConfig_default =
     \<lparr>ag_root = ''/var/data/raw'', ag_zstd_level = 3, ag_channel_capacity = 65536, ag_flush_every_bytes = 1024 * 1024\<rparr>"

record HourFile =
  hf_path :: bytes
  hf_stream :: bytes
  hf_flushed :: usize
  hf_hour_key :: "int \<times> nat \<times> nat \<times> nat"
  hf_bytes_since_flush :: usize
  hf_flush_threshold :: usize

text \<open>\<open>open\<close> creates the file or opens it for appending and starts a new stream behind what the file holds.\<close>

definition HourFile_open :: "ArchiveConfig \<Rightarrow> timestamp \<Rightarrow> HourFile" where
  "HourFile_open cfg now =
     \<lparr>hf_path = current_path now, hf_stream = [], hf_flushed = 0, hf_hour_key = hour_key now,
      hf_bytes_since_flush = 0, hf_flush_threshold = ag_flush_every_bytes cfg\<rparr>"

text \<open>The record of a frame; the length is cut to 32 bits, as by \<open>as u32\<close>.\<close>

definition frame_record :: "bytes \<Rightarrow> bytes" where
  "frame_record frame = to_le 4 (unat (word_of_nat (length frame) :: u32)) @ frame @ [CHR 0x0A]"

definition write_frame :: "bytes \<Rightarrow> HourFile \<Rightarrow> HourFile" where
  "write_frame frame f =
     (let f1 = f\<lparr>hf_stream := hf_stream f @ frame_record frame,
                 hf_bytes_since_flush := hf_bytes_since_flush f + (length frame + 5)\<rparr>
      in if hf_flush_threshold f1 \<le> hf_bytes_since_flush f1
         then f1\<lparr>hf_flushed := length (hf_stream f1), hf_bytes_since_flush := 0\<rparr>
         else f1)"

section \<open>The writer thread\<close>

record archive =
  ar_state :: "HourFile option"
  ar_finished :: "(bytes \<times> bytes) list"
  ar_torn :: "HourFile list"
  ar_finalize_errors :: nat
  ar_open_errors :: nat
  ar_write_errors :: nat
  ar_frames_written :: nat
  ar_bytes_in :: nat

record archive_turn =
  at_frame :: bytes
  at_now :: timestamp
  at_finalize_ok :: bool
  at_open_ok :: bool
  at_write_ok :: bool

definition archive_start :: "(bytes \<times> bytes) list \<Rightarrow> archive" where
  "archive_start found =
     \<lparr>ar_state = None, ar_finished = found, ar_torn = [], ar_finalize_errors = 0, ar_open_errors = 0,
      ar_write_errors = 0, ar_frames_written = 0, ar_bytes_in = 0\<rparr>"

definition finalize :: "bool \<Rightarrow> HourFile \<Rightarrow> archive \<Rightarrow> bool \<times> archive" where
  "finalize ok f a =
     (if ok then (True, a\<lparr>ar_finished := ar_finished a @ [(hf_path f, hf_stream f)]\<rparr>)
      else (False, a\<lparr>ar_torn := ar_torn a @ [f]\<rparr>))"

definition rotate :: "ArchiveConfig \<Rightarrow> archive_turn \<Rightarrow> archive \<Rightarrow> archive" where
  "rotate cfg e a =
     (let a1 = (case ar_state a of
                  None \<Rightarrow> a
                | Some prev \<Rightarrow>
                    (case finalize (at_finalize_ok e) prev (a\<lparr>ar_state := None\<rparr>) of
                       (True, b) \<Rightarrow> b
                     | (False, b) \<Rightarrow> b\<lparr>ar_finalize_errors := ar_finalize_errors b + 1\<rparr>))
      in if at_open_ok e then a1\<lparr>ar_state := Some (HourFile_open cfg (at_now e))\<rparr>
         else a1\<lparr>ar_open_errors := ar_open_errors a1 + 1\<rparr>)"

definition archive_step :: "ArchiveConfig \<Rightarrow> archive_turn \<Rightarrow> archive \<Rightarrow> archive" where
  "archive_step cfg e a =
     (let need_rotate = (case ar_state a of None \<Rightarrow> True | Some s \<Rightarrow> hf_hour_key s \<noteq> hour_key (at_now e));
          a1 = (if need_rotate then rotate cfg e a else a)
      in case ar_state a1 of
           None \<Rightarrow> a1
         | Some f \<Rightarrow>
             if at_write_ok e
             then a1\<lparr>ar_state := Some (write_frame (at_frame e) f),
                     ar_frames_written := ar_frames_written a1 + 1,
                     ar_bytes_in := ar_bytes_in a1 + length (at_frame e)\<rparr>
             else a1\<lparr>ar_state := None, ar_torn := ar_torn a1 @ [f],
                     ar_write_errors := ar_write_errors a1 + 1\<rparr>)"

text \<open>The loop over every frame received, and the final \<open>finalize\<close> once the channel is closed.\<close>

definition writer_loop :: "ArchiveConfig \<Rightarrow> (bytes \<times> bytes) list \<Rightarrow> archive_turn list \<Rightarrow> bool \<Rightarrow> archive" where
  "writer_loop cfg found turns last_ok =
     (let a = fold (archive_step cfg) turns (archive_start found)
      in case ar_state a of
           None \<Rightarrow> a
         | Some f \<Rightarrow> snd (finalize last_ok f (a\<lparr>ar_state := None\<rparr>)))"

section \<open>Start and end\<close>

datatype ArchiveError = AX_Io string | AX_AlreadyClosed

text \<open>\<open>spawn\<close>, with the outcome of creating the directories and of starting the thread, and the channel of a
  given capacity.\<close>

definition ArchiveWriter_spawn :: "(bytes \<Rightarrow> string option) \<Rightarrow> string option \<Rightarrow> (usize \<Rightarrow> 'c) \<Rightarrow> ArchiveConfig \<Rightarrow>
    ArchiveError + 'c ArchiveHandle" where
  "ArchiveWriter_spawn create_dir_all thread bounded config =
     (case create_dir_all (ag_root config) of
        Some e \<Rightarrow> Inl (AX_Io e)
      | None \<Rightarrow>
          (case thread of
             Some e \<Rightarrow> Inl (AX_Io e)
           | None \<Rightarrow> Inr \<lparr>ah_tx = bounded (ag_channel_capacity config), ah_dropped_frames = 0\<rparr>))"

text \<open>\<open>shutdown\<close> closes the channel, so the thread's loop ends with what the channel held, and joins the thread
  (\<open>None\<close>: it panicked).\<close>

definition archive_shutdown :: "archive option \<Rightarrow> ArchiveError + archive" where
  "archive_shutdown joined = (case joined of None \<Rightarrow> Inl (AX_Io ''writer thread panicked'') | Some a \<Rightarrow> Inr a)"

section \<open>Reading an archive back\<close>

text \<open>A reader of the documented format: a length, that many bytes and a newline, repeatedly.\<close>

function read_frames :: "bytes \<Rightarrow> bytes list option" where
  "read_frames bs =
     (if bs = [] then Some []
      else if length bs < 5 then None
      else let n = from_le (take 4 bs); rest = drop 4 bs
           in if n < length rest \<and> rest ! n = CHR 0x0A
              then map_option ((#) (take n rest)) (read_frames (drop (n + 1) rest))
              else None)"
  by pat_completeness auto
termination by (relation "measure length") auto

declare read_frames.simps [simp del]

text \<open>The contents of a file, decompressed: its streams one after the other.\<close>

definition streams_of :: "bytes \<Rightarrow> (bytes \<times> bytes) list \<Rightarrow> bytes" where
  "streams_of path streams = concat (map snd (filter (\<lambda>s. fst s = path) streams))"

definition file_stream :: "bytes \<Rightarrow> archive \<Rightarrow> bytes" where
  "file_stream path a = streams_of path (ar_finished a)"

lemma read_frames_record:
  assumes "length f < 2 ^ 32"
  shows "read_frames (frame_record f @ bs) = map_option ((#) f) (read_frames bs)"
proof -
  have "unat (word_of_nat (length f) :: u32) = length f"
    using assms by (simp add: unat_of_nat)
  moreover have "from_le (to_le 4 (length f)) = length f"
    using assms by (intro from_le_to_le) simp
  ultimately show ?thesis
    by (subst read_frames.simps) (simp add: frame_record_def nth_append Let_def del: to_le.simps)
qed

lemma read_frames_records:
  "\<forall>f \<in> set fs. length f < 2 ^ 32 \<Longrightarrow> read_frames (concat (map frame_record fs)) = Some fs"
  by (induction fs) (simp_all add: read_frames_record read_frames.simps [of "[]"])

section \<open>The files hold the frames\<close>

definition frames_of :: "bytes \<Rightarrow> archive_turn list \<Rightarrow> bytes list" where
  "frames_of path turns = map at_frame (filter (\<lambda>e. current_path (at_now e) = path) turns)"

definition turn_ok :: "archive_turn \<Rightarrow> bool" where
  "turn_ok e \<longleftrightarrow> at_finalize_ok e \<and> at_open_ok e \<and> at_write_ok e"

text \<open>Everything written to a path: the finished streams, then the open one.\<close>

definition written_to :: "bytes \<Rightarrow> archive \<Rightarrow> bytes" where
  "written_to path a = file_stream path a @
     (case ar_state a of Some f \<Rightarrow> (if hf_path f = path then hf_stream f else []) | None \<Rightarrow> [])"

definition archive_inv :: "archive \<Rightarrow> bool" where
  "archive_inv a \<longleftrightarrow>
     (\<forall>f. ar_state a = Some f \<longrightarrow> (\<exists>t. hf_path f = current_path t \<and> hf_hour_key f = hour_key t))"

lemma hour_key_path: "hour_key t = hour_key u \<Longrightarrow> current_path t = current_path u"
  by (simp add: hour_key_def current_path_def)

lemma write_frame_fields [simp]:
  "hf_path (write_frame fr f) = hf_path f" "hf_hour_key (write_frame fr f) = hf_hour_key f"
  "hf_stream (write_frame fr f) = hf_stream f @ frame_record fr"
  by (simp_all add: write_frame_def Let_def)

lemma archive_step_written:
  assumes "archive_inv a" and "turn_ok e"
  shows "archive_inv (archive_step cfg e a) \<and> ar_state (archive_step cfg e a) \<noteq> None \<and>
         ar_torn (archive_step cfg e a) = ar_torn a \<and>
         written_to path (archive_step cfg e a) =
           written_to path a @ (if current_path (at_now e) = path then frame_record (at_frame e) else [])"
proof (cases "ar_state a")
  case None
  with assms(2) show ?thesis
    by (auto simp: archive_step_def rotate_def turn_ok_def Let_def archive_inv_def written_to_def
        file_stream_def streams_of_def HourFile_open_def)
next
  case (Some f)
  show ?thesis
  proof (cases "hf_hour_key f = hour_key (at_now e)")
    case True
    from assms(1) Some obtain t where "hf_path f = current_path t" "hf_hour_key f = hour_key t"
      by (auto simp: archive_inv_def)
    with True have "hf_path f = current_path (at_now e)" using hour_key_path [of t "at_now e"] by simp
    with True Some assms show ?thesis
      by (auto simp: archive_step_def turn_ok_def Let_def archive_inv_def written_to_def file_stream_def streams_of_def)
  next
    case False
    with Some assms(2) show ?thesis
      by (auto simp: archive_step_def rotate_def turn_ok_def Let_def archive_inv_def written_to_def
          file_stream_def streams_of_def HourFile_open_def finalize_def)
  qed
qed

lemma archive_run_written:
  assumes "\<forall>e \<in> set turns. turn_ok e" and "archive_inv a"
  shows "archive_inv (fold (archive_step cfg) turns a) \<and>
         ar_torn (fold (archive_step cfg) turns a) = ar_torn a \<and>
         written_to path (fold (archive_step cfg) turns a) =
           written_to path a @ concat (map frame_record (frames_of path turns))"
  using assms
proof (induction turns arbitrary: a)
  case (Cons e turns)
  with archive_step_written [of a e cfg path] show ?case by (simp add: frames_of_def)
qed (simp add: frames_of_def)

section \<open>What is flushed\<close>

definition flush_inv :: "nat \<Rightarrow> HourFile \<Rightarrow> bool" where
  "flush_inv n f \<longleftrightarrow> hf_flush_threshold f = n \<and> hf_flushed f + hf_bytes_since_flush f = length (hf_stream f) \<and>
     (hf_bytes_since_flush f = 0 \<or> hf_bytes_since_flush f < n)"

lemma length_frame_record [simp]: "length (frame_record f) = length f + 5"
  by (simp add: frame_record_def del: to_le.simps)

lemma flush_inv_open: "flush_inv (ag_flush_every_bytes cfg) (HourFile_open cfg now)"
  by (simp add: flush_inv_def HourFile_open_def)

lemma flush_inv_write: "flush_inv n f \<Longrightarrow> flush_inv n (write_frame fr f)"
  by (auto simp: flush_inv_def write_frame_def Let_def)

definition archive_flushed :: "nat \<Rightarrow> archive \<Rightarrow> bool" where
  "archive_flushed n a \<longleftrightarrow> list_all (flush_inv n) (ar_torn a) \<and> pred_option (flush_inv n) (ar_state a)"

lemma archive_flushed_rotate:
  "archive_flushed (ag_flush_every_bytes cfg) a \<Longrightarrow> archive_flushed (ag_flush_every_bytes cfg) (rotate cfg e a)"
  by (auto simp: archive_flushed_def rotate_def finalize_def Let_def flush_inv_open split: option.split)

lemma archive_flushed_step:
  assumes "archive_flushed (ag_flush_every_bytes cfg) a"
  shows "archive_flushed (ag_flush_every_bytes cfg) (archive_step cfg e a)"
  using assms archive_flushed_rotate [OF assms, of e]
  by (auto simp: archive_step_def archive_flushed_def Let_def flush_inv_write split: option.split)

lemma archive_flushed_run:
  "archive_flushed (ag_flush_every_bytes cfg) a \<Longrightarrow>
   archive_flushed (ag_flush_every_bytes cfg) (fold (archive_step cfg) turns a)"
  by (induction turns arbitrary: a) (simp_all add: archive_flushed_step)

section \<open>Properties\<close>

text \<open>C36. When the file operations succeed, every hour file reads back as the frames it held before, if it was there, followed by exactly the
  frames received in its hour, complete and in order, whatever the frames contain and however the clock moves
  (backwards too: a file reopened for an hour continues it); no stream is left torn.\<close>

theorem archive_files_exact:
  assumes "\<forall>e \<in> set turns. turn_ok e \<and> length (at_frame e) < 2 ^ 32"
    and "streams_of path found = concat (map frame_record old)" and "\<forall>f \<in> set old. length f < 2 ^ 32"
  shows "read_frames (file_stream path (writer_loop cfg found turns True)) = Some (old @ frames_of path turns) \<and>
         ar_torn (writer_loop cfg found turns True) = []"
proof -
  let ?a = "fold (archive_step cfg) turns (archive_start found)"
  have run: "ar_torn ?a = []" "written_to path ?a = concat (map frame_record (old @ frames_of path turns))"
    using archive_run_written [of turns "archive_start found" cfg path] assms(1,2)
    by (auto simp: archive_start_def archive_inv_def written_to_def file_stream_def)
  have "file_stream path (writer_loop cfg found turns True) = written_to path ?a"
    by (auto simp: writer_loop_def Let_def finalize_def written_to_def file_stream_def streams_of_def split: option.split)
  moreover have "ar_torn (writer_loop cfg found turns True) = []"
    using run(1) by (auto simp: writer_loop_def Let_def finalize_def split: option.split)
  moreover have "\<forall>f \<in> set (old @ frames_of path turns). length f < 2 ^ 32"
    using assms(1,3) by (auto simp: frames_of_def)
  ultimately show ?thesis using run(2) read_frames_records by metis
qed

definition demo_turn :: "nat \<Rightarrow> bytes \<Rightarrow> archive_turn" where
  "demo_turn h f = \<lparr>at_frame = f, at_now = \<lparr>ts_year = 2024, ts_month = 3, ts_day = 8, ts_hour = h\<rparr>,
     at_finalize_ok = True, at_open_ok = True, at_write_ok = True\<rparr>"

theorem archive_files_exact_witness:
  "read_frames (file_stream ''2024-03-08T09.zst'' (writer_loop ArchiveConfig_default
      [(''2024-03-08T09.zst'', frame_record ''C:A'')]
      [demo_turn 9 ''T:A'', demo_turn 10 ''T:B'', demo_turn 9 ''V:A''] True)) = Some [''C:A'', ''T:A'', ''V:A'']"
proof -
  let ?turns = "[demo_turn 9 ''T:A'', demo_turn 10 ''T:B'', demo_turn 9 ''V:A'']"
  have "frames_of ''2024-03-08T09.zst'' ?turns = [''T:A'', ''V:A'']" by code_simp
  moreover have "\<forall>e \<in> set ?turns. turn_ok e \<and> length (at_frame e) < 2 ^ 32"
    by (simp add: demo_turn_def turn_ok_def)
  ultimately show ?thesis
    using archive_files_exact [of ?turns "''2024-03-08T09.zst''" "[(''2024-03-08T09.zst'', frame_record ''C:A'')]" "[''C:A'']"
        ArchiveConfig_default]
    by (simp add: streams_of_def)
qed


end
