(* ===== verification/Asset_Cache.thy ===== *)
theory Asset_Cache
  imports Wal
begin

text \<open>
  \<^verbatim>\<open>crates/persistence/src/asset_cache.rs\<close>: the map from tickers to asset ids. The query on the
  connection pool is the argument \<open>fetch\<close>. A refresh is given with every map a concurrent reader can
  see on the way, because the source clears the shared map and then fills it entry by entry; the
  order in which it walks the new map is the argument \<open>order\<close>.
\<close>

section \<open>Operations\<close>

record AssetCache =
  ac_map :: "bytes \<rightharpoonup> i32"
  ac_query :: bytes

definition default_assets_query :: bytes where
  "default_assets_query = ''SELECT id, ticker FROM public.assets''"

definition AssetCache_new :: AssetCache where
  "AssetCache_new = \<lparr>ac_map = Map.empty, ac_query = default_assets_query\<rparr>"

definition with_query :: "bytes \<Rightarrow> AssetCache \<Rightarrow> AssetCache" where
  "with_query query c = c\<lparr>ac_query := query\<rparr>"

definition asset_get :: "AssetCache \<Rightarrow> bytes \<Rightarrow> i32 option" where
  "asset_get c ticker = ac_map c ticker"

definition asset_insert :: "bytes \<Rightarrow> i32 \<Rightarrow> AssetCache \<Rightarrow> AssetCache" where
  "asset_insert ticker asset_id c = c\<lparr>ac_map := (ac_map c)(ticker \<mapsto> asset_id)\<rparr>"

definition asset_len :: "AssetCache \<Rightarrow> usize" where
  "asset_len c = card (dom (ac_map c))"

definition asset_is_empty :: "AssetCache \<Rightarrow> bool" where
  "asset_is_empty c \<longleftrightarrow> dom (ac_map c) = {}"

definition rows_map :: "(i32 \<times> bytes) list \<Rightarrow> bytes \<rightharpoonup> i32" where
  "rows_map rows = fold (\<lambda>(asset_id, ticker) m. m(ticker \<mapsto> asset_id)) rows Map.empty"

text \<open>The maps a reader can see, from the cleared map to the complete one.\<close>

fun publish_entries :: "(bytes \<rightharpoonup> i32) \<Rightarrow> bytes list \<Rightarrow> (bytes \<rightharpoonup> i32) \<Rightarrow> (bytes \<rightharpoonup> i32) list" where
  "publish_entries new_map [] m = [m]"
| "publish_entries new_map (t # ts) m = m # publish_entries new_map ts (m(t := new_map t))"

definition refresh :: "(bytes \<Rightarrow> 'db \<Rightarrow> string + (i32 \<times> bytes) list) \<Rightarrow> bytes list \<Rightarrow> 'db \<Rightarrow> AssetCache \<Rightarrow>
    (PersistenceError + usize) \<times> (bytes \<rightharpoonup> i32) list \<times> AssetCache" where
  "refresh fetch order pool c =
     (case fetch (ac_query c) pool of
        Inl e \<Rightarrow> (Inl (PX_Database e), [], c)
      | Inr rows \<Rightarrow>
          let n = length rows; seen = publish_entries (rows_map rows) order Map.empty
          in (Inr n, seen, c\<lparr>ac_map := last seen\<rparr>))"

section \<open>Lemmas\<close>

lemma rows_map_eq: "rows_map rows = map_of (rev (map (\<lambda>(i, t). (t, i)) rows))"
proof -
  have "fold (\<lambda>(i, t) m. m(t \<mapsto> i)) rows m = m ++ map_of (rev (map (\<lambda>(i, t). (t, i)) rows))" for m
    by (induction rows arbitrary: m) (auto simp: map_add_def fun_eq_iff split: option.split)
  from this [of Map.empty] show ?thesis by (simp add: rows_map_def)
qed

lemma publish_entries_ne [simp]: "publish_entries new ts m \<noteq> []"
  by (cases ts) simp_all

lemma publish_entries_hd [simp]: "hd (publish_entries new ts m) = m"
  by (cases ts) simp_all

lemma publish_entries_last:
  "last (publish_entries new ts m) t = (if t \<in> set ts then new t else m t)"
  by (induction ts arbitrary: m) auto

section \<open>Properties\<close>

text \<open>A refresh that gets its rows ends with exactly the table's mapping, the last row of a
  ticker winning, and nothing of the old mapping; but it is not atomic: the first map a
  concurrent reader sees is the empty one, in which every ticker is unknown. A refresh whose query
  fails changes nothing.\<close>

lemma asset_refresh_exact:
  assumes "set order = dom (rows_map rows)" and "fetch (ac_query c) pool = Inr rows"
    and "fetch (ac_query c) down = Inl e"
  shows "fst (refresh fetch order pool c) = Inr (length rows) \<and>
         ac_map (snd (snd (refresh fetch order pool c))) = map_of (rev (map (\<lambda>(i, t). (t, i)) rows)) \<and>
         hd (fst (snd (refresh fetch order pool c))) = Map.empty \<and>
         refresh fetch order down c = (Inl (PX_Database e), [], c)"
proof -
  have "last (publish_entries (rows_map rows) order Map.empty) = rows_map rows"
    using assms(1) by (auto simp: fun_eq_iff publish_entries_last dom_def)
  with assms(2,3) show ?thesis by (simp add: refresh_def Let_def rows_map_eq)
qed

end
