(* ===== verification/Pipeline.thy ===== *)
theory Pipeline
  imports Step_System Parser Book_Engine Quote_Engine Trade_Buffer Trade_Writer Fanout Reader Archive Asset_Cache Client
    "HOL-Library.Multiset"
begin

text \<open>
  \<^verbatim>\<open>bin/ingest-daemon/src/pipeline.rs\<close>: the parser workers and what they do with a message. A task
  handed to the asynchronous runtime is put into \<open>pl_tasks\<close>; \<open>run_task\<close> is its body, which the
  runtime runs at some later moment. The environment holds what is not the program's own: the hash of
  the book shards, the archive's channel, the sink behind the fan-out, whether a runtime is current,
  the JSON encoder, and the writer's environment. \<open>now\<close> is the clock at the call.
\<close>

section \<open>State\<close>

record BrokerInfo =
  bi_code :: bytes
  bi_name :: bytes
  bi_active :: bool

record Catalog =
  ca_symbols :: "bytes set"
  ca_book_universe :: "bytes set"
  ca_brokers :: "bytes \<rightharpoonup> BrokerInfo"

datatype task = SubmitTask PublishKey bytes | AppendTask bytes

record ('dt, 'db, 's, 'c) Pipeline =
  pl_quote :: QuoteEngine
  pl_book :: BookEngine
  pl_trades :: TradeBuffer
  pl_fanout :: "'s Coalescer"
  pl_archive :: "'c ArchiveHandle"
  pl_trade_writer :: "('dt, 'db) TradeWriter option"
  pl_asset_cache :: AssetCache
  pl_catalog :: Catalog
  pl_subscriptions :: "(SubscriptionKind \<times> bytes) set"
  pl_tasks :: "task list"
  pl_parse_errors :: nat

record ('dt, 'dec, 'db, 's, 'c) pipeline_env =
  pe_hash :: "bytes \<Rightarrow> u64"
  pe_archive_send :: "'c \<Rightarrow> bytes \<Rightarrow> push_result \<times> 'c"
  pe_publish :: "'s sink"
  pe_runtime :: bool
  pe_json :: "'dt StagedTrade \<Rightarrow> bytes"
  pe_writer :: "('dt, 'dec, 'db) writer_env"

section \<open>Catalog\<close>

definition Catalog_default :: Catalog where
  "Catalog_default = \<lparr>ca_symbols = {}, ca_book_universe = {}, ca_brokers = Map.empty\<rparr>"

definition eq_ignore_ascii_case :: "bytes \<Rightarrow> bytes \<Rightarrow> bool" where
  "eq_ignore_ascii_case a b \<longleftrightarrow> ascii_lower a = ascii_lower b"

definition insert_symbol :: "bytes \<Rightarrow> bytes \<Rightarrow> Catalog \<Rightarrow> Catalog" where
  "insert_symbol market ticker c =
     (let c1 = (if eq_ignore_ascii_case market ''BOVESPA''
                then c\<lparr>ca_book_universe := insert ticker (ca_book_universe c)\<rparr> else c)
      in c1\<lparr>ca_symbols := insert ticker (ca_symbols c1)\<rparr>)"

definition insert_broker :: "bytes \<Rightarrow> BrokerInfo \<Rightarrow> Catalog \<Rightarrow> Catalog" where
  "insert_broker cedro_id info c = c\<lparr>ca_brokers := (ca_brokers c)(cedro_id \<mapsto> info)\<rparr>"

definition broker :: "Catalog \<Rightarrow> bytes \<Rightarrow> BrokerInfo option" where
  "broker c cedro_id = ca_brokers c cedro_id"

section \<open>Staged trades\<close>

definition i64_try_from :: "u64 \<Rightarrow> i64 option" where
  "i64_try_from n = (if n < 2 ^ 63 then Some n else None)"

definition i32_try_from :: "u32 \<Rightarrow> i32 option" where
  "i32_try_from n = (if n < 2 ^ 31 then Some n else None)"

definition build_staged_trade :: "'dt \<Rightarrow> AssetCache \<Rightarrow> bytes \<Rightarrow> Trade \<Rightarrow> 'dt StagedTrade option" where
  "build_staged_trade now cache ticker t =
     (if \<not> utf8_valid ticker then None
      else case asset_get cache ticker of
        None \<Rightarrow> None
      | Some asset_id \<Rightarrow> Some
          \<lparr>sg_time = now, sg_asset_id = asset_id, sg_price = tr_price t,
           sg_amount = unwrap_or (2 ^ 63 - 1) (i64_try_from (tr_quantity t)),
           sg_buyer_id = i32_try_from (tr_broker_buy_id t),
           sg_seller_id = i32_try_from (tr_broker_sell_id t),
           sg_aggressor_side = (case tr_aggressor t of TA_Buyer \<Rightarrow> Some 1 | TA_Seller \<Rightarrow> Some 2 | _ \<Rightarrow> None),
           sg_trade_id = (if utf8_valid (tr_trade_id t) then Some (tr_trade_id t) else None),
           sg_is_direct = (tr_condition t = TC_Direct)\<rparr>)"

section \<open>Dispatch\<close>

definition spawn_fanout :: "('dt, 'dec, 'db, 's, 'c) pipeline_env \<Rightarrow> PublishKey \<Rightarrow> bytes \<Rightarrow>
    ('dt, 'db, 's, 'c) Pipeline \<Rightarrow> ('dt, 'db, 's, 'c) Pipeline" where
  "spawn_fanout env key payload p =
     (if pe_runtime env then p\<lparr>pl_tasks := pl_tasks p @ [SubmitTask key payload]\<rparr> else p)"

definition spawn_persist :: "('dt, 'dec, 'db, 's, 'c) pipeline_env \<Rightarrow> 'dt StagedTrade \<Rightarrow>
    ('dt, 'db, 's, 'c) Pipeline \<Rightarrow> ('dt, 'db, 's, 'c) Pipeline" where
  "spawn_persist env staged p =
     (let encoded = pe_json env staged
      in if pe_runtime env then p\<lparr>pl_tasks := pl_tasks p @ [AppendTask encoded]\<rparr> else p)"

definition append_to_wal :: "bytes \<Rightarrow> ('dt, 'db) TradeWriter \<Rightarrow> ('dt, 'db) TradeWriter" where
  "append_to_wal payload w = w\<lparr>tw_wal := snd (wal_append payload (tw_wal w))\<rparr>"

definition persist_trade :: "('dt, 'dec, 'db, 's, 'c) pipeline_env \<Rightarrow> 'dt \<Rightarrow> bytes \<Rightarrow> Trade \<Rightarrow>
    ('dt, 'db, 's, 'c) Pipeline \<Rightarrow> ('dt, 'db, 's, 'c) Pipeline" where
  "persist_trade env now ticker t p =
     (case pl_trade_writer p of
        None \<Rightarrow> p
      | Some writer \<Rightarrow>
          (case build_staged_trade now (pl_asset_cache p) ticker t of
             None \<Rightarrow> p
           | Some staged \<Rightarrow>
               spawn_persist env staged (p\<lparr>pl_trade_writer := Some (append_to_wal [] writer)\<rparr>)))"

fun dispatch :: "('dt, 'dec, 'db, 's, 'c) pipeline_env \<Rightarrow> 'dt \<Rightarrow> ProtocolMessage \<Rightarrow>
    ('dt, 'db, 's, 'c) Pipeline \<Rightarrow> ('dt, 'db, 's, 'c) Pipeline" where
  "dispatch env now (PM_Quote ticker time diff) p =
     spawn_fanout env (PublishKey_new K_Quote ticker) ''q''
       (p\<lparr>pl_quote := snd (quote_apply ticker time diff (pl_quote p))\<rparr>)"
| "dispatch env now (PM_Book ticker op) p =
     spawn_fanout env (PublishKey_new K_Book ticker) ''b''
       (p\<lparr>pl_book := snd (engine_apply (pe_hash env) ticker op (pl_book p))\<rparr>)"
| "dispatch env now (PM_Trade ticker (TO_Add t)) p =
     (let p1 = p\<lparr>pl_trades := trade_push ticker (TradeRecord_from t) (pl_trades p)\<rparr>;
          p2 = persist_trade env now ticker t p1
      in spawn_fanout env (PublishKey_new K_Trade ticker) ''t'' p2)"
| "dispatch env now (PM_Trade ticker (TO_Delete trade_id)) p =
     p\<lparr>pl_trades := snd (trade_remove ticker trade_id (pl_trades p))\<rparr>"
| "dispatch env now (PM_Trade ticker TO_RemoveAll) p =
     p\<lparr>pl_trades := trade_clear ticker (pl_trades p)\<rparr>"
| "dispatch env now (PM_MqcItem (MQ_Symbol market ticker)) p =
     (if utf8_valid market \<and> utf8_valid ticker
      then p\<lparr>pl_catalog := insert_symbol market ticker (pl_catalog p)\<rparr> else p)"
| "dispatch env now (PM_GpnItem item) p =
     (if utf8_valid (gp_cedro_id item) \<and> utf8_valid (gp_code item) \<and> utf8_valid (gp_name item)
      then p\<lparr>pl_catalog := insert_broker (gp_cedro_id item)
               \<lparr>bi_code = gp_code item, bi_name = gp_name item, bi_active = gp_active item\<rparr> (pl_catalog p)\<rparr>
      else p)"
| "dispatch env now _ p = p"

text \<open>One turn of \<open>worker_loop\<close>, for a frame the worker has received.\<close>

definition work_frame :: "('dt, 'dec, 'db, 's, 'c) pipeline_env \<Rightarrow> 'dt \<Rightarrow> frame \<Rightarrow>
    ('dt, 'db, 's, 'c) Pipeline \<Rightarrow> ('dt, 'db, 's, 'c) Pipeline" where
  "work_frame env now f p =
     (let p1 = p\<lparr>pl_archive := snd (try_push (pe_archive_send env) (snd f) (pl_archive p))\<rparr>
      in case parse_frame (fst f) (snd f) of
           Inr msg \<Rightarrow> dispatch env now msg p1
         | Inl e \<Rightarrow> p1\<lparr>pl_parse_errors := pl_parse_errors p1 + 1\<rparr>)"

text \<open>A worker that receives every frame itself, with the clock of each turn.\<close>

definition worker_loop :: "('dt, 'dec, 'db, 's, 'c) pipeline_env \<Rightarrow> ('dt \<times> frame) list \<Rightarrow>
    ('dt, 'db, 's, 'c) Pipeline \<Rightarrow> ('dt, 'db, 's, 'c) Pipeline" where
  "worker_loop env fs p = fold (\<lambda>(now, f). work_frame env now f) fs p"

section \<open>Background tasks\<close>

fun run_task :: "('dt, 'dec, 'db, 's, 'c) pipeline_env \<Rightarrow> task \<Rightarrow>
    ('dt, 'db, 's, 'c) Pipeline \<Rightarrow> ('dt, 'db, 's, 'c) Pipeline" where
  "run_task env (SubmitTask key payload) p =
     p\<lparr>pl_fanout := submit (pe_publish env) key payload (pl_fanout p)\<rparr>"
| "run_task env (AppendTask encoded) p =
     p\<lparr>pl_trade_writer := map_option (append_to_wal encoded) (pl_trade_writer p)\<rparr>"

text \<open>One tick of the flush timer, and \<open>flush_all\<close> at shutdown (\<open>order\<close>: the coalescer's drain).\<close>

definition flush_timer_tick :: "('dt, 'dec, 'db, 's, 'c) pipeline_env \<Rightarrow>
    ('dt, 'db, 's, 'c) Pipeline \<Rightarrow> ('dt, 'db, 's, 'c) Pipeline" where
  "flush_timer_tick env p =
     p\<lparr>pl_trade_writer := map_option (\<lambda>w. snd (flush (pe_writer env) w)) (pl_trade_writer p)\<rparr>"

definition flush_all :: "('dt, 'dec, 'db, 's, 'c) pipeline_env \<Rightarrow> PublishKey list \<Rightarrow>
    ('dt, 'db, 's, 'c) Pipeline \<Rightarrow> (PersistenceError + unit) \<times> ('dt, 'db, 's, 'c) Pipeline" where
  "flush_all env order p =
     (case pl_trade_writer p of
        None \<Rightarrow> (Inr (), p\<lparr>pl_fanout := flush_once (pe_publish env) order (pl_fanout p)\<rparr>)
      | Some w \<Rightarrow>
          (case flush (pe_writer env) w of
             (Inl e, w1) \<Rightarrow> (Inl e, p\<lparr>pl_trade_writer := Some w1\<rparr>)
           | (Inr n, w1) \<Rightarrow>
               (Inr (), p\<lparr>pl_trade_writer := Some w1,
                          pl_fanout := flush_once (pe_publish env) order (pl_fanout p)\<rparr>)))"

text \<open>\<open>build\<close>, given the sink and the writer the connection attempts ended with.\<close>

definition build :: "usize \<Rightarrow> usize \<Rightarrow> 's \<Rightarrow> 'c \<Rightarrow> ('dt, 'db) TradeWriter option \<Rightarrow> ('dt, 'db, 's, 'c) Pipeline" where
  "build n_book_shards trade_buffer_per_ticker sink archive_tx trade_writer =
     \<lparr>pl_quote = QuoteEngine_new, pl_book = BookEngine_new n_book_shards,
      pl_trades = TradeBuffer_new trade_buffer_per_ticker, pl_fanout = Coalescer_new sink,
      pl_archive = \<lparr>ah_tx = archive_tx, ah_dropped_frames = 0\<rparr>, pl_trade_writer = trade_writer,
      pl_asset_cache = AssetCache_new, pl_catalog = Catalog_default, pl_subscriptions = {},
      pl_tasks = [], pl_parse_errors = 0\<rparr>"

section \<open>The pool of workers\<close>

text \<open>\<open>spawn_workers\<close> starts \<open>n\<close> workers on one channel. A configuration is the channel, the frame
  each worker has taken and not yet dispatched, and the pipeline. Taking a frame and dispatching it
  are separate steps, so the frames in different hands can be dispatched in any order.\<close>

type_synonym ('dt, 'db, 's, 'c) pool =
  "frame list \<times> (nat \<Rightarrow> frame option) \<times> ('dt, 'db, 's, 'c) Pipeline"

inductive pool_step :: "nat \<Rightarrow> ('dt, 'dec, 'db, 's, 'c) pipeline_env \<Rightarrow>
    ('dt, 'db, 's, 'c) pool \<Rightarrow> ('dt, 'db, 's, 'c) pool \<Rightarrow> bool" for n env where
  recv: "\<lbrakk>w < n; hands w = None\<rbrakk> \<Longrightarrow> pool_step n env (f # fs, hands, p) (fs, hands(w := Some f), p)"
| work: "\<lbrakk>w < n; hands w = Some f\<rbrakk> \<Longrightarrow>
    pool_step n env (fs, hands, p) (fs, hands(w := None), work_frame env now f p)"

inductive_cases pool_stepE: "pool_step n env s t"

definition idle :: "nat \<Rightarrow> frame option" where
  "idle = (\<lambda>w. None)"

section \<open>The daemon\<close>

text \<open>Everything that can happen to the pipeline of a running daemon: a frame is dispatched, a task of
  the runtime runs, a timer ticks, the asset cache is replaced (which nothing in the daemon does).\<close>

inductive daemon_step :: "('dt, 'dec, 'db, 's, 'c) pipeline_env \<Rightarrow>
    ('dt, 'db, 's, 'c) Pipeline \<Rightarrow> ('dt, 'db, 's, 'c) Pipeline \<Rightarrow> bool" for env where
  frame: "daemon_step env p (work_frame env now f p)"
| task: "pl_tasks p = xs @ t # ys \<Longrightarrow> daemon_step env p (run_task env t (p\<lparr>pl_tasks := xs @ ys\<rparr>))"
| tick: "daemon_step env p (flush_timer_tick env p)"
| fan: "daemon_step env p (p\<lparr>pl_fanout := flush_once (pe_publish env) order (pl_fanout p)\<rparr>)"
| shutdown: "daemon_step env p (snd (flush_all env order p))"
| cache: "daemon_step env p (p\<lparr>pl_asset_cache := c\<rparr>)"

section \<open>What a message does to each engine\<close>

fun book_cmds :: "ProtocolMessage \<Rightarrow> (bytes \<times> BookOp) list" where
  "book_cmds (PM_Book t op) = [(t, op)]"
| "book_cmds _ = []"

fun quote_cmds :: "ProtocolMessage \<Rightarrow> (bytes \<times> u32 \<times> QuoteDiff) list" where
  "quote_cmds (PM_Quote t time diff) = [(t, time, diff)]"
| "quote_cmds _ = []"

fun trade_cmds :: "ProtocolMessage \<Rightarrow> (bytes \<times> trade_cmd) list" where
  "trade_cmds (PM_Trade t (TO_Add r)) = [(t, Push (TradeRecord_from r))]"
| "trade_cmds (PM_Trade t (TO_Delete i)) = [(t, Remove i)]"
| "trade_cmds (PM_Trade t TO_RemoveAll) = [(t, Clear)]"
| "trade_cmds _ = []"

definition parsed :: "frame list \<Rightarrow> ProtocolMessage list" where
  "parsed fs = concat (map (\<lambda>(k, f). case parse_frame k f of Inr m \<Rightarrow> [m] | Inl e \<Rightarrow> []) fs)"

lemma run_keyed_append: "run_keyed f (xs @ ys) s = run_keyed f ys (run_keyed f xs s)"
  by (simp add: run_keyed_def)

lemma spawn_fanout_fields [simp]:
  "pl_quote (spawn_fanout env k x p) = pl_quote p" "pl_book (spawn_fanout env k x p) = pl_book p"
  "pl_trades (spawn_fanout env k x p) = pl_trades p" "pl_catalog (spawn_fanout env k x p) = pl_catalog p"
  "pl_trade_writer (spawn_fanout env k x p) = pl_trade_writer p"
  "pl_asset_cache (spawn_fanout env k x p) = pl_asset_cache p"
  by (simp_all add: spawn_fanout_def)

lemma persist_trade_fields [simp]:
  "pl_quote (persist_trade env now k t p) = pl_quote p" "pl_book (persist_trade env now k t p) = pl_book p"
  "pl_trades (persist_trade env now k t p) = pl_trades p" "pl_catalog (persist_trade env now k t p) = pl_catalog p"
  "pl_asset_cache (persist_trade env now k t p) = pl_asset_cache p"
  by (simp_all add: persist_trade_def spawn_persist_def Let_def split: option.split)

lemma dispatch_engines:
  "pl_book (dispatch env now m p) =
     run_keyed (\<lambda>t op e. snd (engine_apply (pe_hash env) t op e)) (book_cmds m) (pl_book p)"
  "pl_quote (dispatch env now m p) =
     run_keyed (\<lambda>t (time, diff) e. snd (quote_apply t time diff e)) (quote_cmds m) (pl_quote p)"
  "pl_trades (dispatch env now m p) = run_keyed trade_act (trade_cmds m) (pl_trades p)"
  by (cases "(env, now, m, p)" rule: dispatch.cases; simp add: Let_def)+

lemma work_frame_engines:
  "pl_book (work_frame env now f p) =
     run_keyed (\<lambda>t op e. snd (engine_apply (pe_hash env) t op e)) (concat (map book_cmds (parsed [f]))) (pl_book p)"
  "pl_quote (work_frame env now f p) =
     run_keyed (\<lambda>t (time, diff) e. snd (quote_apply t time diff e)) (concat (map quote_cmds (parsed [f]))) (pl_quote p)"
  "pl_trades (work_frame env now f p) =
     run_keyed trade_act (concat (map trade_cmds (parsed [f]))) (pl_trades p)"
  by (auto simp: work_frame_def parsed_def Let_def dispatch_engines split: sum.split prod.split)

lemma parsed_Cons: "parsed (f # fs) = parsed [f] @ parsed fs"
  by (simp add: parsed_def)

lemma worker_loop_engines:
  "pl_book (worker_loop env fs p) =
     run_keyed (\<lambda>t op e. snd (engine_apply (pe_hash env) t op e))
       (concat (map book_cmds (parsed (map snd fs)))) (pl_book p)"
  "pl_quote (worker_loop env fs p) =
     run_keyed (\<lambda>t (time, diff) e. snd (quote_apply t time diff e))
       (concat (map quote_cmds (parsed (map snd fs)))) (pl_quote p)"
  "pl_trades (worker_loop env fs p) =
     run_keyed trade_act (concat (map trade_cmds (parsed (map snd fs)))) (pl_trades p)"
  by (induction fs arbitrary: p)
     (auto simp: worker_loop_def run_keyed_append work_frame_engines parsed_Cons [of _ "map snd _"]
       parsed_def [of "[]"])

lemma worker_book_view:
  "book_view (pe_hash env) (pl_book (worker_loop env fs (build shards cap sink tx writer))) t =
     (let ops = ops_for t (concat (map book_cmds (parsed (map snd fs))))
      in if ops = [] then None else Some (book_run ops OrderBook_default))"
proof -
  let ?e = "set_allowed None (BookEngine_new shards)"
  have "pl_book (build shards cap sink tx writer) = ?e"
    by (simp add: build_def set_allowed_def BookEngine_new_def Let_def)
  then show ?thesis
    using book.view_run [of "pe_hash env" None ?e "concat (map book_cmds (parsed (map snd fs)))" t] engine_inv_new
    by (simp add: worker_loop_engines Let_def book_step_run or_default_def)
qed

section \<open>The persistence path\<close>

definition writer_untouched :: "('dt, 'db) TradeWriter \<Rightarrow> ('dt, 'db, 's, 'c) Pipeline \<Rightarrow> bool" where
  "writer_untouched w p \<longleftrightarrow>
     (\<exists>w'. pl_trade_writer p = Some w' \<and> tw_buffer w' = [] \<and> tw_pool w' = tw_pool w)"

lemma flush_empty: "tw_buffer w = [] \<Longrightarrow> flush env w = (Inr 0, w)"
  by (simp add: flush_def Let_def)

lemma append_to_wal_fields [simp]:
  "tw_buffer (append_to_wal x w) = tw_buffer w" "tw_pool (append_to_wal x w) = tw_pool w"
  by (simp_all add: append_to_wal_def)

lemma writer_untouched_persist: "writer_untouched w p \<Longrightarrow> writer_untouched w (persist_trade env now k t p)"
  by (auto simp: writer_untouched_def persist_trade_def spawn_persist_def Let_def split: option.split)

lemma writer_untouched_cong: "pl_trade_writer q = pl_trade_writer p \<Longrightarrow> writer_untouched w q = writer_untouched w p"
  by (simp add: writer_untouched_def)

lemma writer_untouched_dispatch:
  assumes "writer_untouched w p"
  shows "writer_untouched w (dispatch env now m p)"
proof (cases "\<exists>ticker t. m = PM_Trade ticker (TO_Add t)")
  case True
  then obtain ticker t where m: "m = PM_Trade ticker (TO_Add t)" by blast
  let ?p = "p\<lparr>pl_trades := trade_push ticker (TradeRecord_from t) (pl_trades p)\<rparr>"
  have "writer_untouched w ?p" using assms by (simp add: writer_untouched_def)
  from writer_untouched_persist [OF this] m show ?thesis
    by (simp add: Let_def writer_untouched_def)
next
  case False
  then have "pl_trade_writer (dispatch env now m p) = pl_trade_writer p"
    by (cases "(env, now, m, p)" rule: dispatch.cases) auto
  with assms show ?thesis by (simp add: writer_untouched_def)
qed

lemma writer_untouched_work:
  assumes "writer_untouched w p"
  shows "writer_untouched w (work_frame env now f p)"
proof -
  let ?p = "p\<lparr>pl_archive := snd (try_push (pe_archive_send env) (snd f) (pl_archive p))\<rparr>"
  have "writer_untouched w ?p" using assms by (simp add: writer_untouched_def)
  from this writer_untouched_dispatch [OF this] show ?thesis
    by (auto simp: work_frame_def Let_def writer_untouched_def [of w "_\<lparr>pl_parse_errors := _\<rparr>"]
        writer_untouched_def [of w ?p] split: sum.split)
qed

lemma writer_untouched_step: "\<lbrakk>daemon_step env p q; writer_untouched w p\<rbrakk> \<Longrightarrow> writer_untouched w q"
proof (induction rule: daemon_step.induct)
  case (frame p now f)
  then show ?case by (rule writer_untouched_work)
next
  case (task p xs t ys)
  then show ?case by (cases t) (auto simp: writer_untouched_def)
qed (auto simp: flush_timer_tick_def flush_all_def flush_empty writer_untouched_def)

interpretation daemon: step_invariant "daemon_step env" "writer_untouched w" for env w
  by unfold_locales (rule writer_untouched_step)

section \<open>Runs of the pool\<close>

text \<open>With one worker: the frames dispatched so far, the one in hand and the channel are the frames sent.\<close>

definition one_worker_inv :: "('dt, 'dec, 'db, 's, 'c) pipeline_env \<Rightarrow> frame list \<Rightarrow> ('dt, 'db, 's, 'c) Pipeline \<Rightarrow>
    ('dt, 'db, 's, 'c) pool \<Rightarrow> bool" where
  "one_worker_inv env fs p = (\<lambda>(gs, hands, q). \<exists>clocks dn. length clocks = length dn \<and>
     q = worker_loop env (zip clocks dn) p \<and>
     fs = dn @ (case hands 0 of Some f \<Rightarrow> [f] | None \<Rightarrow> []) @ gs \<and> (\<forall>w > 0. hands w = None))"

lemma one_worker_step: "pool_step 1 env s t \<Longrightarrow> one_worker_inv env fs p s \<Longrightarrow> one_worker_inv env fs p t"
proof (induction rule: pool_step.induct)
  case (recv w hands f gs q)
  then show ?case by (auto simp: one_worker_inv_def)
next
  case (work w hands f gs q now)
  then obtain clocks dn where
    "length clocks = length dn" "q = worker_loop env (zip clocks dn) p" "fs = dn @ [f] @ gs"
    by (auto simp: one_worker_inv_def)
  with work show ?case
    by (auto simp: one_worker_inv_def worker_loop_def intro!: exI [of _ "clocks @ [now]"] exI [of _ "dn @ [f]"])
qed

interpretation one_worker: step_invariant "pool_step 1 env" "one_worker_inv env fs p" for env fs p
  by unfold_locales (rule one_worker_step)

text \<open>Hands beyond the number of workers are empty; each frame in the channel is two steps from done,
  each frame in hand one.\<close>

definition hands_ok :: "nat \<Rightarrow> ('dt, 'db, 's, 'c) pool \<Rightarrow> bool" where
  "hands_ok n = (\<lambda>(fs, hands, p). \<forall>w \<ge> n. hands w = None)"

definition work_left :: "nat \<Rightarrow> ('dt, 'db, 's, 'c) pool \<Rightarrow> nat" where
  "work_left n = (\<lambda>(fs, hands, p). 2 * length fs + card {w \<in> {..<n}. hands w \<noteq> None})"

lemma card_hands_upd:
  assumes "w < (n :: nat)"
  shows "hands w = None \<Longrightarrow> card {v \<in> {..<n}. (hands(w := Some f)) v \<noteq> None} = Suc (card {v \<in> {..<n}. hands v \<noteq> None})"
    and "hands w \<noteq> None \<Longrightarrow> Suc (card {v \<in> {..<n}. (hands(w := None)) v \<noteq> None}) = card {v \<in> {..<n}. hands v \<noteq> None}"
proof -
  let ?S = "{v \<in> {..<n}. hands v \<noteq> None}"
  have ins: "{v \<in> {..<n}. (hands(w := Some f)) v \<noteq> None} = insert w ?S"
    and del: "{v \<in> {..<n}. (hands(w := None)) v \<noteq> None} = ?S - {w}"
    using assms by auto
  show "hands w = None \<Longrightarrow> card {v \<in> {..<n}. (hands(w := Some f)) v \<noteq> None} = Suc (card ?S)"
    unfolding ins by simp
  show "hands w \<noteq> None \<Longrightarrow> Suc (card {v \<in> {..<n}. (hands(w := None)) v \<noteq> None}) = card ?S"
    unfolding del by (rule card_Suc_Diff1) (use assms in auto)
qed

lemma hands_ok_step: "pool_step n env s t \<Longrightarrow> hands_ok n s \<Longrightarrow> hands_ok n t"
  by (induction rule: pool_step.induct) (auto simp: hands_ok_def)

lemma work_left_step: "pool_step n env s t \<Longrightarrow> work_left n t < work_left n s"
proof (induction rule: pool_step.induct)
  case (recv w hands f fs p)
  from card_hands_upd(1) [of w n hands f] recv show ?case
    by (simp add: work_left_def del: fun_upd_apply)
next
  case (work w hands f fs p now)
  from card_hands_upd(2) [of w n hands] work show ?case
    by (simp add: work_left_def del: fun_upd_apply)
qed

interpretation pool: terminating_steps "pool_step n env" "hands_ok n" "work_left n" for n env
  by unfold_locales (rule hands_ok_step work_left_step, assumption+)+

text \<open>Whatever the number of workers: the frames dispatched, in the order in which it happened, with the
  frames in hand and in the channel are the frames sent.\<close>

definition in_hand :: "nat \<Rightarrow> (nat \<Rightarrow> frame option) \<Rightarrow> frame multiset" where
  "in_hand n hands = (\<Sum>w < n. case hands w of Some f \<Rightarrow> {#f#} | None \<Rightarrow> {#})"

definition all_accounted :: "nat \<Rightarrow> ('dt, 'dec, 'db, 's, 'c) pipeline_env \<Rightarrow> frame list \<Rightarrow>
    ('dt, 'db, 's, 'c) Pipeline \<Rightarrow> ('dt, 'db, 's, 'c) pool \<Rightarrow> bool" where
  "all_accounted n env fs p = (\<lambda>(gs, hands, q). \<exists>clocks dn. length clocks = length dn \<and>
     q = worker_loop env (zip clocks dn) p \<and> mset fs = mset dn + in_hand n hands + mset gs)"

lemma in_hand_upd: "w < n \<Longrightarrow>
    in_hand n (hands(w := x)) + (case hands w of Some f \<Rightarrow> {#f#} | None \<Rightarrow> {#}) =
    in_hand n hands + (case x of Some f \<Rightarrow> {#f#} | None \<Rightarrow> {#})"
  by (simp add: in_hand_def sum.remove [of _ w])

lemma in_hand_idle [simp]: "in_hand n idle = {#}"
  by (simp add: in_hand_def idle_def)

lemma all_accounted_step: "pool_step n env s t \<Longrightarrow> all_accounted n env fs p s \<Longrightarrow> all_accounted n env fs p t"
proof (induction rule: pool_step.induct)
  case (recv w hands f gs q)
  with in_hand_upd [of w n hands "Some f"] show ?case by (auto simp: all_accounted_def)
next
  case (work w hands f gs q now)
  then obtain clocks dn where "length clocks = length dn" "q = worker_loop env (zip clocks dn) p"
    "mset fs = mset dn + in_hand n hands + mset gs"
    by (auto simp: all_accounted_def)
  with work in_hand_upd [of w n hands None] show ?case
    by (auto simp: all_accounted_def worker_loop_def intro!: exI [of _ "clocks @ [now]"] exI [of _ "dn @ [f]"])
qed

interpretation accounted: step_invariant "pool_step n env" "all_accounted n env fs p" for n env fs p
  by unfold_locales (rule all_accounted_step)

lemma one_frame_run: "w < n \<Longrightarrow> (pool_step n env ^^ 2) ([f], idle, p) ([], idle, work_frame env now f p)"
  using pool_step.recv [of w n idle env f "[]" p] pool_step.work [of w n "idle(w := Some f)" f env "[]" p now]
  by (auto simp: numeral_2_eq_2 idle_def fun_upd_idem)

text \<open>With a worker at all, only an empty channel and empty hands leave no step.\<close>

lemma pool_stuck:
  assumes "n \<noteq> 0" and "hands_ok n (fs, hands, p)" and "\<nexists>u. pool_step n env (fs, hands, p) u"
  shows "fs = [] \<and> hands = idle"
proof -
  have idle: "hands w = None" for w
    using assms(2) pool_step.work [where env = env and n = n and p = p and fs = fs and hands = hands] assms(3)
    by (cases "w < n"; cases "hands w") (auto simp: hands_ok_def)
  moreover have "fs = []"
  proof (rule ccontr)
    assume "fs \<noteq> []"
    then obtain f gs where "fs = f # gs" by (cases fs) auto
    with assms(1,3) pool_step.recv [of 0 n hands env f gs p] idle [of 0] show False by blast
  qed
  ultimately show ?thesis by (auto simp: idle_def)
qed

section \<open>Properties\<close>

text \<open>C29. One worker implements the engines: after it has taken any frames off the channel, valid or
  not, every ticker's book, quote and queue of recent trades are exactly those its own messages
  build, in the order of the frames, from nothing; frames that do not parse and messages of other
  tickers and kinds leave them alone.\<close>

theorem worker_implements_engines:
  "(let q = worker_loop env fs (build shards cap sink tx writer); ms = parsed (map snd fs);
        books = ops_for t (concat (map book_cmds ms)); quotes = ops_for t (concat (map quote_cmds ms))
    in book_view (pe_hash env) (pl_book q) t =
         (if books = [] then None else Some (book_run books OrderBook_default)) \<and>
       pl_quote q t = (if quotes = [] then None else Some (quote_after quotes)) \<and>
       tb_inner (pl_trades q) t =
         fold (trade_step (max cap 1) t) (ops_for t (concat (map trade_cmds ms))) None)"
proof -
  let ?p = "build shards cap sink tx writer" and ?ms = "parsed (map snd fs)"
  have p: "pl_quote ?p = QuoteEngine_new" "pl_trades ?p = TradeBuffer_new cap"
    by (simp_all add: build_def)
  have "pl_quote (worker_loop env fs ?p) t =
      fold (quote_step t) (ops_for t (concat (map quote_cmds ?ms))) None"
    using quote.view_run [of "concat (map quote_cmds ?ms)" QuoteEngine_new t]
    by (simp add: worker_loop_engines p QuoteEngine_new_def)
  moreover have "tb_inner (pl_trades (worker_loop env fs ?p)) t =
      fold (trade_step (max cap 1) t) (ops_for t (concat (map trade_cmds ?ms))) None"
    using trades.view_run [OF buffer_inv_new [of cap]]
    by (simp add: worker_loop_engines p TradeBuffer_new_def)
  ultimately show ?thesis
    by (simp add: Let_def worker_book_view quote_steps)
qed

text \<open>C31. No trade the daemon receives ever reaches the database, whatever the asset cache holds:
  in every state reachable from one with an empty staging buffer, through any frames, background
  tasks, timer ticks and shutdown flushes, the buffer is still empty and the database is
  the one the writer was connected with. The dispatcher writes an empty record and a JSON text to the
  log and never calls the writer's \<open>stage\<close>.\<close>

theorem daemon_never_stages:
  assumes "(daemon_step env)\<^sup>*\<^sup>* p q" and "pl_trade_writer p = Some w" and "tw_buffer w = []"
  shows "\<exists>w'. pl_trade_writer q = Some w' \<and> tw_buffer w' = [] \<and> tw_pool w' = tw_pool w"
  using daemon.inv_reachable [OF assms(1), of w] assms(2,3) by (auto simp: writer_untouched_def)

definition demo_env :: "(nat, nat, nat, NoopSink, unit) pipeline_env" where
  "demo_env =
     \<lparr>pe_hash = (\<lambda>t. 0), pe_archive_send = (\<lambda>c f. (PushSent, c)), pe_publish = noop_publish, pe_runtime = True,
      pe_json = (\<lambda>s. ''{}''),
      pe_writer = \<lparr>we_micros = word_of_nat, we_from_micros = (\<lambda>n. Some (unat n)),
        we_decimal = \<lparr>from_f64 = (\<lambda>x. Some 0), from_i64 = unat, dec_mul = (*), round_dp = (\<lambda>d x. x), dec_default = 0\<rparr>,
        we_exec = (\<lambda>rows db. (Inr (word_of_nat (length rows)), db + length rows))\<rparr>\<rparr>"

definition demo_pipeline :: "(nat, nat, NoopSink, unit) Pipeline" where
  "demo_pipeline = (build 4 100 [] () (Some (writer_connect 0 [] 500)))
     \<lparr>pl_asset_cache := asset_insert ''PETR4'' 42 AssetCache_new\<rparr>"

lemma sample_trade_frame:
  "parse_frame Newline (gqt_print ''PETR4'' (sample_trade None ''RF'') ''43.005'') = Inr (PM_Trade ''PETR4'' (TO_Add (sample_trade None ''RF'')))"
proof -
  have wire: "wire_trade (sample_trade None ''RF'') ''43.005''" by simp
  have split: "split_on (CHR '':'') (gqt_print ''PETR4'' (sample_trade None ''RF'') ''43.005'') =
      ''V'' # ''PETR4'' # ''A'' # trade_fields (sample_trade None ''RF'') ''43.005''"
    by (rule gqt_print_split [OF wire]) simp
  have "tr_request_id (sample_trade None ''RF'') = None" by (simp add: sample_trade_def)
  from trade_op_of_subscribe [OF wire this]
  have "gqt_parse (gqt_print ''PETR4'' (sample_trade None ''RF'') ''43.005'') = Inr (PM_Trade ''PETR4'' (TO_Add (sample_trade None ''RF'')))"
    by (simp add: gqt_parse_fields [OF split])
  then show ?thesis by (simp add: parse_frame_table [OF split] frame_parsers_def)
qed

text \<open>A trade is dispatched: it reaches the buffer of recent trades, an empty record goes to the log, and a task appends the JSON
  text; then the task runs and the timer ticks.\<close>

theorem daemon_never_stages_witness:
  "let p1 = work_frame demo_env 0 (Newline, gqt_print ''PETR4'' (sample_trade None ''RF'') ''43.005'') demo_pipeline;
       p2 = run_task demo_env (AppendTask ''{}'') (p1\<lparr>pl_tasks := [SubmitTask (PublishKey_new K_Trade ''PETR4'') ''t'']\<rparr>)
   in tb_inner (pl_trades p1) ''PETR4'' \<noteq> None \<and>
      pl_tasks p1 = [AppendTask ''{}'', SubmitTask (PublishKey_new K_Trade ''PETR4'') ''t''] \<and>
      (\<exists>w'. pl_trade_writer (flush_timer_tick demo_env p2) = Some w' \<and> tw_buffer w' = [] \<and> tw_pool w' = 0 \<and>
         wal_contents (tw_wal w') = log_bytes [[], ''{}''])"
proof -
  let ?f = "(Newline, gqt_print ''PETR4'' (sample_trade None ''RF'') ''43.005'')"
  let ?p1 = "work_frame demo_env 0 ?f demo_pipeline" and ?submit = "SubmitTask (PublishKey_new K_Trade ''PETR4'') ''t''"
  let ?p2 = "run_task demo_env (AppendTask ''{}'') (?p1\<lparr>pl_tasks := [?submit]\<rparr>)"
  have trades: "tb_inner (pl_trades ?p1) ''PETR4'' \<noteq> None" and tasks: "pl_tasks ?p1 = [AppendTask ''{}'', ?submit]"
    by (simp_all add: work_frame_def Let_def sample_trade_frame trade_push_def spawn_fanout_def persist_trade_def spawn_persist_def
        build_staged_trade_def demo_env_def demo_pipeline_def build_def asset_get_def asset_insert_def utf8_valid_ascii is_ascii_def
        byte_in_def)
  have writer: "pl_trade_writer ?p1 = Some (append_to_wal [] (writer_connect 0 [] 500))"
    by (simp add: work_frame_def Let_def sample_trade_frame spawn_fanout_def persist_trade_def spawn_persist_def
        build_staged_trade_def demo_env_def demo_pipeline_def build_def asset_get_def asset_insert_def utf8_valid_ascii is_ascii_def
        byte_in_def)
  have "daemon_step demo_env demo_pipeline ?p1" by (rule daemon_step.frame)
  moreover have "daemon_step demo_env ?p1 ?p2"
    using daemon_step.task [of ?p1 "[]" "AppendTask ''{}''" "[?submit]" demo_env] tasks by simp
  moreover have "daemon_step demo_env ?p2 (flush_timer_tick demo_env ?p2)" by (rule daemon_step.tick)
  ultimately have run: "(daemon_step demo_env)\<^sup>*\<^sup>* demo_pipeline (flush_timer_tick demo_env ?p2)"
    by (blast intro: converse_rtranclp_into_rtranclp)
  obtain w' where w': "pl_trade_writer (flush_timer_tick demo_env ?p2) = Some w'" "tw_buffer w' = []" "tw_pool w' = 0"
    using daemon_never_stages [OF run, of "writer_connect 0 [] 500"]
    by (auto simp: demo_pipeline_def build_def writer_connect_def from_parts_def)
  then have "w' = append_to_wal ''{}'' (append_to_wal [] (writer_connect 0 [] 500))"
    by (simp add: flush_timer_tick_def writer flush_def append_to_wal_def writer_connect_def from_parts_def Let_def)
  then have "wal_contents (tw_wal w') = log_bytes [[], ''{}'']"
    by (simp add: append_to_wal_def writer_connect_def from_parts_def contents_append log_bytes_def)
  with w' trades tasks show ?thesis by (simp add: Let_def)
qed

section \<open>Order of dispatch\<close>

text \<open>With one worker the frames are dispatched in the order in which the channel holds them:
  once the channel is drained and the worker idle, the pipeline is the one the frames give in
  that order, each dispatched exactly once.\<close>

lemma one_worker_in_order:
  assumes "(pool_step 1 env)\<^sup>*\<^sup>* (fs, idle, p) ([], idle, q)"
  shows "\<exists>clocks. length clocks = length fs \<and> q = worker_loop env (zip clocks fs) p"
  using one_worker.inv_reachable [OF assms, of fs p]
  by (auto simp: one_worker_inv_def idle_def worker_loop_def)

text \<open>The pool of workers always finishes, and loses and repeats nothing: whatever the number of
  workers and the scheduling, a run on a channel of \<open>k\<close> frames makes at most \<open>2 * k\<close> steps; when no
  step is left the channel is empty, no worker holds a frame, and the pipeline is the one that some
  order of the frames gives, each dispatched exactly once.\<close>

lemma pool_terminates:
  assumes "n \<noteq> 0" and "(pool_step n env ^^ m) (fs, idle, p) s"
  shows "if \<exists>u. pool_step n env s u then m < 2 * length fs
         else m \<le> 2 * length fs \<and> (\<exists>gs clocks. mset gs = mset fs \<and> length clocks = length gs \<and>
                s = ([], idle, worker_loop env (zip clocks gs) p))"
proof -
  have reach: "(pool_step n env)\<^sup>*\<^sup>* (fs, idle, p) s" using assms(2) by (rule relpowp_imp_rtranclp)
  have start: "hands_ok n (fs, idle, p)" "all_accounted n env fs p (fs, idle, p)"
    by (simp_all add: hands_ok_def idle_def all_accounted_def worker_loop_def in_hand_def)
  have bound: "work_left n s + m \<le> 2 * length fs"
    using pool.run_bound [OF assms(2) start(1)] by (simp add: work_left_def idle_def)
  show ?thesis
  proof (cases "\<exists>u. pool_step n env s u")
    case True
    then have "0 < work_left n s" using work_left_step by fastforce
    with True bound show ?thesis by simp
  next
    case False
    obtain gs hands q where s: "s = ([], idle, q)"
      using pool_stuck [OF assms(1)] pool.inv_reachable [OF reach start(1)] False by (cases s) blast
    from accounted.inv_reachable [OF reach start(2)] s False bound show ?thesis
      by (auto simp: all_accounted_def)
  qed
qed

text \<open>Only the order of each ticker's own messages matters: two sequences of frames in which every
  ticker has the same book operations, the same quote updates and the same trade operations in the
  same order give the same books, quotes and recent trades, however the tickers are interleaved and
  whatever else the sequences hold.\<close>

lemma per_ticker_order_suffices:
  assumes "\<And>t. ops_for t (concat (map book_cmds (parsed (map snd fs)))) =
               ops_for t (concat (map book_cmds (parsed (map snd gs))))"
    and "\<And>t. ops_for t (concat (map quote_cmds (parsed (map snd fs)))) =
             ops_for t (concat (map quote_cmds (parsed (map snd gs))))"
    and "\<And>t. ops_for t (concat (map trade_cmds (parsed (map snd fs)))) =
             ops_for t (concat (map trade_cmds (parsed (map snd gs))))"
  shows "(let p = build shards cap sink tx writer; q = worker_loop env fs p; r = worker_loop env gs p
    in book_view (pe_hash env) (pl_book q) = book_view (pe_hash env) (pl_book r) \<and>
       pl_quote q = pl_quote r \<and> tb_inner (pl_trades q) = tb_inner (pl_trades r))"
proof -
  let ?p = "build shards cap sink tx writer"
  have "book_view (pe_hash env) (pl_book (worker_loop env fs ?p)) = book_view (pe_hash env) (pl_book (worker_loop env gs ?p))"
    using assms(1) by (simp add: fun_eq_iff worker_book_view)
  moreover have "pl_quote (worker_loop env fs ?p) = pl_quote (worker_loop env gs ?p)"
    using quote.interleaving_irrelevant [OF _ assms(2)] by (simp add: worker_loop_engines)
  moreover have "tb_inner (pl_trades (worker_loop env fs ?p)) = tb_inner (pl_trades (worker_loop env gs ?p))"
    using trades.interleaving_irrelevant [OF buffer_inv_new assms(3)]
    by (simp add: worker_loop_engines build_def)
  ultimately show ?thesis by (simp add: Let_def)
qed

text \<open>C30. With two workers or more, the default is eight, two updates of one ticker can be applied in
  the wrong order: for any two quote frames of a ticker there is a run that drains the channel and
  leaves the older frame's update as the latest state, with the older values over the newer.\<close>

theorem workers_can_reorder:
  assumes "2 \<le> n" and "parse_frame (fst f1) (snd f1) = Inr (PM_Quote t time1 diff1)"
    and "parse_frame (fst f2) (snd f2) = Inr (PM_Quote t time2 diff2)" and "pl_quote p t = None"
  shows "\<exists>q. (pool_step n env)\<^sup>*\<^sup>* ([f1, f2], idle, p) ([], idle, q) \<and>
             pl_quote q t = Some (quote_after [(time2, diff2), (time1, diff1)])"
proof -
  define q2 where "q2 = work_frame env undefined f2 p"
  define q where "q = work_frame env undefined f1 q2"
  have "pool_step n env ([f1, f2], idle, p) ([f2], idle(0 := Some f1), p)"
    using assms(1) by (intro pool_step.recv) (auto simp: idle_def)
  moreover have "pool_step n env ([f2], idle(0 := Some f1), p) ([], idle(0 := Some f1, 1 := Some f2), p)"
    using assms(1) by (intro pool_step.recv) (auto simp: idle_def)
  moreover have "pool_step n env ([], idle(0 := Some f1, 1 := Some f2), p) ([], idle(0 := Some f1), q2)"
    using assms(1) pool_step.work [of 1 n "idle(0 := Some f1, 1 := Some f2)" f2 env "[]" p undefined]
    by (simp add: idle_def fun_upd_idem q2_def)
  moreover have "pool_step n env ([], idle(0 := Some f1), q2) ([], idle, q)"
    using assms(1) pool_step.work [of 0 n "idle(0 := Some f1)" f1 env "[]" q2 undefined]
    by (simp add: idle_def fun_upd_idem q_def)
  ultimately have run: "(pool_step n env)\<^sup>*\<^sup>* ([f1, f2], idle, p) ([], idle, q)"
    by (meson converse_rtranclp_into_rtranclp r_into_rtranclp)
  have "pl_quote q t = fold (quote_step t) [(time2, diff2), (time1, diff1)] None"
    using assms(2-4)
    by (cases f1; cases f2) (simp add: q_def q2_def work_frame_engines parsed_def quote_step_def quote_apply_def split: prod.split)
  also have "\<dots> = Some (quote_after [(time2, diff2), (time1, diff1)])" by (rule quote_steps) simp
  finally show ?thesis using run by blast
qed

theorem workers_can_reorder_witness:
  "\<exists>q. (pool_step 8 demo_env)\<^sup>*\<^sup>*
        ([(Bang, ''T:PETR4:101758''), (Bang, ''T:PETR4:101759'')], idle, demo_pipeline) ([], idle, q) \<and>
       pl_quote q ''PETR4'' = Some (quote_after [(101759, []), (101758, [])])"
proof (rule workers_can_reorder)
  show "parse_frame (fst (Bang, ''T:PETR4:101758'')) (snd (Bang, ''T:PETR4:101758'')) = Inr (PM_Quote ''PETR4'' 101758 [])"
    by (simp add: parse_frame_table frame_parsers_def sqt_parse_fields parse_u32_eq is_digit_def byte_in_def
        dec_value_def digit_val_def)
  show "parse_frame (fst (Bang, ''T:PETR4:101759'')) (snd (Bang, ''T:PETR4:101759'')) = Inr (PM_Quote ''PETR4'' 101759 [])"
    by (simp add: parse_frame_table frame_parsers_def sqt_parse_fields parse_u32_eq is_digit_def byte_in_def
        dec_value_def digit_val_def)
qed (simp_all add: demo_pipeline_def build_def QuoteEngine_new_def)

end
