(* ===== verification/Bootstrap.thy ===== *)
theory Bootstrap
  imports Pipeline Client
begin

text \<open>
  \<^verbatim>\<open>bin/ingest-daemon/src/bootstrap.rs\<close> and the part of \<^verbatim>\<open>main.rs\<close> that orders the boot: discovery
  queries, resolution of the universe, subscriptions. The pauses of the source are the argument
  \<open>settle\<close>: what the rest of the daemon does to the pipeline while the bootstrap sleeps. The order in
  which the set of symbols is walked is the argument \<open>order\<close>.
\<close>

section \<open>The bootstrap\<close>

definition MQC_QUERIES :: "(bytes \<times> u16 \<times> u16 option) list" where
  "MQC_QUERIES =
     [(''Bovespa'', 1, None), (''Bovespa'', 2, None), (''Bovespa'', 3, None), (''Bovespa'', 10, None),
      (''Bovespa'', 13, None), (''Bovespa'', 20, None), (''BMF'', 7, Some 130), (''BMF'', 7, Some 60),
      (''BMF'', 7, Some 50), (''BMF'', 7, Some 40), (''BMF'', 7, Some 30), (''BMF'', 7, Some 20),
      (''BMF'', 2, Some 150)]"

record Universe =
  un_total :: usize
  un_book_set :: "bytes set"

fun query_markets :: "'w write_ops \<Rightarrow> (bytes \<times> u16 \<times> u16 option) list \<Rightarrow> 'w \<Rightarrow> (ClientError + unit) \<times> 'w" where
  "query_markets ops [] w = (Inr (), w)"
| "query_markets ops ((market, asset_type, subtype) # qs) w =
     (case list_market ops market asset_type subtype w of
        (Inl e, w1) \<Rightarrow> (Inl e, w1)
      | (Inr _, w1) \<Rightarrow> query_markets ops qs w1)"

definition register_ticker :: "bytes set \<Rightarrow> bytes \<Rightarrow> SubscriptionRegistry \<Rightarrow> SubscriptionRegistry" where
  "register_ticker book_set ticker r =
     (let r1 = snd (registry_add SK_Quote ticker r);
          r2 = (if ticker \<in> book_set then snd (registry_add SK_BookDetailed ticker r1) else r1)
      in snd (registry_add SK_Trades ticker r2))"

fun subscribe_universe :: "'w write_ops \<Rightarrow> bytes set \<Rightarrow> bytes list \<Rightarrow> SubscriptionRegistry \<Rightarrow> 'w \<Rightarrow>
    (ClientError + unit) \<times> SubscriptionRegistry \<times> 'w" where
  "subscribe_universe ops book_set [] r w = (Inr (), r, w)"
| "subscribe_universe ops book_set (ticker # ts) r w =
     (case subscribe_quote ops ticker False w of
        (Inl e, w1) \<Rightarrow> (Inl e, r, w1)
      | (Inr _, w1) \<Rightarrow>
          (case (if ticker \<in> book_set then subscribe_book_detailed ops ticker w1 else (Inr (), w1)) of
             (Inl e, w2) \<Rightarrow> (Inl e, r, w2)
           | (Inr _, w2) \<Rightarrow>
               (case subscribe_trades ops ticker (Some 50) w2 of
                  (Inl e, w3) \<Rightarrow> (Inl e, r, w3)
                | (Inr _, w3) \<Rightarrow> subscribe_universe ops book_set ts (register_ticker book_set ticker r) w3)))"

definition run :: "'w write_ops \<Rightarrow> (('dt, 'db, 's, 'c) Pipeline \<Rightarrow> ('dt, 'db, 's, 'c) Pipeline) \<Rightarrow>
    bytes list \<Rightarrow> ('dt, 'db, 's, 'c) Pipeline \<Rightarrow> 'w \<Rightarrow>
    (ClientError + Universe) \<times> ('dt, 'db, 's, 'c) Pipeline \<times> 'w" where
  "run ops settle order p w =
     (case list_brokers ops ''BOVESPA'' w of
        (Inl e, w1) \<Rightarrow> (Inl e, p, w1)
      | (Inr _, w1) \<Rightarrow>
          (case query_markets ops MQC_QUERIES w1 of
             (Inl e, w2) \<Rightarrow> (Inl e, p, w2)
           | (Inr _, w2) \<Rightarrow>
               let p1 = settle p;
                   total = card (ca_symbols (pl_catalog p1));
                   book_set = ca_book_universe (pl_catalog p1);
                   p2 = p1\<lparr>pl_book := set_allowed (Some book_set) (pl_book p1)\<rparr>
               in (case subscribe_universe ops book_set order (pl_subscriptions p2) w2 of
                     (Inl e, r, w3) \<Rightarrow> (Inl e, p2\<lparr>pl_subscriptions := r\<rparr>, w3)
                   | (Inr _, r, w3) \<Rightarrow>
                       (Inr \<lparr>un_total = total, un_book_set = book_set\<rparr>, p2\<lparr>pl_subscriptions := r\<rparr>, w3))))"

section \<open>The boot sequence of main\<close>

text \<open>\<open>main\<close> builds the pipeline, runs the bootstrap to its end and only then spawns the workers, so
  while the bootstrap sleeps no frame is dispatched. The catalog it reads is the one of \<open>build\<close>.\<close>

definition boot :: "('dt, 'dec, 'db, 's, 'c) pipeline_env \<Rightarrow> 'w write_ops \<Rightarrow> bytes list \<Rightarrow> ('dt \<times> frame) list \<Rightarrow>
    ('dt, 'db, 's, 'c) Pipeline \<Rightarrow> 'w \<Rightarrow> (ClientError + Universe) \<times> ('dt, 'db, 's, 'c) Pipeline \<times> 'w" where
  "boot env ops order fs p w =
     (case run ops (\<lambda>p. p) order p w of
        (Inl e, p1, w1) \<Rightarrow> (Inl e, p1, w1)
      | (Inr u, p1, w1) \<Rightarrow> (Inr u, worker_loop env fs p1, w1))"

section \<open>What is sent\<close>

definition discovery :: "command list" where
  "discovery = ListBrokers ''BOVESPA'' # map (\<lambda>(m, a, s). ListMarket m a s) MQC_QUERIES"

definition subscriptions_for :: "bytes set \<Rightarrow> bytes \<Rightarrow> command list" where
  "subscriptions_for book_set t =
     SubscribeQuote t False # (if t \<in> book_set then [SubscribeBookDetailed t] else []) @
     [SubscribeTrades t (Some 50)]"

text \<open>The bytes of a list of commands, by the command reference.\<close>

definition command_line :: "command \<Rightarrow> bytes" where
  "command_line c = join_on (CHR '' '') (command_words c) @ [CHR 0x0A]"

definition command_bytes :: "command list \<Rightarrow> bytes" where
  "command_bytes cs = concat (map command_line cs)"

lemma issue_sent:
  assumes "accepts_all ops sent"
  shows "\<exists>w'. issue ops c w = (Inr (), w') \<and> sent w' = sent w @ command_line c"
  using write_line_sent [OF assms, of "join_on (CHR '' '') (command_words c)" w]
  by (cases "issue ops c w") (simp add: issue_line command_line_def)

lemmas issue_ops_sent =
  issue_sent [where c = "ListBrokers m" for m, simplified]
  issue_sent [where c = "ListMarket m a s" for m a s, simplified]
  issue_sent [where c = "SubscribeQuote t s" for t s, simplified]
  issue_sent [where c = "SubscribeBookDetailed t" for t, simplified]
  issue_sent [where c = "SubscribeTrades t n" for t n, simplified]

lemma command_bytes_simps [simp]:
  "command_bytes [] = []" "command_bytes (c # cs) = command_line c @ command_bytes cs"
  "command_bytes (xs @ ys) = command_bytes xs @ command_bytes ys"
  by (simp_all add: command_bytes_def)

lemma query_markets_sent:
  assumes "accepts_all ops sent"
  shows "\<exists>w'. query_markets ops qs w = (Inr (), w') \<and>
              sent w' = sent w @ command_bytes (map (\<lambda>(m, a, s). ListMarket m a s) qs)"
proof (induction qs arbitrary: w)
  case (Cons q qs)
  obtain m a s where q: "q = (m, a, s)" by (metis prod_cases3)
  obtain w1 where w1: "list_market ops m a s w = (Inr (), w1)" "sent w1 = sent w @ command_line (ListMarket m a s)"
    using issue_ops_sent(2) [OF assms] by blast
  from Cons.IH [of w1] w1 q show ?case
    by auto
qed simp

lemma subscribe_universe_sent:
  assumes "accepts_all ops sent"
  shows "\<exists>w'. subscribe_universe ops bs ts r w = (Inr (), fold (register_ticker bs) ts r, w') \<and>
              sent w' = sent w @ command_bytes (concat (map (subscriptions_for bs) ts))"
proof (induction ts arbitrary: r w)
  case (Cons t ts)
  obtain w1 where w1: "subscribe_quote ops t False w = (Inr (), w1)"
    "sent w1 = sent w @ command_line (SubscribeQuote t False)"
    using issue_ops_sent(3) [OF assms] by blast
  obtain w2 where w2: "(if t \<in> bs then subscribe_book_detailed ops t w1 else (Inr (), w1)) = (Inr (), w2)"
    "sent w2 = sent w1 @ command_bytes (if t \<in> bs then [SubscribeBookDetailed t] else [])"
    using issue_ops_sent(4) [OF assms, of t w1] by (cases "t \<in> bs") auto
  obtain w3 where w3: "subscribe_trades ops t (Some 50) w2 = (Inr (), w3)"
    "sent w3 = sent w2 @ command_line (SubscribeTrades t (Some 50))"
    using issue_ops_sent(5) [OF assms] by blast
  from Cons.IH [of "register_ticker bs t r" w3] w1 w2 w3 show ?case
    by (auto simp: subscriptions_for_def)
qed simp

lemma register_ticker_eq:
  "register_ticker bs t r = r \<union> {(SK_Quote, t), (SK_Trades, t)} \<union> (if t \<in> bs then {(SK_BookDetailed, t)} else {})"
  by (auto simp: register_ticker_def registry_add_def Let_def)

lemma fold_register:
  "fold (register_ticker bs) ts r = r \<union> {SK_Quote, SK_Trades} \<times> set ts \<union> {SK_BookDetailed} \<times> (set ts \<inter> bs)"
  by (induction ts arbitrary: r) (auto simp: register_ticker_eq)

lemma run_sent:
  assumes "accepts_all ops sent"
  shows "\<exists>w'. run ops settle order p w =
      (let c = pl_catalog (settle p); bs = ca_book_universe c
       in (Inr \<lparr>un_total = card (ca_symbols c), un_book_set = bs\<rparr>,
           (settle p)\<lparr>pl_book := set_allowed (Some bs) (pl_book (settle p)),
              pl_subscriptions := fold (register_ticker bs) order (pl_subscriptions (settle p))\<rparr>, w')) \<and>
    sent w' = sent w @ command_bytes (discovery @
      concat (map (subscriptions_for (ca_book_universe (pl_catalog (settle p)))) order))"
proof -
  obtain w1 where w1: "list_brokers ops ''BOVESPA'' w = (Inr (), w1)"
    "sent w1 = sent w @ command_line (ListBrokers ''BOVESPA'')"
    using issue_ops_sent(1) [OF assms] by blast
  obtain w2 where w2: "query_markets ops MQC_QUERIES w1 = (Inr (), w2)"
    "sent w2 = sent w1 @ command_bytes (map (\<lambda>(m, a, s). ListMarket m a s) MQC_QUERIES)"
    using query_markets_sent [OF assms] by blast
  obtain w3 where w3: "subscribe_universe ops (ca_book_universe (pl_catalog (settle p))) order (pl_subscriptions (settle p)) w2 =
      (Inr (), fold (register_ticker (ca_book_universe (pl_catalog (settle p)))) order (pl_subscriptions (settle p)), w3)"
    "sent w3 = sent w2 @ command_bytes (concat (map (subscriptions_for (ca_book_universe (pl_catalog (settle p)))) order))"
    using subscribe_universe_sent [OF assms] by blast
  from w1 w2 w3 show ?thesis
    by (intro exI [of _ w3])
       (simp add: run_def Let_def discovery_def)
qed

section \<open>Properties\<close>

text \<open>C33. The bootstrap subscribes to exactly the catalog it finds: on a connection that accepts
  what it is sent, it issues the discovery commands and then, for each symbol, the quote
  subscription, the detailed book if the symbol is of the book universe, and the trades
  subscription; the registry gains exactly these, so a reconnect can replay them; the book engine is
  limited to the book universe and the universe's size is reported.\<close>

theorem bootstrap_subscribes_catalog:
  assumes "accepts_all ops sent" and "c = pl_catalog (settle p)" and "distinct order"
    and "set order = ca_symbols c"
  shows "\<exists>u q w'. run ops settle order p w = (Inr u, q, w') \<and>
           un_total u = length order \<and> un_book_set u = ca_book_universe c \<and>
           sent w' = sent w @ command_bytes (discovery @ concat (map (subscriptions_for (ca_book_universe c)) order)) \<and>
           pl_subscriptions q = pl_subscriptions (settle p) \<union> {SK_Quote, SK_Trades} \<times> ca_symbols c \<union>
             {SK_BookDetailed} \<times> (ca_symbols c \<inter> ca_book_universe c) \<and>
           en_allowed (pl_book q) = Some (ca_book_universe c)"
proof -
  from run_sent [OF assms(1), of settle order p w] obtain w' where
    "run ops settle order p w =
      (Inr \<lparr>un_total = card (ca_symbols c), un_book_set = ca_book_universe c\<rparr>,
       (settle p)\<lparr>pl_book := set_allowed (Some (ca_book_universe c)) (pl_book (settle p)),
          pl_subscriptions := fold (register_ticker (ca_book_universe c)) order (pl_subscriptions (settle p))\<rparr>, w')"
    "sent w' = sent w @ command_bytes (discovery @ concat (map (subscriptions_for (ca_book_universe c)) order))"
    by (auto simp: assms(2) Let_def)
  then show ?thesis
    using assms(3,4) distinct_card [OF assms(3)] by (simp add: set_allowed_def fold_register)
qed

theorem bootstrap_subscribes_catalog_witness:
  "\<exists>u q w'. run vec_ops (\<lambda>p. p\<lparr>pl_catalog := insert_symbol ''Bovespa'' ''PETR4'' (pl_catalog p)\<rparr>)
      [''PETR4''] demo_pipeline [] = (Inr u, q, w') \<and> un_total u = 1 \<and>
      pl_subscriptions q = {SK_Quote, SK_Trades, SK_BookDetailed} \<times> {''PETR4''}"
proof -
  let ?settle = "\<lambda>p. p\<lparr>pl_catalog := insert_symbol ''Bovespa'' ''PETR4'' (pl_catalog p)\<rparr>
    :: (nat, nat, NoopSink, unit) Pipeline"
  let ?c = "pl_catalog (?settle demo_pipeline)"
  have "eq_ignore_ascii_case ''Bovespa'' ''BOVESPA''" by code_simp
  then have c: "ca_symbols ?c = {''PETR4''}" "ca_book_universe ?c = {''PETR4''}"
    by (simp_all add: demo_pipeline_def build_def Catalog_default_def insert_symbol_def Let_def)
  moreover have "accepts_all vec_ops (\<lambda>w. w)" by (simp add: accepts_all_def vec_ops_def)
  ultimately show ?thesis
    using bootstrap_subscribes_catalog [of vec_ops "\<lambda>w. w" ?c ?settle demo_pipeline "[''PETR4'']" "[]"]
    by (auto simp: demo_pipeline_def build_def)
qed

text \<open>C32. The daemon subscribes to nothing and keeps no book: since the workers that fill the catalog
  start only after the bootstrap, the bootstrap finds an empty catalog, sends the discovery
  commands alone, registers nothing, and limits the book engine to the empty set, so that whatever
  frames arrive afterwards no ticker ever has a book.\<close>

theorem boot_keeps_no_book:
  assumes "accepts_all ops sent"
  shows "\<exists>u q w'. boot env ops [] fs (build shards cap sink tx writer) w = (Inr u, q, w') \<and>
           un_total u = 0 \<and> sent w' = sent w @ command_bytes discovery \<and>
           (\<forall>t. book_view (pe_hash env) (pl_book q) t = None)"
proof -
  let ?p = "build shards cap sink tx writer"
  from run_sent [OF assms, of "\<lambda>p. p" "[]" ?p w] obtain w' where
    w': "run ops (\<lambda>p. p) [] ?p w = (Inr \<lparr>un_total = 0, un_book_set = {}\<rparr>,
      ?p\<lparr>pl_book := set_allowed (Some {}) (BookEngine_new shards), pl_subscriptions := {}\<rparr>, w')"
    "sent w' = sent w @ command_bytes discovery"
    by (auto simp: Let_def build_def Catalog_default_def)
  let ?p1 = "?p\<lparr>pl_book := set_allowed (Some {}) (BookEngine_new shards), pl_subscriptions := {}\<rparr>"
  have "book_view (pe_hash env) (pl_book (worker_loop env fs ?p1)) t = None" for t
    using book.view_run [of "pe_hash env" "Some {}" "set_allowed (Some {}) (BookEngine_new shards)" _ t]
      engine_inv_new
    by (simp add: worker_loop_engines book_step_run)
  with w' show ?thesis by (simp add: boot_def)
qed

theorem boot_keeps_no_book_witness:
  "\<exists>u q w'. boot demo_env vec_ops [] [(0, Newline, ''C:Bovespa:PETR4''), (1, Newline, ''B:PETR4:E'')]
       (build 4 100 [] () None) [] = (Inr u, q, w') \<and> un_total u = 0 \<and>
     (\<forall>t. book_view (pe_hash demo_env) (pl_book q) t = None)"
  using boot_keeps_no_book [of vec_ops "\<lambda>w. w" demo_env
      "[(0, Newline, ''C:Bovespa:PETR4''), (1, Newline, ''B:PETR4:E'')]" 4 100 "[]" "()" None "[]"]
  by (auto simp: accepts_all_def vec_ops_def)

end
