(* ===== verification/Api.thy ===== *)
theory Api
  imports Fanout Scanner
begin

text \<open>
  \<^verbatim>\<open>crates/api-server/src\<close>: tokens, content negotiation, the snapshot store and the HTTP handlers. A
  header map is a function from lower-case header names. Parameters, gathered in \<open>api_env\<close>: the
  \<open>to_str\<close> of a header value, the Redis commands GET and MGET on the store, the JSON and MessagePack
  libraries and the hash behind the entity tag. Metrics are left out.
\<close>

section \<open>Trimming\<close>

text \<open>\<open>str::trim\<close> removes the characters with the Unicode property \<open>White_Space\<close>; these are their UTF-8
  encodings. No encoding is a suffix of another character's, so the end is trimmed on the reversed text.\<close>

definition white_space :: "bytes list" where
  "white_space =
     [[CHR 0x09], [CHR 0x0A], [CHR 0x0B], [CHR 0x0C], [CHR 0x0D], [CHR 0x20],
      [CHR 0xC2, CHR 0x85], [CHR 0xC2, CHR 0xA0], [CHR 0xE1, CHR 0x9A, CHR 0x80],
      [CHR 0xE2, CHR 0x80, CHR 0x80], [CHR 0xE2, CHR 0x80, CHR 0x81],
      [CHR 0xE2, CHR 0x80, CHR 0x82], [CHR 0xE2, CHR 0x80, CHR 0x83],
      [CHR 0xE2, CHR 0x80, CHR 0x84], [CHR 0xE2, CHR 0x80, CHR 0x85],
      [CHR 0xE2, CHR 0x80, CHR 0x86], [CHR 0xE2, CHR 0x80, CHR 0x87],
      [CHR 0xE2, CHR 0x80, CHR 0x88], [CHR 0xE2, CHR 0x80, CHR 0x89],
      [CHR 0xE2, CHR 0x80, CHR 0x8A], [CHR 0xE2, CHR 0x80, CHR 0xA8],
      [CHR 0xE2, CHR 0x80, CHR 0xA9], [CHR 0xE2, CHR 0x80, CHR 0xAF],
      [CHR 0xE2, CHR 0x81, CHR 0x9F], [CHR 0xE3, CHR 0x80, CHR 0x80]]"

definition has_prefix :: "bytes \<Rightarrow> bytes \<Rightarrow> bool" where
  "has_prefix p s \<longleftrightarrow> take (length p) s = p"

function strip_leading :: "bytes list \<Rightarrow> bytes \<Rightarrow> bytes" where
  "strip_leading ws s =
     (case find (\<lambda>p. p \<noteq> [] \<and> has_prefix p s) ws of
        Some p \<Rightarrow> strip_leading ws (drop (length p) s)
      | None \<Rightarrow> s)"
  by pat_completeness auto
termination
proof (relation "measure (\<lambda>(ws, s). length s)", goal_cases)
  case (2 ws s p)
  then have "p \<noteq> []" "has_prefix p s" by (auto simp: find_Some_iff)
  then show ?case by (cases s) (auto simp: has_prefix_def)
qed simp

declare strip_leading.simps [simp del]

definition trim :: "bytes \<Rightarrow> bytes" where
  "trim s = rev (strip_leading (map rev white_space) (rev (strip_leading white_space s)))"

section \<open>Errors\<close>

datatype ApiError =
    AE_MissingAuth
  | AE_InvalidToken
  | AE_RateLimited
  | AE_TickerNotFound bytes
  | AE_BookNotAvailable
  | AE_Redis string
  | AE_BadRequest string
  | AE_Internal string

fun status :: "ApiError \<Rightarrow> nat" where
  "status AE_MissingAuth = 401"
| "status AE_InvalidToken = 401"
| "status AE_RateLimited = 429"
| "status (AE_TickerNotFound t) = 404"
| "status AE_BookNotAvailable = 404"
| "status (AE_BadRequest r) = 400"
| "status (AE_Redis e) = 500"
| "status (AE_Internal r) = 500"

fun code :: "ApiError \<Rightarrow> string" where
  "code AE_MissingAuth = ''missing_auth''"
| "code AE_InvalidToken = ''invalid_token''"
| "code AE_RateLimited = ''rate_limited''"
| "code (AE_TickerNotFound t) = ''ticker_not_found''"
| "code AE_BookNotAvailable = ''book_not_available''"
| "code (AE_Redis e) = ''internal''"
| "code (AE_Internal r) = ''internal''"
| "code (AE_BadRequest r) = ''bad_request''"

section \<open>Tokens\<close>

type_synonym HeaderMap = "bytes \<Rightarrow> bytes option"

record ApiConfig =
  ap_redis_url :: bytes
  ap_nats_url :: bytes
  ap_valid_tokens :: "bytes set"
  ap_book_universe :: "bytes set option"
  ap_rate_limit_per_second :: "u32 option"
  ap_etag_cache_ttl :: nat
  ap_cors_allowed_origins :: "bytes list"

text \<open>Durations in milliseconds.\<close>

definition ApiConfig_default :: ApiConfig where
  "ApiConfig_default =
     \<lparr>ap_redis_url = ''redis://127.0.0.1/'', ap_nats_url = ''nats://127.0.0.1:4222'', ap_valid_tokens = {},
      ap_book_universe = None, ap_rate_limit_per_second = Some 100, ap_etag_cache_ttl = 5 * 1000,
      ap_cors_allowed_origins = []\<rparr>"

definition strip_prefix :: "bytes \<Rightarrow> bytes \<Rightarrow> bytes option" where
  "strip_prefix p s = (if has_prefix p s then Some (drop (length p) s) else None)"

definition extract_bearer :: "(bytes \<Rightarrow> bytes option) \<Rightarrow> HeaderMap \<Rightarrow> ApiError + bytes" where
  "extract_bearer to_str headers =
     bind_res (ok_or (headers ''authorization'') AE_MissingAuth) (\<lambda>header_val.
     bind_res (ok_or (to_str header_val) AE_InvalidToken) (\<lambda>val.
       let raw = trim val
       in bind_res (ok_or (case strip_prefix ''Bearer '' raw of
                             Some r \<Rightarrow> Some r | None \<Rightarrow> strip_prefix ''bearer '' raw) AE_InvalidToken) (\<lambda>rest.
            let token = trim rest
            in if token = [] then Inl AE_InvalidToken else Inr token)))"

definition require_token :: "(bytes \<Rightarrow> bytes option) \<Rightarrow> HeaderMap \<Rightarrow> ApiConfig \<Rightarrow> ApiError + bytes" where
  "require_token to_str headers cfg =
     bind_res (extract_bearer to_str headers) (\<lambda>token.
       if token \<notin> ap_valid_tokens cfg then Inl AE_InvalidToken else Inr token)"

section \<open>Content negotiation\<close>

datatype Accept = Json | MessagePack

fun content_type :: "Accept \<Rightarrow> bytes" where
  "content_type Json = ''application/json''"
| "content_type MessagePack = ''application/msgpack''"

fun contains_sub :: "bytes \<Rightarrow> bytes \<Rightarrow> bool" where
  "contains_sub p [] \<longleftrightarrow> p = []"
| "contains_sub p (x # xs) \<longleftrightarrow> has_prefix p (x # xs) \<or> contains_sub p xs"

definition from_headers :: "(bytes \<Rightarrow> bytes option) \<Rightarrow> HeaderMap \<Rightarrow> Accept" where
  "from_headers to_str headers =
     (case headers ''accept'' of
        None \<Rightarrow> Json
      | Some val \<Rightarrow>
          let s = (case to_str val of Some s \<Rightarrow> s | None \<Rightarrow> [])
          in if contains_sub ''application/msgpack'' s \<or> contains_sub ''application/x-msgpack'' s
             then MessagePack else Json)"

section \<open>Snapshot store\<close>

datatype SnapshotKind = SN_Quote | SN_Book | SN_Trade

fun SnapshotKind_as_str :: "SnapshotKind \<Rightarrow> bytes" where
  "SnapshotKind_as_str SN_Quote = ''quote''"
| "SnapshotKind_as_str SN_Book = ''book''"
| "SnapshotKind_as_str SN_Trade = ''trade''"

definition snapshot_key :: "SnapshotKind \<Rightarrow> bytes \<Rightarrow> bytes" where
  "snapshot_key kind ticker = ''market:'' @ SnapshotKind_as_str kind @ '':'' @ ticker"

record ('db, 'json) api_env =
  av_to_str :: "bytes \<Rightarrow> bytes option"
  av_get :: "'db \<Rightarrow> bytes \<Rightarrow> string + bytes option"
  av_mget :: "'db \<Rightarrow> bytes list \<Rightarrow> string + bytes option list"
  av_json_parse :: "bytes \<Rightarrow> 'json option"
  av_hash :: "bytes \<Rightarrow> u64"

definition redis_result :: "string + 'a \<Rightarrow> ApiError + 'a" where
  "redis_result r = (case r of Inl e \<Rightarrow> Inl (AE_Redis e) | Inr v \<Rightarrow> Inr v)"

definition store_get :: "('db, 'json) api_env \<Rightarrow> 'db \<Rightarrow> SnapshotKind \<Rightarrow> bytes \<Rightarrow> ApiError + bytes option" where
  "store_get env db kind ticker = redis_result (av_get env db (snapshot_key kind ticker))"

definition get_batch :: "('db, 'json) api_env \<Rightarrow> 'db \<Rightarrow> SnapshotKind \<Rightarrow> bytes list \<Rightarrow> ApiError + bytes option list" where
  "get_batch env db kind tickers =
     (if tickers = [] then Inr []
      else redis_result (av_mget env db (map (snapshot_key kind) tickers)))"

section \<open>Handlers\<close>

text \<open>\<open>{hash:x}\<close> and \<open>{b:02x}\<close>: hexadecimal digits.\<close>

definition hex_digit :: "nat \<Rightarrow> u8" where
  "hex_digit n = (if n < 10 then char_of (48 + n) else char_of (87 + n))"

fun show_hex :: "nat \<Rightarrow> bytes" where
  "show_hex n = (if n < 16 then [hex_digit n] else show_hex (n div 16) @ [hex_digit (n mod 16)])"

declare show_hex.simps [simp del]

definition hex_byte :: "u8 \<Rightarrow> bytes" where
  "hex_byte b = (let n = of_char b in [hex_digit (n div 16), hex_digit (n mod 16)])"

definition hex :: "bytes \<Rightarrow> bytes" where
  "hex bs = concat (map hex_byte bs)"

definition compute_etag :: "(bytes \<Rightarrow> u64) \<Rightarrow> bytes \<Rightarrow> bytes" where
  "compute_etag hash payload = [CHR 0x22] @ show_hex (unat (hash payload)) @ [CHR 0x22]"

datatype 'json batch_value = BV_Null | BV_Parsed 'json | BV_RawHex bytes

text \<open>The body of a batch is the object handed to the encoder.\<close>

datatype 'json response =
    Snapshot (rs_content_type: bytes) (rs_cache_control: bytes) (rs_etag: bytes) (rs_body: bytes)
  | BatchJson bytes "bytes \<rightharpoonup> 'json batch_value"
  | BatchPack bytes "bytes \<rightharpoonup> bytes option"

definition snapshot_response :: "('db, 'json) api_env \<Rightarrow> Accept \<Rightarrow> bytes \<Rightarrow> 'json response" where
  "snapshot_response env accept payload =
     Snapshot (content_type accept) ''max-age=1'' (compute_etag (av_hash env) payload) payload"

definition quote_single :: "('db, 'json) api_env \<Rightarrow> ApiConfig \<Rightarrow> 'db \<Rightarrow> HeaderMap \<Rightarrow> bytes \<Rightarrow> ApiError + 'json response" where
  "quote_single env cfg db headers ticker =
     bind_res (require_token (av_to_str env) headers cfg) (\<lambda>_.
       let accept = from_headers (av_to_str env) headers
       in bind_res (store_get env db SN_Quote ticker) (\<lambda>r.
          bind_res (ok_or r (AE_TickerNotFound ticker)) (\<lambda>b. Inr (snapshot_response env accept b))))"

definition book_single :: "('db, 'json) api_env \<Rightarrow> ApiConfig \<Rightarrow> 'db \<Rightarrow> HeaderMap \<Rightarrow> bytes \<Rightarrow> ApiError + 'json response" where
  "book_single env cfg db headers ticker =
     bind_res (require_token (av_to_str env) headers cfg) (\<lambda>_.
       let accept = from_headers (av_to_str env) headers
       in bind_res (store_get env db SN_Book ticker) (\<lambda>r.
          bind_res (ok_or r AE_BookNotAvailable) (\<lambda>b. Inr (snapshot_response env accept b))))"

record TradesQuery =
  tq_limit :: u32
  tq_since :: "bytes option"

definition default_limit :: u32 where
  "default_limit = 50"

definition trades :: "('db, 'json) api_env \<Rightarrow> ApiConfig \<Rightarrow> 'db \<Rightarrow> HeaderMap \<Rightarrow> bytes \<Rightarrow> TradesQuery \<Rightarrow> ApiError + 'json response" where
  "trades env cfg db headers ticker q =
     bind_res (require_token (av_to_str env) headers cfg) (\<lambda>_.
       if tq_since q \<noteq> None then
         Inl (AE_BadRequest ''historical range queries require the TimescaleDB backend (task #2)'')
       else if tq_limit q = 0 \<or> tq_limit q > 1000 then Inl (AE_BadRequest ''limit must be in 1..=1000'')
       else
         let accept = from_headers (av_to_str env) headers
         in bind_res (store_get env db SN_Trade ticker) (\<lambda>r.
            bind_res (ok_or r (AE_TickerNotFound ticker)) (\<lambda>b. Inr (snapshot_response env accept b))))"

definition MAX_BATCH :: usize where
  "MAX_BATCH = 500"

definition batch_tickers :: "bytes \<Rightarrow> bytes list" where
  "batch_tickers q = filter (\<lambda>s. s \<noteq> []) (map trim (split_on (CHR '','') q))"

definition batch_value_of :: "('db, 'json) api_env \<Rightarrow> bytes option \<Rightarrow> 'json batch_value" where
  "batch_value_of env payload =
     (case payload of
        None \<Rightarrow> BV_Null
      | Some b \<Rightarrow> (case av_json_parse env b of Some v \<Rightarrow> BV_Parsed v | None \<Rightarrow> BV_RawHex (hex b)))"

definition batch :: "('db, 'json) api_env \<Rightarrow> 'db \<Rightarrow> SnapshotKind \<Rightarrow> bytes \<Rightarrow> HeaderMap \<Rightarrow> ApiError + 'json response" where
  "batch env db kind q headers =
     (let accept = from_headers (av_to_str env) headers;
          tickers = batch_tickers q
      in if tickers = [] then Inl (AE_BadRequest ''tickers list is empty'')
         else if length tickers > MAX_BATCH then Inl (AE_BadRequest ''batch exceeds 500 tickers'')
         else bind_res (get_batch env db kind tickers) (\<lambda>results.
           if accept = Json
           then Inr (BatchJson (content_type accept)
                  (fold (\<lambda>(t, r) m. m(t \<mapsto> batch_value_of env r)) (zip tickers results) Map.empty))
           else Inr (BatchPack (content_type accept)
                  (fold (\<lambda>(t, r) m. m(t \<mapsto> r)) (zip tickers results) Map.empty))))"

definition quote_batch :: "('db, 'json) api_env \<Rightarrow> ApiConfig \<Rightarrow> 'db \<Rightarrow> HeaderMap \<Rightarrow> bytes \<Rightarrow> ApiError + 'json response" where
  "quote_batch env cfg db headers q =
     bind_res (require_token (av_to_str env) headers cfg) (\<lambda>_. batch env db SN_Quote q headers)"

definition book_batch :: "('db, 'json) api_env \<Rightarrow> ApiConfig \<Rightarrow> 'db \<Rightarrow> HeaderMap \<Rightarrow> bytes \<Rightarrow> ApiError + 'json response" where
  "book_batch env cfg db headers q =
     bind_res (require_token (av_to_str env) headers cfg) (\<lambda>_. batch env db SN_Book q headers)"

section \<open>The protocol of the streaming surface\<close>

datatype SubscribeChannel = CH_Quote | CH_Book | CH_Trade

fun SubscribeChannel_as_str :: "SubscribeChannel \<Rightarrow> bytes" where
  "SubscribeChannel_as_str CH_Quote = ''quote''"
| "SubscribeChannel_as_str CH_Book = ''book''"
| "SubscribeChannel_as_str CH_Trade = ''trade''"

fun nats_prefix :: "SubscribeChannel \<Rightarrow> bytes" where
  "nats_prefix CH_Quote = ''market.quote.''"
| "nats_prefix CH_Book = ''market.book.''"
| "nats_prefix CH_Trade = ''market.trade.''"

section \<open>Lemmas\<close>

lemma has_prefix_iff: "has_prefix p s \<longleftrightarrow> (\<exists>r. s = p @ r)"
  by (metis append_eq_conv_conj append_take_drop_id has_prefix_def)

lemma strip_prefix_Some: "strip_prefix p s = Some r \<longleftrightarrow> s = p @ r"
  by (auto simp: strip_prefix_def has_prefix_iff)

lemma strip_leading_id:
  assumes "s \<noteq> []" and "\<forall>p \<in> set ws. hd p \<noteq> hd s"
  shows "strip_leading ws s = s"
proof -
  have "\<not> (p \<noteq> [] \<and> has_prefix p s)" if "p \<in> set ws" for p
    using assms that by (cases p; cases s) (auto simp: has_prefix_iff)
  then have "find (\<lambda>p. p \<noteq> [] \<and> has_prefix p s) ws = None" by (auto simp: find_None_iff)
  then show ?thesis by (simp add: strip_leading.simps)
qed

lemma trim_id:
  assumes "s \<noteq> []" and "hd s \<notin> set (map hd white_space)" and "last s \<notin> set (map last white_space)"
  shows "trim s = s"
proof -
  have "strip_leading white_space s = s"
    using assms(1,2) by (intro strip_leading_id) (simp_all, metis image_eqI)
  moreover have "strip_leading (map rev white_space) (rev s) = rev s"
    using assms(1,3) by (intro strip_leading_id) (simp_all add: hd_rev, metis image_eqI)
  ultimately show ?thesis by (simp add: trim_def)
qed

text \<open>A request carries a token when its \<open>Authorization\<close> header is text of the form
  \<open>Bearer <token>\<close>, white space around either part aside.\<close>

definition carries_token :: "(bytes \<Rightarrow> bytes option) \<Rightarrow> HeaderMap \<Rightarrow> bytes \<Rightarrow> bool" where
  "carries_token to_str headers token \<longleftrightarrow>
     (\<exists>val s rest. headers ''authorization'' = Some val \<and> to_str val = Some s \<and>
        (trim s = ''Bearer '' @ rest \<or> trim s = ''bearer '' @ rest) \<and> trim rest = token \<and> token \<noteq> [])"

lemma extract_bearer_iff: "extract_bearer to_str headers = Inr token \<longleftrightarrow> carries_token to_str headers token"
proof
  assume "extract_bearer to_str headers = Inr token"
  then show "carries_token to_str headers token"
    by (auto simp: extract_bearer_def carries_token_def bind_res_def ok_or_def Let_def strip_prefix_Some
        split: option.splits sum.splits if_splits)
next
  assume "carries_token to_str headers token"
  then obtain val s rest where v: "headers ''authorization'' = Some val" "to_str val = Some s"
    "trim s = ''Bearer '' @ rest \<or> trim s = ''bearer '' @ rest" "trim rest = token" "token \<noteq> []"
    by (auto simp: carries_token_def)
  have "(case strip_prefix ''Bearer '' (trim s) of Some r \<Rightarrow> Some r | None \<Rightarrow> strip_prefix ''bearer '' (trim s)) = Some rest"
    using v(3) by (auto simp: strip_prefix_def has_prefix_def)
  with v show "extract_bearer to_str headers = Inr token"
    by (simp add: extract_bearer_def ok_or_def)
qed

lemma extract_bearer_error: "extract_bearer to_str headers = Inl e \<Longrightarrow> status e = 401"
  by (auto simp: extract_bearer_def bind_res_def ok_or_def Let_def split: option.splits sum.splits if_splits)

lemma require_token_iff:
  "require_token to_str headers cfg = Inr token \<longleftrightarrow> carries_token to_str headers token \<and> token \<in> ap_valid_tokens cfg"
  by (auto simp: require_token_def bind_res_def extract_bearer_iff [symmetric] split: sum.splits)

lemma require_token_error: "require_token to_str headers cfg = Inl e \<Longrightarrow> status e = 401"
  by (auto simp: require_token_def bind_res_def extract_bearer_error split: sum.splits if_splits)

fun kind_of_snapshot :: "SnapshotKind \<Rightarrow> Kind" where
  "kind_of_snapshot SN_Quote = K_Quote"
| "kind_of_snapshot SN_Book = K_Book"
| "kind_of_snapshot SN_Trade = K_Trade"

lemma snapshot_key_redis:
  "utf8_valid ticker \<Longrightarrow> snapshot_key kind ticker = redis_key (PublishKey_new (kind_of_snapshot kind) ticker)"
  by (cases kind) (simp_all add: snapshot_key_def redis_key_def PublishKey_new_def)

lemma nats_prefix_subject:
  "utf8_valid ticker \<Longrightarrow> nats_prefix ch @ ticker =
     nats_subject (PublishKey_new (case ch of CH_Quote \<Rightarrow> K_Quote | CH_Book \<Rightarrow> K_Book | CH_Trade \<Rightarrow> K_Trade) ticker)"
  by (cases ch) (simp_all add: nats_subject_def PublishKey_new_def)

lemma fold_zip_map:
  "fold (\<lambda>(t, r) m. m(t \<mapsto> f r)) (zip ts (map g ts)) m =
     (\<lambda>t. if t \<in> set ts then Some (f (g t)) else m t)"
  by (induction ts arbitrary: m) (auto simp: fun_eq_iff)

section \<open>Properties\<close>

text \<open>No market data without a token: any of the five data endpoints answers only a request whose
  \<open>Authorization\<close> header carries a token of the configured set, and every other request gets an
  error with status 401.\<close>

lemma api_needs_valid_token:
  assumes "r \<in> {quote_single env cfg db headers ticker, book_single env cfg db headers ticker,
                trades env cfg db headers ticker q, quote_batch env cfg db headers list,
                book_batch env cfg db headers list}"
  shows "(is_ok r \<longrightarrow> (\<exists>token \<in> ap_valid_tokens cfg. carries_token (av_to_str env) headers token)) \<and>
         ((\<nexists>token. token \<in> ap_valid_tokens cfg \<and> carries_token (av_to_str env) headers token) \<longrightarrow>
            (\<exists>e. r = Inl e \<and> status e = 401))"
proof (cases "require_token (av_to_str env) headers cfg")
  case (Inl e)
  with assms have "r = Inl e"
    by (auto simp: quote_single_def book_single_def trades_def quote_batch_def book_batch_def)
  with require_token_error [OF Inl] show ?thesis by (simp add: is_ok_def)
next
  case (Inr token)
  then show ?thesis by (auto simp: require_token_iff)
qed

definition demo_api :: "(bytes \<rightharpoonup> bytes, unit) api_env" where
  "demo_api = \<lparr>av_to_str = Some, av_get = (\<lambda>db k. Inr (db k)), av_mget = (\<lambda>db ks. Inr (map db ks)),
     av_json_parse = (\<lambda>b. None), av_hash = (\<lambda>b. 0)\<rparr>"

text \<open>A batch answers like the single endpoint, ticker by ticker: when MGET reads what GET reads
  and the request is authorised, a JSON batch of one to 500 tickers is an object with exactly the
  requested tickers, each with the decoded snapshot, its hexadecimal text if it is no JSON, or null if
  there is none; an empty list and a longer one are refused with status 400.\<close>

lemma batch_mirrors_single:
  assumes "require_token (av_to_str env) headers cfg = Inr token"
    and "\<And>ks. av_mget env db ks = Inr (map value_at ks)"
    and "from_headers (av_to_str env) headers = Json" and "ts = batch_tickers list"
  shows "quote_batch env cfg db headers list =
    (if ts = [] then Inl (AE_BadRequest ''tickers list is empty'')
     else if 500 < length ts then Inl (AE_BadRequest ''batch exceeds 500 tickers'')
     else Inr (BatchJson ''application/json'' (\<lambda>t. if t \<in> set ts
            then Some (batch_value_of env (value_at (snapshot_key SN_Quote t))) else None)))"
proof -
  have "fold (\<lambda>(t, r) m. m(t \<mapsto> batch_value_of env r))
      (zip ts (map value_at (map (snapshot_key SN_Quote) ts))) Map.empty =
    (\<lambda>t. if t \<in> set ts then Some (batch_value_of env (value_at (snapshot_key SN_Quote t))) else None)"
    using fold_zip_map [of "batch_value_of env" ts "\<lambda>t. value_at (snapshot_key SN_Quote t)" Map.empty]
    by (simp add: comp_def)
  with assms show ?thesis
    by (simp add: quote_batch_def batch_def get_batch_def redis_result_def MAX_BATCH_def Let_def)
qed

end
