(* ===== verification/Runtime_Config.thy ===== *)
theory Runtime_Config
  imports Client Api
begin

text \<open>
  \<^verbatim>\<open>bin/ingest-daemon/src/runtime_config.rs\<close>, the connection settings \<^verbatim>\<open>main.rs\<close> derives from it, the
  worker count of \<^verbatim>\<open>pipeline.rs\<close>, and the settings of \<^verbatim>\<open>bin/api-server/src/main.rs\<close>. The environment of the
  process is a function from names to byte strings. \<open>parse_unsigned\<close> and \<open>parse_signed\<close> are the
  \<open>FromStr\<close> of the standard library's integers; \<open>usize\<close> has 64 bits.
\<close>

section \<open>Environment variables\<close>

type_synonym environment = "bytes \<Rightarrow> bytes option"

text \<open>\<open>env::var\<close> fails for an unset variable and for one that is no text.\<close>

definition env_var :: "environment \<Rightarrow> bytes \<Rightarrow> bytes option" where
  "env_var env key = (case env key of Some v \<Rightarrow> if utf8_valid v then Some v else None | None \<Rightarrow> None)"

definition env_or :: "environment \<Rightarrow> bytes \<Rightarrow> bytes \<Rightarrow> bytes" where
  "env_or env key dflt = (case env_var env key of Some v \<Rightarrow> v | None \<Rightarrow> dflt)"

definition strip_plus :: "bytes \<Rightarrow> bytes" where
  "strip_plus s = (case s of c # r \<Rightarrow> if c = CHR ''+'' then r else s | [] \<Rightarrow> [])"

definition parse_unsigned :: "nat \<Rightarrow> bytes \<Rightarrow> nat option" where
  "parse_unsigned w s =
     (let d = strip_plus s
      in if d \<noteq> [] \<and> list_all is_digit d \<and> dec_value d < 2 ^ w then Some (dec_value d) else None)"

definition parse_signed :: "nat \<Rightarrow> bytes \<Rightarrow> int option" where
  "parse_signed w s =
     (case s of
        c # d \<Rightarrow>
          if c = CHR ''-'' then
            (if d \<noteq> [] \<and> list_all is_digit d \<and> dec_value d \<le> 2 ^ (w - 1) then Some (- int (dec_value d)) else None)
          else map_option int (parse_unsigned (w - 1) s)
      | [] \<Rightarrow> None)"

definition static_str :: string where
  "static_str = ''invalid env var value''"

definition env_parse :: "environment \<Rightarrow> (bytes \<Rightarrow> 'a option) \<Rightarrow> bytes \<Rightarrow> 'a \<Rightarrow> string + 'a" where
  "env_parse env parse key dflt =
     (case env_var env key of Some v \<Rightarrow> ok_or (parse v) static_str | None \<Rightarrow> Inr dflt)"

definition env_u16 :: "environment \<Rightarrow> bytes \<Rightarrow> u16 \<Rightarrow> string + u16" where
  "env_u16 env = env_parse env (\<lambda>v. map_option word_of_nat (parse_unsigned 16 v))"

definition env_u32 :: "environment \<Rightarrow> bytes \<Rightarrow> u32 \<Rightarrow> string + u32" where
  "env_u32 env = env_parse env (\<lambda>v. map_option word_of_nat (parse_unsigned 32 v))"

definition env_u64 :: "environment \<Rightarrow> bytes \<Rightarrow> u64 \<Rightarrow> string + u64" where
  "env_u64 env = env_parse env (\<lambda>v. map_option word_of_nat (parse_unsigned 64 v))"

definition env_i32 :: "environment \<Rightarrow> bytes \<Rightarrow> i32 \<Rightarrow> string + i32" where
  "env_i32 env = env_parse env (\<lambda>v. map_option word_of_int (parse_signed 32 v))"

definition env_usize :: "environment \<Rightarrow> bytes \<Rightarrow> usize \<Rightarrow> string + usize" where
  "env_usize env = env_parse env (parse_unsigned 64)"

definition env_opt_usize :: "environment \<Rightarrow> bytes \<Rightarrow> string + usize option" where
  "env_opt_usize env key = env_parse env (\<lambda>v. map_option Some (parse_unsigned 64 v)) key None"

definition env_opt_u64 :: "environment \<Rightarrow> bytes \<Rightarrow> string + u64 option" where
  "env_opt_u64 env key = env_parse env (\<lambda>v. map_option (\<lambda>n. Some (word_of_nat n)) (parse_unsigned 64 v)) key None"

section \<open>The daemon's configuration\<close>

record RuntimeConfig =
  rt_log_filter :: bytes
  rt_log_json :: bool
  rt_metrics_bind :: bytes
  rt_cedro_host :: bytes
  rt_cedro_port :: u16
  rt_cedro_software_key :: bytes
  rt_cedro_username :: bytes
  rt_cedro_password :: bytes
  rt_so_rcvbuf :: usize
  rt_frame_channel_capacity :: usize
  rt_reader_cpu :: "usize option"
  rt_watchdog_cpu :: "usize option"
  rt_n_parser_workers :: usize
  rt_n_book_shards :: usize
  rt_trade_buffer_per_ticker :: usize
  rt_nats_url :: bytes
  rt_redis_url :: bytes
  rt_snapshot_ttl_seconds :: "u64 option"
  rt_raw_archive_dir :: bytes
  rt_raw_archive_zstd_level :: i32
  rt_database_url :: bytes
  rt_db_pool_size :: u32
  rt_wal_path :: bytes
  rt_trade_batch_size :: usize
  rt_trade_flush_interval_ms :: u64

definition log_json :: "environment \<Rightarrow> bool" where
  "log_json env = (case env_var env ''LOG_JSON'' of None \<Rightarrow> True | Some v \<Rightarrow> v \<noteq> ''0'')"

definition from_env :: "environment \<Rightarrow> string + RuntimeConfig" where
  "from_env env =
     bind_res (env_u16 env ''CEDRO_PORT'' 81) (\<lambda>cedro_port.
     bind_res (ok_or (env_var env ''CEDRO_USERNAME'') ''CEDRO_USERNAME missing'') (\<lambda>username.
     bind_res (ok_or (env_var env ''CEDRO_PASSWORD'') ''CEDRO_PASSWORD missing'') (\<lambda>password.
     bind_res (env_usize env ''SO_RCVBUF'' (128 * 1024 * 1024)) (\<lambda>so_rcvbuf.
     bind_res (env_usize env ''FRAME_CHANNEL_CAPACITY'' (2 * 1024 * 1024)) (\<lambda>frame_channel_capacity.
     bind_res (env_opt_usize env ''READER_CPU'') (\<lambda>reader_cpu.
     bind_res (env_opt_usize env ''WATCHDOG_CPU'') (\<lambda>watchdog_cpu.
     bind_res (env_usize env ''PARSER_WORKERS'' 8) (\<lambda>n_parser_workers.
     bind_res (env_usize env ''BOOK_SHARDS'' 8) (\<lambda>n_book_shards.
     bind_res (env_usize env ''TRADE_BUFFER_PER_TICKER'' 100) (\<lambda>trade_buffer_per_ticker.
     bind_res (env_opt_u64 env ''SNAPSHOT_TTL_SECONDS'') (\<lambda>snapshot_ttl_seconds.
     bind_res (env_i32 env ''RAW_ZSTD_LEVEL'' 3) (\<lambda>raw_archive_zstd_level.
     bind_res (ok_or (env_var env ''DATABASE_URL'') ''DATABASE_URL missing'') (\<lambda>database_url.
     bind_res (env_u32 env ''DB_POOL_SIZE'' 4) (\<lambda>db_pool_size.
     bind_res (env_usize env ''TRADE_BATCH_SIZE'' 5000) (\<lambda>trade_batch_size.
     bind_res (env_u64 env ''TRADE_FLUSH_MS'' 100) (\<lambda>trade_flush_interval_ms.
     Inr \<lparr>rt_log_filter = env_or env ''LOG_FILTER'' ''info'', rt_log_json = log_json env,
          rt_metrics_bind = env_or env ''METRICS_BIND'' ''0.0.0.0:9100'',
          rt_cedro_host = env_or env ''CEDRO_HOST'' ''127.0.0.1'', rt_cedro_port = cedro_port,
          rt_cedro_software_key = env_or env ''CEDRO_SOFTWARE_KEY'' [], rt_cedro_username = username,
          rt_cedro_password = password, rt_so_rcvbuf = so_rcvbuf,
          rt_frame_channel_capacity = frame_channel_capacity, rt_reader_cpu = reader_cpu,
          rt_watchdog_cpu = watchdog_cpu, rt_n_parser_workers = n_parser_workers,
          rt_n_book_shards = n_book_shards, rt_trade_buffer_per_ticker = trade_buffer_per_ticker,
          rt_nats_url = env_or env ''NATS_URL'' ''nats://127.0.0.1:4222'',
          rt_redis_url = env_or env ''REDIS_URL'' ''redis://127.0.0.1/'',
          rt_snapshot_ttl_seconds = snapshot_ttl_seconds,
          rt_raw_archive_dir = env_or env ''RAW_ARCHIVE_DIR'' ''/var/data/raw'',
          rt_raw_archive_zstd_level = raw_archive_zstd_level, rt_database_url = database_url,
          rt_db_pool_size = db_pool_size, rt_wal_path = env_or env ''WAL_PATH'' ''/var/data/trades.wal'',
          rt_trade_batch_size = trade_batch_size, rt_trade_flush_interval_ms = trade_flush_interval_ms\<rparr>))))))))))))))))"

text \<open>The literals \<open>0.20\<close> and \<open>0.40\<close> of \<open>main\<close> by their bit patterns, as in the client's defaults.\<close>

definition cedro_cfg :: "RuntimeConfig \<Rightarrow> ConnectionConfig" where
  "cedro_cfg cfg =
     \<lparr>cc_host = rt_cedro_host cfg, cc_port = rt_cedro_port cfg, cc_software_key = rt_cedro_software_key cfg,
      cc_username = rt_cedro_username cfg, cc_password = rt_cedro_password cfg, cc_so_rcvbuf = rt_so_rcvbuf cfg,
      cc_frame_channel_capacity = rt_frame_channel_capacity cfg, cc_handshake_timeout = 10 * 1000,
      cc_reader_cpu_affinity = rt_reader_cpu cfg, cc_watchdog_cpu_affinity = rt_watchdog_cpu cfg,
      cc_watchdog_interval = 100, cc_backpressure_warn_ratio = 0x3FC999999999999A,
      cc_backpressure_panic_ratio = 0x3FD999999999999A\<rparr>"

definition worker_count :: "environment \<Rightarrow> usize" where
  "worker_count env =
     (case Option.bind (env_var env ''PARSER_WORKERS'') (parse_unsigned 64) of Some n \<Rightarrow> n | None \<Rightarrow> 8)"

section \<open>The API server's configuration\<close>

definition parse_tokens :: "environment \<Rightarrow> bytes set" where
  "parse_tokens env =
     set (filter (\<lambda>s. s \<noteq> []) (map trim (split_on (CHR '','') (env_or env ''API_TOKENS'' []))))"

definition parse_cors_origins :: "environment \<Rightarrow> bytes list" where
  "parse_cors_origins env =
     filter (\<lambda>s. s \<noteq> []) (map trim (split_on (CHR '','') (env_or env ''API_CORS_ORIGINS'' [])))"

definition api_config :: "environment \<Rightarrow> string + ApiConfig" where
  "api_config env =
     bind_res (ok_or (env_var env ''REDIS_URL'') ''REDIS_URL missing'') (\<lambda>redis_url.
     Inr \<lparr>ap_redis_url = redis_url, ap_nats_url = env_or env ''NATS_URL'' ''nats://127.0.0.1:4222'',
          ap_valid_tokens = parse_tokens env, ap_book_universe = None,
          ap_rate_limit_per_second =
            Option.bind (env_var env ''API_RATE_LIMIT'') (\<lambda>s. map_option word_of_nat (parse_unsigned 32 s)),
          ap_etag_cache_ttl = 5 * 1000, ap_cors_allowed_origins = parse_cors_origins env\<rparr>)"

section \<open>Lemmas\<close>

text \<open>An API server started without \<open>API_TOKENS\<close> is closed to everybody: the empty list of tokens means no
  access, not open access.\<close>

lemma no_tokens_no_access:
  assumes "api_config env = Inr cfg" and "env ''API_TOKENS'' = None"
  shows "\<exists>e. require_token to_str headers cfg = Inl e \<and> status e = 401"
proof -
  have "trim [] = []"
    by (simp add: trim_def strip_leading.simps [of _ "[]"] white_space_def has_prefix_def)
  then have "ap_valid_tokens cfg = {}"
    using assms by (auto simp: api_config_def bind_res_Inr_iff parse_tokens_def env_or_def env_var_def)
  then have "require_token to_str headers cfg \<noteq> Inr token" for token by (simp add: require_token_iff)
  then show ?thesis by (metis require_token_error sum.exhaust)
qed

definition well_set :: "environment \<Rightarrow> (bytes \<Rightarrow> bool) \<Rightarrow> bytes \<Rightarrow> bool" where
  "well_set env ok key = (case env_var env key of Some v \<Rightarrow> ok v | None \<Rightarrow> True)"

lemma env_parse_ok: "(\<exists>x. env_parse env parse key d = Inr x) \<longleftrightarrow> well_set env (\<lambda>v. parse v \<noteq> None) key"
  by (auto simp: env_parse_def well_set_def ok_or_def split: option.split)

lemma bind_res_ok: "(\<exists>y. bind_res r f = Inr y) \<longleftrightarrow> (\<exists>x. r = Inr x \<and> (\<exists>y. f x = Inr y))"
  by (auto simp: bind_res_Inr_iff)

text \<open>The numeric variables and the widths of their values.\<close>

definition unsigned_vars :: "(bytes \<times> nat) list" where
  "unsigned_vars = [(''CEDRO_PORT'', 16), (''SO_RCVBUF'', 64), (''FRAME_CHANNEL_CAPACITY'', 64), (''READER_CPU'', 64),
     (''WATCHDOG_CPU'', 64), (''PARSER_WORKERS'', 64), (''BOOK_SHARDS'', 64), (''TRADE_BUFFER_PER_TICKER'', 64),
     (''SNAPSHOT_TTL_SECONDS'', 64), (''DB_POOL_SIZE'', 32), (''TRADE_BATCH_SIZE'', 64), (''TRADE_FLUSH_MS'', 64)]"

definition required_vars :: "bytes list" where
  "required_vars = [''CEDRO_USERNAME'', ''CEDRO_PASSWORD'', ''DATABASE_URL'']"

lemma env_numbers_ok:
  "(\<exists>x. env_u16 env k d = Inr x) \<longleftrightarrow> well_set env (\<lambda>v. parse_unsigned 16 v \<noteq> None) k"
  "(\<exists>x. env_u32 env k e = Inr x) \<longleftrightarrow> well_set env (\<lambda>v. parse_unsigned 32 v \<noteq> None) k"
  "(\<exists>x. env_u64 env k f = Inr x) \<longleftrightarrow> well_set env (\<lambda>v. parse_unsigned 64 v \<noteq> None) k"
  "(\<exists>x. env_i32 env k g = Inr x) \<longleftrightarrow> well_set env (\<lambda>v. parse_signed 32 v \<noteq> None) k"
  "(\<exists>x. env_usize env k h = Inr x) \<longleftrightarrow> well_set env (\<lambda>v. parse_unsigned 64 v \<noteq> None) k"
  "(\<exists>x. env_opt_usize env k = Inr x) \<longleftrightarrow> well_set env (\<lambda>v. parse_unsigned 64 v \<noteq> None) k"
  "(\<exists>x. env_opt_u64 env k = Inr x) \<longleftrightarrow> well_set env (\<lambda>v. parse_unsigned 64 v \<noteq> None) k"
  by (simp_all add: env_u16_def env_u32_def env_u64_def env_i32_def env_usize_def env_opt_usize_def
      env_opt_u64_def env_parse_ok)

lemma ok_or_ok: "(\<exists>x. ok_or v e = Inr x) \<longleftrightarrow> v \<noteq> None"
  by (cases v) simp_all

lemma ex_const: "(\<exists>x. A x \<and> B) \<longleftrightarrow> (\<exists>x. A x) \<and> B"
  by blast

section \<open>Writing a configuration down\<close>

text \<open>The environment that spells a configuration out, every variable set except the two cores and the time to live where there
  is none.\<close>

definition show_int :: "int \<Rightarrow> bytes" where
  "show_int i = (if i < 0 then CHR ''-'' # show_nat (nat (- i)) else show_nat (nat i))"

definition environment_of :: "RuntimeConfig \<Rightarrow> environment" where
  "environment_of cfg = [
     ''LOG_FILTER'' \<mapsto> rt_log_filter cfg,
     ''LOG_JSON'' \<mapsto> (if rt_log_json cfg then ''1'' else ''0''),
     ''METRICS_BIND'' \<mapsto> rt_metrics_bind cfg,
     ''CEDRO_HOST'' \<mapsto> rt_cedro_host cfg,
     ''CEDRO_PORT'' \<mapsto> show_nat (unat (rt_cedro_port cfg)),
     ''CEDRO_SOFTWARE_KEY'' \<mapsto> rt_cedro_software_key cfg,
     ''CEDRO_USERNAME'' \<mapsto> rt_cedro_username cfg,
     ''CEDRO_PASSWORD'' \<mapsto> rt_cedro_password cfg,
     ''SO_RCVBUF'' \<mapsto> show_nat (rt_so_rcvbuf cfg),
     ''FRAME_CHANNEL_CAPACITY'' \<mapsto> show_nat (rt_frame_channel_capacity cfg),
     ''PARSER_WORKERS'' \<mapsto> show_nat (rt_n_parser_workers cfg),
     ''BOOK_SHARDS'' \<mapsto> show_nat (rt_n_book_shards cfg),
     ''TRADE_BUFFER_PER_TICKER'' \<mapsto> show_nat (rt_trade_buffer_per_ticker cfg),
     ''NATS_URL'' \<mapsto> rt_nats_url cfg,
     ''REDIS_URL'' \<mapsto> rt_redis_url cfg,
     ''RAW_ARCHIVE_DIR'' \<mapsto> rt_raw_archive_dir cfg,
     ''RAW_ZSTD_LEVEL'' \<mapsto> show_int (sint (rt_raw_archive_zstd_level cfg)),
     ''DATABASE_URL'' \<mapsto> rt_database_url cfg,
     ''DB_POOL_SIZE'' \<mapsto> show_nat (unat (rt_db_pool_size cfg)),
     ''WAL_PATH'' \<mapsto> rt_wal_path cfg,
     ''TRADE_BATCH_SIZE'' \<mapsto> show_nat (rt_trade_batch_size cfg),
     ''TRADE_FLUSH_MS'' \<mapsto> show_nat (unat (rt_trade_flush_interval_ms cfg))]
     (''READER_CPU'' := map_option show_nat (rt_reader_cpu cfg),
      ''WATCHDOG_CPU'' := map_option show_nat (rt_watchdog_cpu cfg),
      ''SNAPSHOT_TTL_SECONDS'' := map_option (\<lambda>n. show_nat (unat n)) (rt_snapshot_ttl_seconds cfg))"

text \<open>The configurations an environment can spell out: texts are UTF-8, sizes fit 64 bits.\<close>

definition writable :: "RuntimeConfig \<Rightarrow> bool" where
  "writable cfg \<longleftrightarrow>
     list_all utf8_valid [rt_log_filter cfg, rt_metrics_bind cfg, rt_cedro_host cfg, rt_cedro_software_key cfg, rt_cedro_username cfg,
       rt_cedro_password cfg, rt_nats_url cfg, rt_redis_url cfg, rt_raw_archive_dir cfg, rt_database_url cfg, rt_wal_path cfg] \<and>
     list_all (\<lambda>n. n < 2 ^ 64) [rt_so_rcvbuf cfg, rt_frame_channel_capacity cfg, rt_n_parser_workers cfg, rt_n_book_shards cfg,
       rt_trade_buffer_per_ticker cfg, rt_trade_batch_size cfg] \<and>
     pred_option (\<lambda>n. n < 2 ^ 64) (rt_reader_cpu cfg) \<and> pred_option (\<lambda>n. n < 2 ^ 64) (rt_watchdog_cpu cfg)"

lemma show_nat_utf8 [simp]: "utf8_valid (show_nat n)"
proof (rule utf8_valid_ascii)
  show "is_ascii (show_nat n)"
    using show_nat_digits [of n] by (auto simp: list_all_iff is_digit_def is_ascii_def byte_in_def simp del: show_nat_digits)
qed

lemma show_nat_hd: "\<exists>c r. show_nat n = c # r \<and> c \<noteq> CHR ''+'' \<and> c \<noteq> CHR ''-''"
  using show_nat_digits [of n] by (cases "show_nat n") (auto simp: is_digit_def byte_in_def simp del: show_nat_digits)

lemma parse_show_nat: "n < 2 ^ w \<Longrightarrow> parse_unsigned w (show_nat n) = Some n"
proof -
  assume "n < 2 ^ w"
  moreover have "strip_plus (show_nat n) = show_nat n" using show_nat_hd [of n] by (auto simp: strip_plus_def)
  ultimately show ?thesis by (simp add: parse_unsigned_def Let_def)
qed

lemma show_int_utf8 [simp]: "utf8_valid (show_int i)"
proof -
  have "is_ascii (show_nat n)" for n
    using show_nat_digits [of n] by (auto simp: list_all_iff is_digit_def is_ascii_def byte_in_def simp del: show_nat_digits)
  then have "is_ascii (show_int i)" by (auto simp: show_int_def is_ascii_def byte_in_def)
  then show ?thesis by (rule utf8_valid_ascii)
qed

lemma parse_show_int:
  assumes "- (2 ^ 31) \<le> i" and "i < 2 ^ 31"
  shows "parse_signed 32 (show_int i) = Some i"
proof (cases "i < 0")
  case True
  then have "dec_value (show_nat (nat (- i))) \<le> 2 ^ 31" using assms(1) by simp
  with True show ?thesis by (simp add: show_int_def parse_signed_def)
next
  case False
  obtain c r where c: "show_nat (nat i) = c # r" "c \<noteq> CHR ''-''" using show_nat_hd by blast
  have "parse_unsigned 31 (show_nat (nat i)) = Some (nat i)" by (rule parse_show_nat) (use assms(2) False in simp)
  with False c show ?thesis by (simp add: show_int_def parse_signed_def)
qed

lemma env_var_set: "\<lbrakk>env key = Some v; utf8_valid v\<rbrakk> \<Longrightarrow> env_var env key = Some v"
  by (simp add: env_var_def)

lemma env_var_unset: "env key = None \<Longrightarrow> env_var env key = None"
  by (simp add: env_var_def)

lemma word_bounds:
  "unat (x16 :: u16) < 2 ^ 16" "unat (x32 :: u32) < 2 ^ 32" "unat (x64 :: u64) < 2 ^ 64"
  "- (2 ^ 31) \<le> sint (y :: i32)" "sint y < 2 ^ 31"
  using unsigned_less [of x16, where 'a = nat] unsigned_less [of x32, where 'a = nat] unsigned_less [of x64, where 'a = nat]
    sint_greater_eq [of y] sint_less [of y] by simp_all

lemma env_numbers_set:
  "env k = Some (show_nat (unat x16)) \<Longrightarrow> env_u16 env k d16 = Inr x16"
  "env k = Some (show_nat (unat x32)) \<Longrightarrow> env_u32 env k d32 = Inr x32"
  "env k = Some (show_nat (unat x64)) \<Longrightarrow> env_u64 env k d64 = Inr x64"
  "env k = Some (show_int (sint y)) \<Longrightarrow> env_i32 env k dy = Inr y"
  "\<lbrakk>env k = Some (show_nat n); n < 2 ^ 64\<rbrakk> \<Longrightarrow> env_usize env k dn = Inr n"
  by (simp_all add: env_u16_def env_u32_def env_u64_def env_i32_def env_usize_def env_parse_def env_var_def ok_or_def
      parse_show_nat [OF word_bounds(1)] parse_show_nat [OF word_bounds(2)] parse_show_nat [OF word_bounds(3)]
      parse_show_int [OF word_bounds(4,5)] parse_show_nat)

lemma env_options_set:
  "\<lbrakk>env k = map_option show_nat o1; pred_option (\<lambda>n. n < 2 ^ 64) o1\<rbrakk> \<Longrightarrow> env_opt_usize env k = Inr o1"
  "env k = map_option (\<lambda>n. show_nat (unat n)) o2 \<Longrightarrow> env_opt_u64 env k = Inr o2"
  by (cases o1; simp add: env_opt_usize_def env_parse_def env_var_def ok_or_def parse_show_nat)
     (cases o2; simp add: env_opt_u64_def env_parse_def env_var_def ok_or_def parse_show_nat [OF word_bounds(3)])

text \<open>Looking the variables up.\<close>

lemma environment_of_texts:
  assumes "writable cfg"
  shows "env_or (environment_of cfg) ''LOG_FILTER'' d = rt_log_filter cfg" "log_json (environment_of cfg) = rt_log_json cfg"
    "env_or (environment_of cfg) ''METRICS_BIND'' d = rt_metrics_bind cfg" "env_or (environment_of cfg) ''CEDRO_HOST'' d = rt_cedro_host cfg"
    "env_or (environment_of cfg) ''CEDRO_SOFTWARE_KEY'' d = rt_cedro_software_key cfg"
    "env_var (environment_of cfg) ''CEDRO_USERNAME'' = Some (rt_cedro_username cfg)"
    "env_var (environment_of cfg) ''CEDRO_PASSWORD'' = Some (rt_cedro_password cfg)"
    "env_or (environment_of cfg) ''NATS_URL'' d = rt_nats_url cfg" "env_or (environment_of cfg) ''REDIS_URL'' d = rt_redis_url cfg"
    "env_or (environment_of cfg) ''RAW_ARCHIVE_DIR'' d = rt_raw_archive_dir cfg"
    "env_var (environment_of cfg) ''DATABASE_URL'' = Some (rt_database_url cfg)"
    "env_or (environment_of cfg) ''WAL_PATH'' d = rt_wal_path cfg"
  using assms
  by (simp_all add: environment_of_def env_or_def env_var_def log_json_def writable_def utf8_valid_ascii is_ascii_def byte_in_def)

lemma environment_of_numbers:
  assumes "writable cfg"
  shows "env_u16 (environment_of cfg) ''CEDRO_PORT'' d16 = Inr (rt_cedro_port cfg)"
    "env_usize (environment_of cfg) ''SO_RCVBUF'' d = Inr (rt_so_rcvbuf cfg)"
    "env_usize (environment_of cfg) ''FRAME_CHANNEL_CAPACITY'' d = Inr (rt_frame_channel_capacity cfg)"
    "env_opt_usize (environment_of cfg) ''READER_CPU'' = Inr (rt_reader_cpu cfg)"
    "env_opt_usize (environment_of cfg) ''WATCHDOG_CPU'' = Inr (rt_watchdog_cpu cfg)"
    "env_usize (environment_of cfg) ''PARSER_WORKERS'' d = Inr (rt_n_parser_workers cfg)"
    "env_usize (environment_of cfg) ''BOOK_SHARDS'' d = Inr (rt_n_book_shards cfg)"
    "env_usize (environment_of cfg) ''TRADE_BUFFER_PER_TICKER'' d = Inr (rt_trade_buffer_per_ticker cfg)"
    "env_opt_u64 (environment_of cfg) ''SNAPSHOT_TTL_SECONDS'' = Inr (rt_snapshot_ttl_seconds cfg)"
    "env_i32 (environment_of cfg) ''RAW_ZSTD_LEVEL'' di = Inr (rt_raw_archive_zstd_level cfg)"
    "env_u32 (environment_of cfg) ''DB_POOL_SIZE'' d32 = Inr (rt_db_pool_size cfg)"
    "env_usize (environment_of cfg) ''TRADE_BATCH_SIZE'' d = Inr (rt_trade_batch_size cfg)"
    "env_u64 (environment_of cfg) ''TRADE_FLUSH_MS'' d64 = Inr (rt_trade_flush_interval_ms cfg)"
  by (rule env_numbers_set env_options_set; use assms in \<open>simp add: environment_of_def writable_def\<close>)+

lemma environment_of_read:
  assumes "writable cfg"
  shows "from_env (environment_of cfg) = Inr cfg"
  by (simp add: from_env_def environment_of_texts [OF assms] environment_of_numbers [OF assms])

text \<open>An empty variable is a number for none of them, in particular not for the time to live.\<close>

lemma empty_ttl_refused: "env ''SNAPSHOT_TTL_SECONDS'' = Some [] \<Longrightarrow> from_env env \<noteq> Inr cfg"
  using env_numbers_ok(7) [of env "''SNAPSHOT_TTL_SECONDS''"]
  by (auto simp: from_env_def bind_res_Inr_iff well_set_def env_var_def parse_unsigned_def strip_plus_def)

section \<open>Properties\<close>


definition sample_config :: RuntimeConfig where
  "sample_config =
     \<lparr>rt_log_filter = ''debug'', rt_log_json = False, rt_metrics_bind = ''127.0.0.1:9100'', rt_cedro_host = ''10.0.0.7'', rt_cedro_port = 82,
      rt_cedro_software_key = ''k'', rt_cedro_username = ''u'', rt_cedro_password = ''p'', rt_so_rcvbuf = 65536,
      rt_frame_channel_capacity = 1024, rt_reader_cpu = Some 2, rt_watchdog_cpu = None, rt_n_parser_workers = 1, rt_n_book_shards = 4,
      rt_trade_buffer_per_ticker = 50, rt_nats_url = ''nats://n:4222'', rt_redis_url = ''redis://r/'', rt_snapshot_ttl_seconds = Some 30,
      rt_raw_archive_dir = ''/raw'', rt_raw_archive_zstd_level = - 1, rt_database_url = ''postgres://d'', rt_db_pool_size = 2,
      rt_wal_path = ''/wal'', rt_trade_batch_size = 10, rt_trade_flush_interval_ms = 200\<rparr>"


text \<open>The connection settings derived from a configuration are accepted exactly if the host is not empty, the receive buffer has at
  least 1 KiB and the channel a place.\<close>

lemma cedro_cfg_valid:
  "validate (cedro_cfg cfg) = Inr () \<longleftrightarrow>
     rt_cedro_host cfg \<noteq> [] \<and> 1024 \<le> rt_so_rcvbuf cfg \<and> 0 < rt_frame_channel_capacity cfg"
  using validate_exact [of "cedro_cfg cfg"]
  by (simp add: cedro_cfg_def f64_nan_def f64_rank_def inf_bits_def f64_one_def)

end
