(* ===== verification/Log_Io.thy ===== *)
theory Log_Io
  imports Trade_Writer
begin

text \<open>
  The log and the trade writer of \<^verbatim>\<open>crates/persistence/src\<close> when calls of the operating system fail. Every call
  takes the next outcome of a script (when the script is used up, calls succeed): success, or an error
  after some bytes were accepted, which matters for writes only. The operations are those of the
  theories of the log and of the writer with each \<open>?\<close> of the source spelled out; with a script of
  successes they are the same functions. A write that fails half-way leaves its first bytes
  in the file; the \<open>BufWriter\<close> then keeps the rest of its buffer.
\<close>

named_theorems io_defs \<open>operations of the log with failing calls\<close>

section \<open>Calls that may fail\<close>

datatype io_outcome = IoOk | IoErr nat string

type_synonym wal_io = "TradeWal \<times> io_outcome list"

type_synonym 'a wal_op = "wal_io \<Rightarrow> (PersistenceError + 'a) \<times> wal_io"

fun next_outcome :: "io_outcome list \<Rightarrow> io_outcome \<times> io_outcome list" where
  "next_outcome [] = (IoOk, [])"
| "next_outcome (r # os) = (r, os)"

definition io_bind :: "'a wal_op \<Rightarrow> ('a \<Rightarrow> 'b wal_op) \<Rightarrow> 'b wal_op" where
  "io_bind m f s = (case m s of (Inl e, t) \<Rightarrow> (Inl e, t) | (Inr x, t) \<Rightarrow> f x t)"

text \<open>A call whose failure changes nothing, and the effect of its success.\<close>

definition io_call :: "(TradeWal \<Rightarrow> TradeWal) \<Rightarrow> unit wal_op" where
  "io_call f = (\<lambda>(w, os). case next_outcome os of
     (IoOk, os1) \<Rightarrow> (Inr (), f w, os1) | (IoErr n e, os1) \<Rightarrow> (Inl (PX_Wal e), w, os1))"

section \<open>The log\<close>

definition flush_buf_io :: "unit wal_op" where
  [io_defs]: "flush_buf_io = (\<lambda>(w, os).
     if wal_buf w = [] then (Inr (), w, os)
     else case next_outcome os of
       (IoOk, os1) \<Rightarrow> (Inr (), buf_flush w, os1)
     | (IoErr n e, os1) \<Rightarrow>
         (Inl (PX_Wal e), w\<lparr>wal_file := wal_file w @ take n (wal_buf w), wal_buf := drop n (wal_buf w)\<rparr>, os1))"

definition file_write_io :: "bytes \<Rightarrow> unit wal_op" where
  [io_defs]: "file_write_io xs = (\<lambda>(w, os). case next_outcome os of
       (IoOk, os1) \<Rightarrow> (Inr (), w\<lparr>wal_file := wal_file w @ xs\<rparr>, os1)
     | (IoErr n e, os1) \<Rightarrow> (Inl (PX_Wal e), w\<lparr>wal_file := wal_file w @ take n xs\<rparr>, os1))"

definition write_all_io :: "bytes \<Rightarrow> unit wal_op" where
  [io_defs]: "write_all_io xs =
     io_bind (\<lambda>(w, os). if buf_capacity < length (wal_buf w) + length xs then flush_buf_io (w, os) else (Inr (), w, os)) (\<lambda>_.
       if buf_capacity \<le> length xs then file_write_io xs
       else (\<lambda>(w, os). (Inr (), w\<lparr>wal_buf := wal_buf w @ xs\<rparr>, os)))"

definition append_io :: "bytes \<Rightarrow> u64 wal_op" where
  [io_defs]: "append_io payload =
     (if 2 ^ 32 \<le> length payload then (\<lambda>s. (Inl (PX_InvalidTrade ''payload larger than 4 GiB rejected''), s))
      else
        let len = word_of_nat (length payload) :: u32;
            crc = compute_crc32 len payload;
            written = 4 + word_of_nat (length payload) + 4
        in io_bind (write_all_io (to_le 4 (unat len))) (\<lambda>_.
           io_bind (write_all_io payload) (\<lambda>_.
           io_bind (write_all_io (to_le 4 (unat crc))) (\<lambda>_. (\<lambda>(w, os).
             let w1 = w\<lparr>wal_bytes_written := wal_bytes_written w + written\<rparr>
             in (Inr (wal_bytes_written w1), w1, os))))))"

definition sync_io :: "unit wal_op" where
  [io_defs]: "sync_io = io_bind flush_buf_io (\<lambda>_. io_call (\<lambda>w. w\<lparr>wal_synced := length (wal_file w)\<rparr>))"

text \<open>\<open>replay\<close>: flush, open a second handle, rewind it, read it to the end.\<close>

definition replay_io :: "bytes list wal_op" where
  [io_defs]: "replay_io =
     io_bind flush_buf_io (\<lambda>_. io_bind (io_call (\<lambda>w. w)) (\<lambda>_. io_bind (io_call (\<lambda>w. w)) (\<lambda>_.
     io_bind (io_call (\<lambda>w. w)) (\<lambda>_. (\<lambda>(w, os). (Inr (replay_loop (wal_file w) 0 []), w, os))))))"

definition truncate_io :: "unit wal_op" where
  [io_defs]: "truncate_io =
     io_bind flush_buf_io (\<lambda>_. io_bind (io_call (\<lambda>w. w\<lparr>wal_file := [], wal_synced := 0\<rparr>)) (\<lambda>_.
     io_bind (io_call (\<lambda>w. w)) (\<lambda>_. (\<lambda>(w, os). (Inr (), w\<lparr>wal_bytes_written := 0\<rparr>, os)))))"

text \<open>\<open>open\<close>: the directories, the file, its metadata; the file holds \<open>contents\<close>.\<close>

definition open_io :: "bytes \<Rightarrow> io_outcome list \<Rightarrow> (PersistenceError + TradeWal) \<times> io_outcome list" where
  "open_io contents os =
     (case io_bind (io_call (\<lambda>w. w)) (\<lambda>_. io_bind (io_call (\<lambda>w. w)) (\<lambda>_. io_call (\<lambda>w. w))) (wal_open contents, os) of
        (Inl e, w, os1) \<Rightarrow> (Inl e, os1) | (Inr _, w, os1) \<Rightarrow> (Inr w, os1))"

section \<open>The writer\<close>

definition on_wal :: "'a wal_op \<Rightarrow> ('dt, 'db) TradeWriter \<times> io_outcome list \<Rightarrow>
    (PersistenceError + 'a) \<times> ('dt, 'db) TradeWriter \<times> io_outcome list" where
  "on_wal m = (\<lambda>(w, os). case m (tw_wal w, os) of (r, wal, os1) \<Rightarrow> (r, w\<lparr>tw_wal := wal\<rparr>, os1))"

definition flush_drained_io :: "('dt, 'dec, 'db) writer_env \<Rightarrow> 'dt StagedTrade list \<Rightarrow>
    ('dt, 'db) TradeWriter \<times> io_outcome list \<Rightarrow> (PersistenceError + unit) \<times> ('dt, 'db) TradeWriter \<times> io_outcome list" where
  "flush_drained_io env batch s =
     (if batch = [] then (Inr (), s)
      else case on_wal sync_io s of
        (Inl e, s1) \<Rightarrow> (Inl e, s1)
      | (Inr _, w1, os1) \<Rightarrow>
          (case we_exec env (map (trade_row (we_decimal env)) batch) (tw_pool w1) of
             (Inl e, db) \<Rightarrow> (Inl (PX_Database e), w1\<lparr>tw_pool := db\<rparr>, os1)
           | (Inr n, db) \<Rightarrow> on_wal truncate_io (w1\<lparr>tw_pool := db\<rparr>, os1)))"

definition stage_io :: "('dt, 'dec, 'db) writer_env \<Rightarrow> 'dt StagedTrade \<Rightarrow>
    ('dt, 'db) TradeWriter \<times> io_outcome list \<Rightarrow> (PersistenceError + unit) \<times> ('dt, 'db) TradeWriter \<times> io_outcome list" where
  "stage_io env trade s =
     (case on_wal (append_io (encode_wal (we_micros env) trade)) s of
        (Inl e, s1) \<Rightarrow> (Inl e, s1)
      | (Inr off, w, os) \<Rightarrow>
          let buf = tw_buffer w @ [trade]
          in if tw_batch_size w \<le> length buf then flush_drained_io env buf (w\<lparr>tw_buffer := []\<rparr>, os)
             else (Inr (), w\<lparr>tw_buffer := buf\<rparr>, os))"

definition flush_io :: "('dt, 'dec, 'db) writer_env \<Rightarrow>
    ('dt, 'db) TradeWriter \<times> io_outcome list \<Rightarrow> (PersistenceError + usize) \<times> ('dt, 'db) TradeWriter \<times> io_outcome list" where
  "flush_io env = (\<lambda>(w, os).
     let drained = tw_buffer w; w1 = w\<lparr>tw_buffer := []\<rparr>; n = length drained
     in if n = 0 then (Inr 0, w1, os)
        else case flush_drained_io env drained (w1, os) of
            (Inl e, s2) \<Rightarrow> (Inl e, s2)
          | (Inr _, s2) \<Rightarrow> (Inr n, s2))"

definition recover_io :: "('dt, 'dec, 'db) writer_env \<Rightarrow>
    ('dt, 'db) TradeWriter \<times> io_outcome list \<Rightarrow> (PersistenceError + usize) \<times> ('dt, 'db) TradeWriter \<times> io_outcome list" where
  "recover_io env s =
     (case on_wal replay_io s of
        (Inl e, s1) \<Rightarrow> (Inl e, s1)
      | (Inr records, w, os) \<Rightarrow>
          let trades = List.map_filter (decode_wal (we_from_micros env)) records
          in (Inr (length trades), w\<lparr>tw_buffer := tw_buffer w @ trades\<rparr>, os))"

text \<open>\<open>connect\<close>, with the outcome of connecting the pool.\<close>

definition connect_io :: "string + 'db \<Rightarrow> bytes \<Rightarrow> usize \<Rightarrow> io_outcome list \<Rightarrow>
    (PersistenceError + ('dt, 'db) TradeWriter) \<times> io_outcome list" where
  "connect_io pool contents batch_size os =
     (case pool of
        Inl e \<Rightarrow> (Inl (PX_Database e), os)
      | Inr db \<Rightarrow>
          (case open_io contents os of
             (Inl e, os1) \<Rightarrow> (Inl e, os1) | (Inr wal, os1) \<Rightarrow> (Inr (from_parts db wal batch_size), os1)))"

section \<open>Without failures\<close>

definition no_failure :: "io_outcome list \<Rightarrow> bool" where
  "no_failure os \<longleftrightarrow> list_all (\<lambda>r. r = IoOk) os"

lemma next_no_failure: "no_failure os \<Longrightarrow> \<exists>os'. next_outcome os = (IoOk, os') \<and> no_failure os'"
  by (cases os) (auto simp: no_failure_def)

text \<open>An operation agrees with a function of the log that cannot fail.\<close>

definition pure_on :: "'a wal_op \<Rightarrow> (TradeWal \<Rightarrow> (PersistenceError + 'a) \<times> TradeWal) \<Rightarrow> bool" where
  "pure_on m f \<longleftrightarrow> (\<forall>w os. no_failure os \<longrightarrow>
     (\<exists>os'. no_failure os' \<and> m (w, os) = (fst (f w), snd (f w), os')))"

lemma pure_onD:
  assumes "pure_on m f" and "no_failure os"
  obtains os' where "no_failure os'" and "m (w, os) = (fst (f w), snd (f w), os')"
  using assms unfolding pure_on_def by blast

lemma pure_onI:
  assumes "\<And>w os os'. no_failure os' \<Longrightarrow> no_failure os \<Longrightarrow> next_outcome os = (IoOk, os') \<Longrightarrow>
      m (w, os) = (fst (f w), snd (f w), os) \<or> m (w, os) = (fst (f w), snd (f w), os')"
  shows "pure_on m f"
  unfolding pure_on_def using assms next_no_failure by metis

lemma pure_call: "pure_on (io_call f) (\<lambda>w. (Inr (), f w))"
  by (rule pure_onI) (simp add: io_call_def)

lemma pure_return: "pure_on (\<lambda>(w, os). (Inr (a w), f w, os)) (\<lambda>w. (Inr (a w), f w))"
  by (rule pure_onI) simp

lemma pure_flush_buf: "pure_on flush_buf_io (\<lambda>w. (Inr (), buf_flush w))"
  by (rule pure_onI) (simp add: flush_buf_io_def buf_flush_def)

lemma pure_file_write: "pure_on (file_write_io xs) (\<lambda>w. (Inr (), w\<lparr>wal_file := wal_file w @ xs\<rparr>))"
  by (rule pure_onI) (simp add: file_write_io_def)

lemma pure_if: "(\<And>w. b w \<Longrightarrow> pure_on m f) \<Longrightarrow>
    pure_on (\<lambda>(w, os). if b w then m (w, os) else (Inr (), w, os)) (\<lambda>w. if b w then f w else (Inr (), w))"
  unfolding pure_on_def by auto

lemma pure_bind:
  assumes "pure_on m f" and "\<And>x. pure_on (g x) (h x)"
  shows "pure_on (io_bind m g) (\<lambda>w. case f w of (Inl e, v) \<Rightarrow> (Inl e, v) | (Inr x, v) \<Rightarrow> h x v)"
  unfolding pure_on_def
proof (intro allI impI)
  fix w os assume ok: "no_failure os"
  obtain os1 where os1: "no_failure os1" "m (w, os) = (fst (f w), snd (f w), os1)"
    using pure_onD [OF assms(1) ok] .
  show "\<exists>os'. no_failure os' \<and> io_bind m g (w, os) =
      (fst (case f w of (Inl e, v) \<Rightarrow> (Inl e, v) | (Inr x, v) \<Rightarrow> h x v),
       snd (case f w of (Inl e, v) \<Rightarrow> (Inl e, v) | (Inr x, v) \<Rightarrow> h x v), os')"
  proof (cases "f w")
    case (Pair r v)
    show ?thesis
    proof (cases r)
      case (Inl e)
      with os1 Pair show ?thesis by (auto simp: io_bind_def)
    next
      case (Inr x)
      obtain os2 where "no_failure os2" "g x (v, os1) = (fst (h x v), snd (h x v), os2)"
        using pure_onD [OF assms(2) os1(1)] .
      with os1 Pair Inr show ?thesis by (auto simp: io_bind_def)
    qed
  qed
qed

lemma pure_cong: "pure_on m f \<Longrightarrow> (\<And>w. f w = g w) \<Longrightarrow> pure_on m g"
  unfolding pure_on_def by simp

lemma pure_write_all: "pure_on (write_all_io xs) (\<lambda>w. (Inr (), write_all xs w))"
proof -
  have "pure_on (if buf_capacity \<le> length xs then file_write_io xs
       else (\<lambda>(w, os). (Inr (), w\<lparr>wal_buf := wal_buf w @ xs\<rparr>, os)))
     (\<lambda>w. (Inr (), if buf_capacity \<le> length xs then w\<lparr>wal_file := wal_file w @ xs\<rparr> else w\<lparr>wal_buf := wal_buf w @ xs\<rparr>))"
    using pure_file_write pure_return [of "\<lambda>w. ()" "\<lambda>w. w\<lparr>wal_buf := wal_buf w @ xs\<rparr>"] by simp
  from pure_bind [OF pure_if [OF pure_flush_buf, of "\<lambda>w. buf_capacity < length (wal_buf w) + length xs"] this]
  show ?thesis
    unfolding write_all_io_def by (rule pure_cong) (simp add: write_all_def Let_def)
qed

lemma pure_append: "pure_on (append_io p) (wal_append p)"
proof (cases "2 ^ 32 \<le> length p")
  case True
  then show ?thesis by (intro pure_onI) (simp add: append_io_def wal_append_def)
next
  case False
  let ?n = "4 + word_of_nat (length p) + 4 :: u64"
  have fin: "pure_on (\<lambda>(w, os). let w1 = w\<lparr>wal_bytes_written := wal_bytes_written w + ?n\<rparr>
        in (Inr (wal_bytes_written w1), w1, os))
      (\<lambda>w. (Inr (wal_bytes_written w + ?n), w\<lparr>wal_bytes_written := wal_bytes_written w + ?n\<rparr>))"
    by (rule pure_onI) (simp add: Let_def)
  have eq: "append_io p = io_bind (write_all_io (to_le 4 (unat (word_of_nat (length p) :: u32)))) (\<lambda>_.
      io_bind (write_all_io p) (\<lambda>_.
      io_bind (write_all_io (to_le 4 (unat (compute_crc32 (word_of_nat (length p)) p)))) (\<lambda>_.
        (\<lambda>(w, os). let w1 = w\<lparr>wal_bytes_written := wal_bytes_written w + ?n\<rparr>
          in (Inr (wal_bytes_written w1), w1, os)))))"
    using False by (simp add: append_io_def Let_def)
  show ?thesis
    unfolding eq
    by (rule pure_cong, rule pure_bind [OF pure_write_all pure_bind [OF pure_write_all pure_bind [OF pure_write_all fin]]])
       (use False in \<open>simp add: wal_append_def Let_def del: to_le.simps\<close>)
qed

lemma pure_sync: "pure_on sync_io (\<lambda>w. (Inr (), wal_sync w))"
  unfolding sync_io_def
  by (rule pure_cong, rule pure_bind [OF pure_flush_buf pure_call]) (simp add: wal_sync_def Let_def)

lemma pure_replay: "pure_on replay_io (\<lambda>w. (Inr (fst (wal_replay w)), snd (wal_replay w)))"
  unfolding replay_io_def
  by (rule pure_cong, rule pure_bind [OF pure_flush_buf pure_bind [OF pure_call pure_bind [OF pure_call
        pure_bind [OF pure_call pure_return]]]]) (simp add: wal_replay_def Let_def)

lemma pure_truncate: "pure_on truncate_io (\<lambda>w. (Inr (), wal_truncate w))"
  unfolding truncate_io_def
  by (rule pure_cong, rule pure_bind [OF pure_flush_buf pure_bind [OF pure_call pure_bind [OF pure_call
        pure_return]]]) (simp add: wal_truncate_def)

text \<open>The writer's operations, through those of the log.\<close>

lemma on_wal_pure:
  assumes "pure_on m f" and "no_failure os"
  shows "\<exists>os'. no_failure os' \<and> on_wal m (w, os) = (fst (f (tw_wal w)), w\<lparr>tw_wal := snd (f (tw_wal w))\<rparr>, os')"
proof -
  obtain os' where "no_failure os'" "m (tw_wal w, os) = (fst (f (tw_wal w)), snd (f (tw_wal w)), os')"
    using pure_onD [OF assms] .
  then show ?thesis by (auto simp: on_wal_def)
qed

lemma flush_drained_pure:
  assumes "no_failure os"
  shows "\<exists>os'. flush_drained_io env batch (w, os) =
           (fst (flush_drained env batch w), snd (flush_drained env batch w), os')"
proof (cases "batch = []")
  case False
  obtain os1 where os1: "no_failure os1" "on_wal sync_io (w, os) = (Inr (), w\<lparr>tw_wal := wal_sync (tw_wal w)\<rparr>, os1)"
    using on_wal_pure [OF pure_sync assms] by auto
  show ?thesis
  proof (cases "we_exec env (map (trade_row (we_decimal env)) batch) (tw_pool w)")
    case (Pair q db)
    with False os1 on_wal_pure [OF pure_truncate os1(1), of "w\<lparr>tw_wal := wal_sync (tw_wal w), tw_pool := db\<rparr>"] show ?thesis
      by (cases q) (auto simp: flush_drained_io_def flush_drained_def Let_def)
  qed
qed (simp add: flush_drained_io_def flush_drained_def)

lemma flush_pure:
  assumes "no_failure os"
  shows "\<exists>os'. flush_io env (w, os) = (fst (flush env w), snd (flush env w), os')"
proof -
  obtain os1 where "flush_drained_io env (tw_buffer w) (w\<lparr>tw_buffer := []\<rparr>, os) =
      (fst (flush_drained env (tw_buffer w) (w\<lparr>tw_buffer := []\<rparr>)), snd (flush_drained env (tw_buffer w) (w\<lparr>tw_buffer := []\<rparr>)), os1)"
    using flush_drained_pure [OF assms] by blast
  then show ?thesis
    by (cases "flush_drained env (tw_buffer w) (w\<lparr>tw_buffer := []\<rparr>)") (auto simp: flush_io_def flush_def Let_def split: sum.split)
qed

lemma stage_pure:
  assumes "no_failure os"
  shows "\<exists>os'. stage_io env t (w, os) = (fst (stage env t w), snd (stage env t w), os')"
proof -
  let ?a = "wal_append (encode_wal (we_micros env) t) (tw_wal w)"
  obtain os1 where os1: "no_failure os1"
    "on_wal (append_io (encode_wal (we_micros env) t)) (w, os) = (fst ?a, w\<lparr>tw_wal := snd ?a\<rparr>, os1)"
    using on_wal_pure [OF pure_append assms] by blast
  show ?thesis
  proof (cases ?a)
    case (Pair q wal)
    with os1 flush_drained_pure [OF os1(1), of env "tw_buffer w @ [t]" "w\<lparr>tw_wal := wal, tw_buffer := []\<rparr>"] show ?thesis
      by (cases q) (auto simp: stage_io_def stage_def stage_append_def stage_push_def Let_def)
  qed
qed

lemma recover_pure:
  assumes "no_failure os"
  shows "\<exists>os'. recover_io env (w, os) = (fst (recover_from_wal env w), snd (recover_from_wal env w), os')"
  using on_wal_pure [OF pure_replay assms, of w]
  by (cases "wal_replay (tw_wal w)") (auto simp: recover_io_def recover_from_wal_def Let_def)

lemma connect_pure:
  assumes "no_failure os"
  shows "\<exists>os'. connect_io (Inr db) contents n os = (Inr (writer_connect db contents n), os')"
proof -
  have "pure_on (io_bind (io_call (\<lambda>w. w)) (\<lambda>_. io_bind (io_call (\<lambda>w. w)) (\<lambda>_. io_call (\<lambda>w. w)))) (\<lambda>w. (Inr (), w))"
    by (rule pure_cong, rule pure_bind [OF pure_call pure_bind [OF pure_call pure_call]]) simp
  then obtain os' where "io_bind (io_call (\<lambda>w. w)) (\<lambda>_. io_bind (io_call (\<lambda>w. w)) (\<lambda>_. io_call (\<lambda>w. w))) (wal_open contents, os) =
      (Inr (), wal_open contents, os')"
    using pure_onD [OF _ assms, of _ "\<lambda>w. (Inr (), w)" "wal_open contents"] by (metis fst_conv snd_conv)
  then show ?thesis
    by (auto simp: connect_io_def open_io_def writer_connect_def)
qed

section \<open>What a failure leaves behind\<close>

text \<open>Whatever fails, an operation only adds to the file; to the log it adds \<open>xs\<close> when it succeeds and nothing
  if there is nothing to add; the synced prefix never shrinks.\<close>

definition grows :: "bool \<Rightarrow> bytes \<Rightarrow> TradeWal \<Rightarrow> TradeWal \<Rightarrow> bool" where
  "grows ok xs w w' \<longleftrightarrow>
     (\<exists>ys. wal_contents w' = wal_contents w @ ys \<and> (ok \<or> xs = [] \<longrightarrow> ys = xs)) \<and>
     (\<exists>zs. wal_file w' = wal_file w @ zs) \<and>
     (wal_synced w \<le> length (wal_file w) \<longrightarrow> wal_synced w \<le> wal_synced w' \<and> wal_synced w' \<le> length (wal_file w'))"

definition adds :: "bytes \<Rightarrow> 'a wal_op \<Rightarrow> bool" where
  "adds xs m \<longleftrightarrow> (\<forall>w os r w' os'. m (w, os) = (r, w', os') \<longrightarrow> grows (\<not> isl r) xs w w')"

lemma addsD: "adds xs m \<Longrightarrow> m (w, os) = (r, w', os') \<Longrightarrow> grows (\<not> isl r) xs w w'"
  unfolding adds_def by blast

lemma grows_stop: "grows False xs w w' \<Longrightarrow> grows False (xs @ ys) w w'"
  by (auto simp: grows_def)

lemma grows_trans:
  assumes "grows True xs u v" and "grows ok ys v w"
  shows "grows ok (xs @ ys) u w"
proof -
  from assms have "\<exists>zs. wal_contents w = wal_contents u @ xs @ zs \<and> (ok \<or> ys = [] \<longrightarrow> zs = ys)"
    by (auto simp: grows_def)
  then have "\<exists>zs. wal_contents w = wal_contents u @ zs \<and> (ok \<or> xs @ ys = [] \<longrightarrow> zs = xs @ ys)" by auto
  moreover from assms have "\<exists>zs. wal_file w = wal_file u @ zs" by (auto simp: grows_def)
  moreover from assms have "wal_synced u \<le> length (wal_file u) \<longrightarrow> wal_synced u \<le> wal_synced w \<and> wal_synced w \<le> length (wal_file w)"
    unfolding grows_def using order_trans by blast
  ultimately show ?thesis unfolding grows_def by blast
qed

lemma adds_bind:
  assumes "adds xs m" and "\<And>x. adds ys (g x)"
  shows "adds (xs @ ys) (io_bind m g)"
  unfolding adds_def
proof (intro allI impI)
  fix w os r w' os'
  assume run: "io_bind m g (w, os) = (r, w', os')"
  obtain r1 w1 os1 where m: "m (w, os) = (r1, w1, os1)" by (metis prod_cases3)
  note g1 = addsD [OF assms(1) m]
  show "grows (\<not> isl r) (xs @ ys) w w'"
  proof (cases r1)
    case (Inl e)
    with run m g1 show ?thesis by (auto simp: io_bind_def intro: grows_stop)
  next
    case (Inr x)
    with run m have "g x (w1, os1) = (r, w', os')" by (simp add: io_bind_def)
    from grows_trans [OF _ addsD [OF assms(2) this]] g1 Inr show ?thesis by simp
  qed
qed

lemma grows_flush:
  "grows True [] w (buf_flush w)"
  "grows False [] w (w\<lparr>wal_file := wal_file w @ take n (wal_buf w), wal_buf := drop n (wal_buf w)\<rparr>)"
  by (auto simp: grows_def wal_contents_def buf_flush_def)

lemma grows_file:
  "wal_buf w = [] \<Longrightarrow> grows True xs w (w\<lparr>wal_file := wal_file w @ xs\<rparr>)"
  "wal_buf w = [] \<Longrightarrow> grows False xs w (w\<lparr>wal_file := wal_file w @ take n xs\<rparr>)"
  "grows True xs w (w\<lparr>wal_buf := wal_buf w @ xs\<rparr>)" "grows ok [] w w"
  by (auto simp: grows_def wal_contents_def)

lemma adds_flush_buf: "adds [] flush_buf_io"
  unfolding adds_def flush_buf_io_def
  by (auto simp: grows_flush grows_file split: if_splits prod.splits io_outcome.splits)

lemma flush_buf_empty: "flush_buf_io (w, os) = (Inr u, w', os') \<Longrightarrow> wal_buf w' = []"
  by (auto simp: flush_buf_io_def buf_flush_def split: if_splits prod.splits io_outcome.splits)

lemma adds_write_all: "adds xs (write_all_io xs)"
  unfolding adds_def
proof (intro allI impI)
  fix w os r w' os'
  assume run: "write_all_io xs (w, os) = (r, w', os')"
  let ?m = "\<lambda>(w, os). if buf_capacity < length (wal_buf w) + length xs then flush_buf_io (w, os) else (Inr (), w, os)"
  obtain r1 w1 os1 where m: "?m (w, os) = (r1, w1, os1)" by (cases "?m (w, os)" rule: prod_cases3)
  have g1: "grows (\<not> isl r1) [] w w1"
    using m addsD [OF adds_flush_buf] by (auto simp: grows_file split: if_splits)
  show "grows (\<not> isl r) xs w w'"
  proof (cases r1)
    case (Inl e)
    with run m g1 grows_stop [of "[]" w w1 xs] show ?thesis by (auto simp: write_all_io_def io_bind_def)
  next
    case (Inr x)
    have "wal_buf w1 = []" if "buf_capacity \<le> length xs"
    proof (cases "buf_capacity < length (wal_buf w) + length xs")
      case True
      with m Inr have "flush_buf_io (w, os) = (Inr x, w1, os1)" by simp
      then show ?thesis by (rule flush_buf_empty)
    next
      case False
      with that have "length (wal_buf w) = 0" by linarith
      with False m show ?thesis by auto
    qed
    moreover from run m Inr have "(if buf_capacity \<le> length xs then file_write_io xs
       else (\<lambda>(w, os). (Inr (), w\<lparr>wal_buf := wal_buf w @ xs\<rparr>, os))) (w1, os1) = (r, w', os')"
      by (simp add: write_all_io_def io_bind_def)
    ultimately have "grows (\<not> isl r) xs w1 w'"
      by (auto simp: file_write_io_def grows_file split: if_splits prod.splits io_outcome.splits)
    with grows_trans [of "[]" w w1] g1 Inr show ?thesis by fastforce
  qed
qed

lemma adds_call: "(\<And>w. grows True [] w (f w)) \<Longrightarrow> adds [] (io_call f)"
  unfolding adds_def io_call_def by (auto simp: grows_file split: prod.splits io_outcome.splits)

lemma adds_skip: "adds [] (io_call (\<lambda>w. w))"
  by (rule adds_call) (rule grows_file)

lemma adds_last: "(\<And>w. grows True [] w (f w)) \<Longrightarrow> adds [] (\<lambda>(w, os). (Inr (a w), f w, os))"
  unfolding adds_def by auto

lemma adds_append: "adds (record_bytes p) (append_io p)"
proof (cases "2 ^ 32 \<le> length p")
  case True
  then show ?thesis by (auto simp: append_io_def adds_def grows_def record_bytes_def)
next
  case False
  let ?len = "word_of_nat (length p) :: u32" and ?n = "4 + word_of_nat (length p) + 4 :: u64"
  have "unat ?len = length p" using False by (simp add: unat_small)
  then have rec: "record_bytes p = to_le 4 (unat ?len) @ p @ to_le 4 (unat (compute_crc32 ?len p)) @ []"
    by (simp add: record_bytes_def del: to_le.simps)
  have eq: "append_io p = io_bind (write_all_io (to_le 4 (unat ?len))) (\<lambda>_. io_bind (write_all_io p) (\<lambda>_.
      io_bind (write_all_io (to_le 4 (unat (compute_crc32 ?len p)))) (\<lambda>_.
        (\<lambda>(w, os). (Inr (wal_bytes_written w + ?n), w\<lparr>wal_bytes_written := wal_bytes_written w + ?n\<rparr>, os)))))"
    using False by (simp add: append_io_def Let_def del: to_le.simps)
  show ?thesis
    unfolding eq rec
    by (intro adds_bind adds_write_all adds_last) (simp add: grows_def wal_contents_def)
qed

lemma adds_sync: "adds [] sync_io"
proof -
  have "adds [] (io_call (\<lambda>w. w\<lparr>wal_synced := length (wal_file w)\<rparr>))"
    by (rule adds_call) (simp add: grows_def wal_contents_def)
  from adds_bind [OF adds_flush_buf this] show ?thesis by (simp add: sync_io_def)
qed

lemma adds_replay: "adds [] replay_io"
proof -
  have "adds [] (\<lambda>(w, os). (Inr (replay_loop (wal_file w) 0 []), w, os))" by (rule adds_last) (rule grows_file)
  from adds_bind [OF adds_flush_buf adds_bind [OF adds_skip adds_bind [OF adds_skip adds_bind [OF adds_skip this]]]]
  show ?thesis by (simp add: replay_io_def)
qed

section \<open>Sequences of calls\<close>

datatype log_call = LAppend bytes | LSync | LReplay | LTruncate

fun record_of :: "log_call \<Rightarrow> bytes" where
  "record_of (LAppend p) = record_bytes p"
| "record_of _ = []"

fun log_step :: "log_call \<Rightarrow> wal_io \<Rightarrow> bool \<times> wal_io" where
  "log_step (LAppend p) s = (case append_io p s of (r, t) \<Rightarrow> (\<not> isl r, t))"
| "log_step LSync s = (case sync_io s of (r, t) \<Rightarrow> (\<not> isl r, t))"
| "log_step LReplay s = (case replay_io s of (r, t) \<Rightarrow> (\<not> isl r, t))"
| "log_step LTruncate s = (case truncate_io s of (r, t) \<Rightarrow> (\<not> isl r, t))"

definition log_run :: "log_call list \<Rightarrow> wal_io \<Rightarrow> wal_io" where
  "log_run cs s = fold (\<lambda>c t. snd (log_step c t)) cs s"

text \<open>Whether a call is a truncation that took effect. A truncation that reports success did; one that fails did if only its last
  call failed.\<close>

definition empties :: "log_call \<Rightarrow> wal_io \<Rightarrow> bool" where
  "empties c s \<longleftrightarrow> c = LTruncate \<and> wal_contents (fst (snd (log_step c s))) = []"

fun emptied :: "log_call list \<Rightarrow> wal_io \<Rightarrow> bool" where
  "emptied [] s \<longleftrightarrow> False"
| "emptied (c # cs) s \<longleftrightarrow> empties c s \<or> emptied cs (snd (log_step c s))"

text \<open>The payloads the log owes after some calls, from those it owed before; the flag says that no append failed since the log was
  last empty. An acknowledged append adds its payload while the flag is up, a truncation that took effect starts again.\<close>

fun owed :: "log_call list \<Rightarrow> wal_io \<Rightarrow> bytes list \<Rightarrow> bool \<Rightarrow> bytes list" where
  "owed [] s ps up = ps"
| "owed (c # cs) s ps up =
     (case log_step c s of (ok, t) \<Rightarrow>
        if empties c s then owed cs t [] True
        else (case c of
            LAppend p \<Rightarrow> if up \<and> ok then owed cs t (ps @ [p]) True else owed cs t ps False
          | _ \<Rightarrow> owed cs t ps up))"

lemma log_run_simps [simp]:
  "log_run [] s = s" "log_run (c # cs) s = log_run cs (snd (log_step c s))"
  by (simp_all add: log_run_def)

text \<open>A truncation empties the log or leaves it as it was.\<close>

lemma truncate_io_cases:
  assumes "truncate_io (w, os) = (r, w', os')"
  shows "wal_contents w' = [] \<or> grows True [] w w'" and "\<not> isl r \<Longrightarrow> wal_contents w' = []"
proof -
  obtain r1 w1 os1 where f: "flush_buf_io (w, os) = (r1, w1, os1)" by (metis prod_cases3)
  have g: "grows True [] w w1" using addsD [OF adds_flush_buf f] by (auto simp: grows_def)
  have "wal_contents w' = [] \<or> w' = w1 \<and> isl r"
  proof (cases r1)
    case (Inl e)
    with f assms show ?thesis by (auto simp: truncate_io_def io_bind_def)
  next
    case (Inr u)
    with flush_buf_empty f have "wal_buf w1 = []" by simp
    then have "wal_contents (w1\<lparr>wal_file := [], wal_synced := 0\<rparr>) = []" by (simp add: wal_contents_def)
    moreover obtain o1 os2 where "next_outcome os1 = (o1, os2)" by (metis surj_pair)
    moreover obtain o2 os3 where "next_outcome os2 = (o2, os3)" by (metis surj_pair)
    ultimately show ?thesis
      using f Inr assms by (cases o1; cases o2) (auto simp: truncate_io_def io_bind_def io_call_def wal_contents_def)
  qed
  with g show "wal_contents w' = [] \<or> grows True [] w w'" "\<not> isl r \<Longrightarrow> wal_contents w' = []" by auto
qed

lemma log_step_grows:
  assumes "log_step c (w, os) = (ok, w', os')" and "\<not> empties c (w, os)"
  shows "grows ok (record_of c) w w'"
proof (cases c)
  case LTruncate
  obtain r where "truncate_io (w, os) = (r, w', os')" using assms(1) LTruncate by (auto split: prod.splits)
  from truncate_io_cases(1) [OF this] assms LTruncate show ?thesis by (auto simp: empties_def grows_def)
qed (use assms(1) in \<open>auto split: prod.splits dest: addsD [OF adds_append] addsD [OF adds_sync] addsD [OF adds_replay]\<close>)

lemma log_run_grows: "\<not> emptied cs (w, os) \<Longrightarrow> \<exists>ys. grows True ys w (fst (log_run cs (w, os)))"
proof (induction cs arbitrary: w os)
  case Nil
  then show ?case using grows_file(4) [of True w] by auto
next
  case (Cons c cs)
  obtain ok w1 os1 where s: "log_step c (w, os) = (ok, w1, os1)" by (metis prod_cases3)
  with Cons.prems have e: "\<not> empties c (w, os)" "\<not> emptied cs (w1, os1)" by simp_all
  obtain xs where "grows True xs w w1" using log_step_grows [OF s e(1)] by (auto simp: grows_def)
  moreover obtain ys where "grows True ys w1 (fst (log_run cs (w1, os1)))" using Cons.IH [OF e(2)] by blast
  ultimately show ?case using s grows_trans by fastforce
qed

lemma append_io_bound: "append_io p s = (Inr n, t) \<Longrightarrow> length p < 2 ^ 32"
  by (auto simp: append_io_def not_le [symmetric] split: if_splits)

text \<open>The log owes some payloads: it begins with their records and, while no append failed, holds nothing else.\<close>

definition owes :: "bytes list \<Rightarrow> bool \<Rightarrow> TradeWal \<Rightarrow> bool" where
  "owes ps up w \<longleftrightarrow> (\<exists>ys. wal_contents w = log_bytes ps @ ys \<and> (up \<longrightarrow> ys = [])) \<and> (\<forall>p \<in> set ps. length p < 2 ^ 32)"

lemma owes_grows:
  assumes "owes ps up w"
  shows "grows ok [] w w' \<Longrightarrow> owes ps up w'"
    and "grows ok (record_bytes p) w w' \<Longrightarrow> owes ps False w'"
    and "\<lbrakk>grows True (record_bytes p) w w'; up; length p < 2 ^ 32\<rbrakk> \<Longrightarrow> owes (ps @ [p]) True w'"
  using assms by (auto simp: owes_def grows_def log_bytes_def)

lemma owes_run: "owes ps up w \<Longrightarrow> \<exists>up'. owes (owed cs (w, os) ps up) up' (fst (log_run cs (w, os)))"
proof (induction cs arbitrary: w os ps up)
  case Nil
  then show ?case by auto
next
  case (Cons c cs)
  obtain ok w1 os1 where s: "log_step c (w, os) = (ok, w1, os1)" by (metis prod_cases3)
  show ?case
  proof (cases "empties c (w, os)")
    case True
    then have "owes [] True w1" using s by (simp add: empties_def owes_def log_bytes_def)
    with Cons.IH True s show ?thesis by simp
  next
    case False
    note g = log_step_grows [OF s False]
    show ?thesis
    proof (cases c)
      case (LAppend p)
      have "length p < 2 ^ 32" if ok
        using that s LAppend append_io_bound by (auto split: prod.splits) (metis isl_def sum.collapse(2))
      with g LAppend owes_grows(2,3) [OF Cons.prems] have "owes (if up \<and> ok then ps @ [p] else ps) (up \<and> ok) w1"
        by (cases "up \<and> ok") auto
      from Cons.IH [OF this] s False LAppend show ?thesis by (cases up; cases ok) simp_all
    qed (use g owes_grows(1) [OF Cons.prems] Cons.IH s False in simp_all)
  qed
qed

lemma sync_io_ok:
  assumes "sync_io (w, os) = (Inr u, w', os')"
  shows "wal_file w' = wal_contents w" and "wal_synced w' = length (wal_contents w)" and "wal_buf w' = []"
proof -
  from assms obtain v os1 where v: "flush_buf_io (w, os) = (Inr (), v, os1)"
    "io_call (\<lambda>w. w\<lparr>wal_synced := length (wal_file w)\<rparr>) (v, os1) = (Inr u, w', os')"
    by (auto simp: sync_io_def io_bind_def split: prod.splits sum.splits)
  then have "wal_file v = wal_contents w" "wal_buf v = []"
    using flush_buf_empty [OF v(1)] addsD [OF adds_flush_buf v(1)] by (auto simp: grows_def wal_contents_def)
  with v(2) show "wal_file w' = wal_contents w" "wal_synced w' = length (wal_contents w)" "wal_buf w' = []"
    by (auto simp: io_call_def split: prod.splits io_outcome.splits)
qed

section \<open>Properties\<close>

text \<open>C11. Failing calls never damage what was synced: take any appends, syncs, replays and truncations of a log, any of whose system
  calls may fail with any part of its bytes written, then a sync that succeeds, then any calls again,
  none of which is a truncation that takes effect, and a crash that cuts the file anywhere; replaying
  the reopened log still gives, in order, every record the log had at the start and every record acknowledged before
  the first failed append, counted from the last truncation that took effect, if there was one.\<close>

theorem log_failures_keep_synced:
  assumes "wal_contents w = log_bytes ps" and "\<forall>p \<in> set ps. length p < 2 ^ 32"
    and "sync_io (log_run cs (w, os)) = (Inr (), v, os')" and "\<not> emptied ds (v, os')"
  shows "\<exists>rest. fst (wal_replay (crash_at n (fst (log_run ds (v, os'))))) = owed cs (w, os) ps True @ rest"
proof -
  let ?u = "fst (log_run ds (v, os'))" and ?w = "fst (log_run cs (w, os))" and ?ps = "owed cs (w, os) ps True"
  have "owes ps True w" using assms(1,2) by (simp add: owes_def)
  with owes_run [of ps True w cs os] obtain ys where ys: "wal_contents ?w = log_bytes ?ps @ ys"
    and len: "\<forall>p \<in> set ?ps. length p < 2 ^ 32" by (auto simp: owes_def)
  have sync: "wal_file v = wal_contents ?w" "wal_synced v = length (wal_contents ?w)"
    using sync_io_ok [of ?w "snd (log_run cs (w, os))"] assms(3) by simp_all
  obtain zs where "grows True zs v ?u" using log_run_grows [OF assms(4)] by blast
  with sync obtain xs where "wal_file ?u = wal_file v @ xs" "length (wal_file v) \<le> wal_synced ?u"
    by (auto simp: grows_def)
  then have "take (max n (wal_synced ?u)) (wal_file ?u) = wal_file v @ take (max n (wal_synced ?u) - length (wal_file v)) xs"
    by simp
  then have "wal_contents (crash_at n ?u) = log_bytes ?ps @ ys @ take (max n (wal_synced ?u) - length (wal_file v)) xs"
    using sync(1) ys by (simp add: crash_at_def)
  then show ?thesis using replay_from_log [OF len] by (auto simp: wal_replay_contents)
qed

theorem log_failures_keep_synced_witness:
  "\<exists>rest. fst (wal_replay (crash_at 0 (fst (log_run [LAppend ''c'', LTruncate]
      (snd (sync_io (log_run [LAppend ''ab'', LTruncate, LAppend ''d'', LSync]
        (wal_open [], [IoErr 3 ''disk full'', IoOk, IoOk, IoOk, IoErr 2 ''gone'']))))))))  = [''ab'', ''d''] @ rest"
proof -
  let ?os = "[IoErr 3 ''disk full'', IoOk, IoOk, IoOk, IoErr 2 ''gone'']" and ?cs = "[LAppend ''ab'', LTruncate, LAppend ''d'', LSync]"
  let ?r = "sync_io (log_run ?cs (wal_open [], ?os))"
  note eval = io_defs io_bind_def io_call_def wal_open_def buf_capacity_def Let_def empties_def wal_contents_def buf_flush_def
  have run: "fst ?r = Inr ()" "owed ?cs (wal_open [], ?os) [] True = [''ab'', ''d'']" "\<not> emptied [LAppend ''c'', LTruncate] (snd ?r)"
    by (simp_all add: eval del: to_le.simps)
  obtain v os' where r: "?r = (Inr (), v, os')" using run(1) by (cases ?r) auto
  with run(3) have "\<not> emptied [LAppend ''c'', LTruncate] (v, os')" by simp
  from log_failures_keep_synced [of "wal_open []" "[]" ?cs ?os v os' "[LAppend ''c'', LTruncate]" 0, OF _ _ r this] run(2) r
  show ?thesis by (simp add: log_bytes_def)
qed

text \<open>C10. A flush is safe against every failure after its sync: whether the INSERT fails or the truncation
  fails at any of its calls, and wherever a crash then cuts the log file, each trade of the batch is in the
  table or is recovered into the buffer of the restarted writer.\<close>

theorem flush_failures_lose_nothing:
  assumes "writer_inv env w" and "commits env keys" and "fst (sync_io (tw_wal w, os)) = Inr ()"
    and "flush_io env (w, os) = (r, w', os')"
  shows "key_of ` set (tw_buffer w) \<subseteq>
           keys (tw_pool w') \<union> key_of ` set (tw_buffer (snd (recover_from_wal env (restart n w'))))"
proof (cases "tw_buffer w = []")
  case False
  obtain wal os1 where sync: "sync_io (tw_wal w, os) = (Inr (), wal, os1)"
    using assms(3) by (cases "sync_io (tw_wal w, os)") auto
  let ?w1 = "w\<lparr>tw_buffer := [], tw_wal := wal\<rparr>"
  let ?rows = "map (trade_row (we_decimal env)) (tw_buffer w)"
  show ?thesis
  proof (cases "we_exec env ?rows (tw_pool w)")
    case (Pair q db)
    show ?thesis
    proof (cases q)
      case (Inl e)
      with Pair sync False assms(4) have w': "w' = ?w1\<lparr>tw_pool := db\<rparr>"
        by (auto simp: flush_io_def flush_drained_io_def on_wal_def Let_def)
      have "wal_contents (tw_wal (restart n w')) = log_bytes (log_of env (tw_buffer w))"
        using sync_io_ok [OF sync] assms(1) by (simp add: w' restart_def from_parts_def crash_at_def writer_inv_def)
      moreover have "tw_buffer (restart n w') = []" by (simp add: restart_def from_parts_def)
      ultimately have "tw_buffer (snd (recover_from_wal env (restart n w'))) = tw_buffer w"
        using recover_log [of "restart n w'" env "tw_buffer w"] assms(1) by (simp add: writer_inv_def)
      then show ?thesis by simp
    next
      case (Inr m)
      have "flush_drained_io env (tw_buffer w) (w\<lparr>tw_buffer := []\<rparr>, os) = on_wal truncate_io (?w1\<lparr>tw_pool := db\<rparr>, os1)"
        using Pair Inr sync False by (simp add: flush_drained_io_def on_wal_def)
      then have "tw_pool w' = db"
        using assms(4) False by (auto simp: flush_io_def on_wal_def Let_def split: prod.splits sum.splits)
      moreover have "key_of ` set (tw_buffer w) \<subseteq> keys db"
        using assms(2) Pair Inr unfolding commits_def by (auto simp: image_image)
      ultimately show ?thesis by blast
    qed
  qed
qed simp

theorem flush_failures_lose_nothing_witness:
  "let w = snd (stage healthy_env (sample_staged ''a'') (writer_connect {} [] 10));
       w' = fst (snd (flush_io healthy_env (w, [IoOk, IoOk, IoErr 0 ''read-only file system''])))
   in key_of ` set (tw_buffer w) \<subseteq>
        tw_pool w' \<union> key_of ` set (tw_buffer (snd (recover_from_wal healthy_env (restart 0 w'))))"
proof -
  let ?w = "snd (stage healthy_env (sample_staged ''a'') (writer_connect {} [] 10))"
  let ?os = "[IoOk, IoOk, IoErr 0 ''read-only file system'']"
  have "trade_ok healthy_env (sample_staged ''a'')"
    by (simp add: trade_ok_def healthy_env_def sample_staged_def utf8_valid_ascii is_ascii_def byte_in_def)
  then have w: "writer_inv healthy_env ?w"
    using stage_buffers [of healthy_env "writer_connect {} [] 10" "sample_staged ''a''"] by simp
  moreover have "commits healthy_env (\<lambda>S. S)" by (auto simp: commits_def healthy_env_def)
  moreover have "fst (sync_io (tw_wal ?w, ?os)) = Inr ()"
    by (simp add: io_defs io_bind_def io_call_def)
  ultimately show ?thesis
    using flush_failures_lose_nothing [of healthy_env ?w "\<lambda>S. S" ?os]
    by (cases "flush_io healthy_env (?w, ?os)") (auto simp: Let_def)
qed

end
