(* ===== verification/Http_Router.thy ===== *)
theory Http_Router
  imports Api
begin

text \<open>
  \<^verbatim>\<open>crates/api-server/src/router.rs\<close>, the route table and the health endpoint of \<^verbatim>\<open>http/handlers.rs\<close>, and the
  answer an error becomes (\<^verbatim>\<open>error.rs\<close>). Which route a request takes is axum's; the theorems range over
  the whole table. The extractors run before the body of a handler and so before the check of
  the token: the path segment, the query string of the batches and of the trades. What they make of
  a request is a parameter, as are the Redis client's check of its address and the text of a quoted string.
\<close>

section \<open>Errors as answers\<close>

record ErrorBody =
  eb_code :: string
  eb_message :: bytes

text \<open>The \<open>Display\<close> of an error; \<open>dbg\<close> is \<open>{:?}\<close> of a string.\<close>

fun ApiError_fmt :: "(bytes \<Rightarrow> bytes) \<Rightarrow> ApiError \<Rightarrow> bytes" where
  "ApiError_fmt dbg AE_MissingAuth = ''missing Authorization header''"
| "ApiError_fmt dbg AE_InvalidToken = ''invalid token''"
| "ApiError_fmt dbg AE_RateLimited = ''rate limit exceeded''"
| "ApiError_fmt dbg (AE_TickerNotFound t) = ''ticker '' @ dbg t @ '' not known''"
| "ApiError_fmt dbg AE_BookNotAvailable = ''book not available for this market''"
| "ApiError_fmt dbg (AE_Redis e) = ''Redis error: '' @ e"
| "ApiError_fmt dbg (AE_BadRequest r) = ''invalid request: '' @ r"
| "ApiError_fmt dbg (AE_Internal r) = ''internal error: '' @ r"

definition into_response :: "(bytes \<Rightarrow> bytes) \<Rightarrow> ApiError \<Rightarrow> nat \<times> ErrorBody" where
  "into_response dbg e = (status e, \<lparr>eb_code = code e, eb_message = ApiError_fmt dbg e\<rparr>)"

section \<open>Assembly\<close>

datatype endpoint = EP_Health | EP_QuoteSingle | EP_QuoteBatch | EP_BookSingle | EP_BookBatch | EP_Trades

text \<open>The methods of HTTP; \<open>get(handler)\<close> puts a handler behind GET. That axum lets it answer HEAD too, without
  the body, refuses every other method, and lets the CORS layer answer preflight requests before any route, is
  not in this repository.\<close>

datatype http_method = M_GET | M_HEAD | M_POST | M_PUT | M_DELETE | M_OPTIONS | M_PATCH | M_TRACE | M_CONNECT

definition get :: "endpoint \<Rightarrow> http_method \<times> endpoint" where
  "get ep = (M_GET, ep)"

definition build_http_routes :: "(bytes \<times> http_method \<times> endpoint) list" where
  "build_http_routes =
     [(''/v1/health'', get EP_Health), (''/v1/quote/:ticker'', get EP_QuoteSingle), (''/v1/quote'', get EP_QuoteBatch),
      (''/v1/book/:ticker'', get EP_BookSingle), (''/v1/book'', get EP_BookBatch), (''/v1/trades/:ticker'', get EP_Trades)]"

datatype CorsLayer = VeryPermissive | AllowOrigin "bytes list"

definition cors_layer :: "(bytes \<Rightarrow> bytes option) \<Rightarrow> ApiConfig \<Rightarrow> CorsLayer" where
  "cors_layer parse cfg =
     (if ap_cors_allowed_origins cfg = [] then VeryPermissive
      else AllowOrigin (List.map_filter parse (ap_cors_allowed_origins cfg)))"

record HttpState =
  hs_store :: bytes
  hs_cfg :: ApiConfig

text \<open>\<open>SnapshotStore::connect\<close> only checks the address; the store is known by it.\<close>

definition store_connect :: "(bytes \<Rightarrow> string option) \<Rightarrow> bytes \<Rightarrow> ApiError + bytes" where
  "store_connect check redis_url = (case check redis_url of Some e \<Rightarrow> Inl (AE_Redis e) | None \<Rightarrow> Inr redis_url)"

definition build_router :: "(bytes \<Rightarrow> string option) \<Rightarrow> (bytes \<Rightarrow> bytes option) \<Rightarrow> ApiConfig \<Rightarrow>
    ApiError + (HttpState \<times> (bytes \<times> http_method \<times> endpoint) list \<times> CorsLayer)" where
  "build_router check parse cfg =
     bind_res (store_connect check (ap_redis_url cfg)) (\<lambda>store.
       Inr (\<lparr>hs_store = store, hs_cfg = cfg\<rparr>, build_http_routes, cors_layer parse cfg))"

section \<open>Answering a request\<close>

record request =
  rq_headers :: HeaderMap
  rq_segment :: bytes
  rq_query :: bytes

record extractors =
  ex_path :: "bytes \<Rightarrow> nat + bytes"
  ex_batch_query :: "bytes \<Rightarrow> nat + bytes"
  ex_trades_query :: "bytes \<Rightarrow> nat + TradesQuery"

text \<open>The answer: data, the health body, a rejection by an extractor, or an error of a handler.\<close>

datatype 'json reply =
    Data "'json response" | HealthOk bytes | Rejected nat | Failed nat ErrorBody

definition health :: "'json reply" where
  "health = HealthOk ''ok''"

definition reply_of :: "(bytes \<Rightarrow> bytes) \<Rightarrow> ApiError + 'json response \<Rightarrow> 'json reply" where
  "reply_of dbg r = (case r of Inr x \<Rightarrow> Data x | Inl e \<Rightarrow> (case into_response dbg e of (s, b) \<Rightarrow> Failed s b))"

definition extracted :: "nat + 'a \<Rightarrow> ('a \<Rightarrow> 'json reply) \<Rightarrow> 'json reply" where
  "extracted r f = (case r of Inl s \<Rightarrow> Rejected s | Inr x \<Rightarrow> f x)"

fun serve :: "extractors \<Rightarrow> (bytes \<Rightarrow> bytes) \<Rightarrow> ('db, 'json) api_env \<Rightarrow> ApiConfig \<Rightarrow> 'db \<Rightarrow> endpoint \<Rightarrow> request \<Rightarrow> 'json reply" where
  "serve ex dbg env cfg db EP_Health rq = health"
| "serve ex dbg env cfg db EP_QuoteSingle rq =
     extracted (ex_path ex (rq_segment rq)) (\<lambda>t. reply_of dbg (quote_single env cfg db (rq_headers rq) t))"
| "serve ex dbg env cfg db EP_QuoteBatch rq =
     extracted (ex_batch_query ex (rq_query rq)) (\<lambda>q. reply_of dbg (quote_batch env cfg db (rq_headers rq) q))"
| "serve ex dbg env cfg db EP_BookSingle rq =
     extracted (ex_path ex (rq_segment rq)) (\<lambda>t. reply_of dbg (book_single env cfg db (rq_headers rq) t))"
| "serve ex dbg env cfg db EP_BookBatch rq =
     extracted (ex_batch_query ex (rq_query rq)) (\<lambda>q. reply_of dbg (book_batch env cfg db (rq_headers rq) q))"
| "serve ex dbg env cfg db EP_Trades rq =
     extracted (ex_path ex (rq_segment rq)) (\<lambda>t. extracted (ex_trades_query ex (rq_query rq)) (\<lambda>q.
       reply_of dbg (trades env cfg db (rq_headers rq) t q)))"

section \<open>Lemmas\<close>

definition authorised :: "('db, 'json) api_env \<Rightarrow> ApiConfig \<Rightarrow> request \<Rightarrow> bool" where
  "authorised env cfg rq \<longleftrightarrow> (\<exists>token \<in> ap_valid_tokens cfg. carries_token (av_to_str env) (rq_headers rq) token)"

lemma handler_needs_token:
  assumes "require_token (av_to_str env) headers cfg = Inl e"
  shows "quote_single env cfg db headers t = Inl e" "book_single env cfg db headers t = Inl e"
    "trades env cfg db headers t q = Inl e" "quote_batch env cfg db headers l = Inl e" "book_batch env cfg db headers l = Inl e"
  using assms by (simp_all add: quote_single_def book_single_def trades_def quote_batch_def book_batch_def)

lemma unauthorised_error:
  assumes "\<not> authorised env cfg rq"
  obtains e where "require_token (av_to_str env) (rq_headers rq) cfg = Inl e" and "e \<in> {AE_MissingAuth, AE_InvalidToken}"
proof -
  have "require_token (av_to_str env) (rq_headers rq) cfg \<noteq> Inr token" for token
    using assms by (auto simp: authorised_def require_token_iff)
  then obtain e where e: "require_token (av_to_str env) (rq_headers rq) cfg = Inl e" by (metis sum.exhaust)
  with require_token_error [OF e] show ?thesis
    using that by (auto simp: require_token_def extract_bearer_def bind_res_def ok_or_def Let_def
        split: sum.splits option.splits if_splits)
qed

lemma unauthorised_answer:
  assumes "ep \<noteq> EP_Health" and "\<not> authorised env cfg rq"
  shows "(\<exists>s. serve ex dbg env cfg db ep rq = Rejected s \<and> serve ex dbg env cfg db' ep rq = Rejected s) \<or>
         (\<exists>b. serve ex dbg env cfg db ep rq = Failed 401 b \<and> serve ex dbg env cfg db' ep rq = Failed 401 b \<and>
              eb_code b \<in> {''missing_auth'', ''invalid_token''})"
proof -
  obtain e where e: "require_token (av_to_str env) (rq_headers rq) cfg = Inl e"
    and kind: "e \<in> {AE_MissingAuth, AE_InvalidToken}"
    using unauthorised_error [OF assms(2)] .
  note h = handler_needs_token [OF e]
  have "status e = 401" "code e \<in> {''missing_auth'', ''invalid_token''}" using kind by auto
  then show ?thesis
    using assms(1)
    by (cases ep; simp add: h extracted_def reply_of_def into_response_def split: sum.split)
qed

text \<open>The answer of a failing handler has the status and the code of its error, and Redis failures are internal errors.\<close>

lemma reply_error: "reply_of dbg (Inl e) = Failed (status e) \<lparr>eb_code = code e, eb_message = ApiError_fmt dbg e\<rparr>"
  by (simp add: reply_of_def into_response_def)

end
