(* ===== verification/Coalescer_Task.thy ===== *)
theory Coalescer_Task
  imports Step_System Fanout
begin

text \<open>
  \<open>submit\<close> and \<open>flush_once\<close> of \<^verbatim>\<open>crates/fanout/src/coalescer.rs\<close> when they run at the same time: the background task of
  \<open>spawn_flush_task\<close> and the callers of \<open>flush_once\<close> are flushers with numbers below \<open>n\<close>. A flusher takes the pending map
  in one step, under its lock, and then publishes what it took one call at a time; submissions and other
  flushers come in between. A configuration is the coalescer, what each flusher still has to publish, and all
  submissions so far.
\<close>

section \<open>Steps\<close>

type_synonym 's fan = "'s Coalescer \<times> (nat \<Rightarrow> (PublishKey \<times> bytes) list) \<times> (PublishKey \<times> bytes) list"

definition take_pending :: "PublishKey list \<Rightarrow> 's Coalescer \<Rightarrow> (PublishKey \<times> bytes) list \<times> 's Coalescer" where
  "take_pending order c = (map (\<lambda>k. (k, the (co_pending c k))) order, c\<lparr>co_pending := Map.empty\<rparr>)"

definition publish_next :: "'s sink \<Rightarrow> PublishKey \<times> bytes \<Rightarrow> 's Coalescer \<Rightarrow> 's Coalescer" where
  "publish_next publish = (\<lambda>(k, x) c. c\<lparr>co_sink := snd (publish k x (co_sink c))\<rparr>)"

inductive flush_step :: "'s sink \<Rightarrow> nat \<Rightarrow> 's fan \<Rightarrow> 's fan \<Rightarrow> bool" for publish n where
  submit: "flush_step publish n (c, hands, subs) (submit publish k x c, hands, subs @ [(k, x)])"
| taken: "\<lbrakk>i < n; hands i = []; drain_order order c; take_pending order c = (batch, c')\<rbrakk> \<Longrightarrow>
    flush_step publish n (c, hands, subs) (c', hands(i := batch), subs)"
| send: "\<lbrakk>i < n; hands i = p # rest\<rbrakk> \<Longrightarrow>
    flush_step publish n (c, hands, subs) (publish_next publish p c, hands(i := rest), subs)"

inductive_cases flush_stepE: "flush_step publish n s t"

definition no_batch :: "nat \<Rightarrow> (PublishKey \<times> bytes) list" where
  "no_batch = (\<lambda>i. [])"

section \<open>A flush is a take and its sends\<close>

lemma send_all:
  assumes "i < n" and "hands i = batch"
  shows "(flush_step publish n)\<^sup>*\<^sup>* (c, hands, subs) (fold (publish_next publish) batch c, hands(i := []), subs)"
  using assms
proof (induction batch arbitrary: c hands)
  case Nil
  then show ?case by (simp add: fun_upd_idem)
next
  case (Cons p batch)
  have "flush_step publish n (c, hands, subs) (publish_next publish p c, hands(i := batch), subs)"
    by (rule flush_step.send [where p = p]) (use Cons.prems in auto)
  also have "(flush_step publish n)\<^sup>*\<^sup>* (publish_next publish p c, hands(i := batch), subs)
      (fold (publish_next publish) batch (publish_next publish p c), (hands(i := batch))(i := []), subs)"
    by (rule Cons.IH) (use Cons.prems in auto)
  finally show ?case by (simp only: fold_simps fun_upd_upd)
qed

lemma fold_publish_next:
  "fold (publish_next publish) (map (\<lambda>k. (k, f k)) ks) c =
     c\<lparr>co_sink := fold (\<lambda>k s. snd (publish k (f k) s)) ks (co_sink c)\<rparr>"
  by (induction ks arbitrary: c) (simp_all add: publish_next_def)

text \<open>Undisturbed, a flusher does what \<open>flush_once\<close> does.\<close>

lemma flush_once_steps:
  assumes "i < n" and "hands i = []" and "drain_order order c"
  shows "(flush_step publish n)\<^sup>*\<^sup>* (c, hands, subs) (flush_once publish order c, hands, subs)"
proof -
  let ?batch = "map (\<lambda>k. (k, the (co_pending c k))) order" and ?c = "c\<lparr>co_pending := Map.empty\<rparr>"
  have "flush_step publish n (c, hands, subs) (?c, hands(i := ?batch), subs)"
    using flush_step.taken [of i n hands order c, OF assms] by (simp add: take_pending_def)
  also have "(flush_step publish n)\<^sup>*\<^sup>* (?c, hands(i := ?batch), subs)
      (fold (publish_next publish) ?batch ?c, (hands(i := ?batch))(i := []), subs)"
    by (rule send_all [OF assms(1)]) simp
  finally show ?thesis
    using assms(2) by (simp add: fold_publish_next flush_once_def fun_upd_idem)
qed

section \<open>One flusher\<close>

text \<open>What was published, overlaid with what the flusher holds and what is pending, is the latest of every key.\<close>

definition latest_kept :: "NoopSink fan \<Rightarrow> bool" where
  "latest_kept = (\<lambda>(c, hands, subs).
     map_of (rev (co_sink c)) ++ map_of (hands 0) ++ co_pending c = map_of (rev subs) \<and>
     (\<forall>k \<in> fst ` set (hands 0) \<union> dom (co_pending c). batched c k) \<and> distinct (map fst (hands 0)))"

lemma batched_updates [simp]:
  "batched (submit publish k x c) = batched c" "batched (c\<lparr>co_pending := m\<rparr>) = batched c" "batched (c\<lparr>co_sink := s\<rparr>) = batched c"
  by (simp_all add: batched_def submit_def fun_eq_iff)

lemma map_add_upd_middle: "k \<notin> dom h \<Longrightarrow> (m(k \<mapsto> x)) ++ h = (m ++ h)(k \<mapsto> x)"
  by (auto simp: map_add_def fun_eq_iff split: option.split)

lemma latest_kept_step:
  assumes "flush_step noop_publish 1 s t" and "latest_kept s"
  shows "latest_kept t"
  using assms
proof (cases rule: flush_step.cases)
  case (submit c hands subs k x)
  show ?thesis
  proof (cases "batched c k")
    case True
    with submit assms(2) show ?thesis by (auto simp: latest_kept_def Fanout.submit_def batched_def [of c k])
  next
    case False
    have "k \<notin> dom (map_of (hands 0))" "k \<notin> dom (co_pending c)"
      using submit assms(2) False by (auto simp: latest_kept_def dom_map_of_conv_image_fst)
    with submit assms(2) False show ?thesis
      by (simp add: latest_kept_def Fanout.submit_def batched_def [of c k] map_add_upd_middle)
  qed
next
  case (taken i hands order c batch c' subs)
  then show ?thesis
    using assms(2) map_of_drained [of order "co_pending c"]
    by (auto simp: latest_kept_def take_pending_def drain_order_def comp_def dom_def)
next
  case (send i hands p rest c subs)
  obtain k x where p: "p = (k, x)" by (cases p)
  have "k \<notin> dom (map_of rest)" using send assms(2) p by (auto simp: latest_kept_def dom_map_of_conv_image_fst)
  with send assms(2) p show ?thesis
    by (auto simp: latest_kept_def publish_next_def map_add_upd_middle)
qed

interpretation one_flusher: step_invariant "flush_step noop_publish 1" latest_kept
  by unfold_locales (rule latest_kept_step)

lemma run_latest:
  assumes "co_pending c0 = Map.empty" and "co_sink c0 = []"
    and "(flush_step noop_publish 1)\<^sup>*\<^sup>* (c0, no_batch, []) (c, hands, subs)"
  shows "map_of (rev (co_sink c)) ++ map_of (hands 0) ++ co_pending c = map_of (rev subs)"
proof -
  have "latest_kept (c0, no_batch, [])" using assms(1,2) by (simp add: latest_kept_def no_batch_def)
  from one_flusher.inv_reachable [OF assms(3) this] show ?thesis by (auto simp: latest_kept_def)
qed

text \<open>A quote submitted to a new coalescer, then a flush.\<close>

lemma one_quote_run:
  assumes "pk_kind k = K_Quote"
  shows "(flush_step noop_publish 1)\<^sup>*\<^sup>* (Coalescer_new [], no_batch, [])
     (flush_once noop_publish [k] (submit noop_publish k x (Coalescer_new [])), no_batch, [(k, x)])"
proof (rule converse_rtranclp_into_rtranclp)
  let ?c = "submit noop_publish k x (Coalescer_new [])"
  show "flush_step noop_publish 1 (Coalescer_new [], no_batch, []) (?c, no_batch, [(k, x)])"
    using flush_step.submit [of noop_publish 1 "Coalescer_new []" no_batch "[]"] by simp
  show "(flush_step noop_publish 1)\<^sup>*\<^sup>* (?c, no_batch, [(k, x)]) (flush_once noop_publish [k] ?c, no_batch, [(k, x)])"
    using assms by (intro flush_once_steps [of 0])
       (simp_all add: no_batch_def drain_order_def submit_def Coalescer_new_def window_for_def)
qed

section \<open>Two flushers\<close>

text \<open>When a second flusher comes in, as \<open>flush_all\<close> does at shutdown beside the background task, which nothing stops, an older
  payload can be published after a newer one of the same key, and stays in the store.\<close>

lemma flushes_can_overtake:
  assumes "co_pending c = Map.empty" and "batched c k"
  shows "\<exists>c'. (flush_step noop_publish 2)\<^sup>*\<^sup>* (c, no_batch, []) (c', no_batch, [(k, old), (k, new)]) \<and>
           co_pending c' = Map.empty \<and> map_of (rev (co_sink c')) k = Some old"
proof -
  let ?step = "flush_step noop_publish 2"
  let ?p = "\<lambda>x. c\<lparr>co_pending := [k \<mapsto> x]\<rparr>" and ?h = "no_batch(0 := [(k, old)])"
  have sub: "submit noop_publish k x c = ?p x" for x using assms by (simp add: submit_def batched_def)
  have emp: "(?p x)\<lparr>co_pending := Map.empty\<rparr> = c" for x using assms(1) by (cases c) simp
  have s1: "?step (c, no_batch, []) (?p old, no_batch, [(k, old)])"
    using flush_step.submit [of noop_publish 2 c no_batch "[]" k old] by (simp add: sub)
  have s2: "?step (?p old, no_batch, [(k, old)]) (c, ?h, [(k, old)])"
    by (rule flush_step.taken [where i = 0 and order = "[k]"])
       (simp_all add: no_batch_def drain_order_def take_pending_def emp)
  have s3: "?step (c, ?h, [(k, old)]) (?p new, ?h, [(k, old), (k, new)])"
    using flush_step.submit [of noop_publish 2 c ?h "[(k, old)]" k new] by (simp add: sub)
  have s4: "?step\<^sup>*\<^sup>* (?p new, ?h, [(k, old), (k, new)]) (flush_once noop_publish [k] (?p new), ?h, [(k, old), (k, new)])"
    by (rule flush_once_steps [of 1]) (simp_all add: no_batch_def drain_order_def)
  have s5: "?step\<^sup>*\<^sup>* (flush_once noop_publish [k] (?p new), ?h, [(k, old), (k, new)])
      (fold (publish_next noop_publish) [(k, old)] (flush_once noop_publish [k] (?p new)), ?h(0 := []), [(k, old), (k, new)])"
    by (rule send_all) (simp_all add: no_batch_def)
  note run = rtranclp_trans [OF converse_rtranclp_into_rtranclp [OF s1 converse_rtranclp_into_rtranclp [OF s2
    converse_rtranclp_into_rtranclp [OF s3 s4]]] s5]
  have "?h(0 := []) = no_batch" by (simp add: no_batch_def fun_eq_iff)
  note run [unfolded this fold_simps]
  then show ?thesis
    by (intro exI [of _ "publish_next noop_publish (k, old) (flush_once noop_publish [k] (?p new))"] conjI)
       (simp_all add: publish_next_def flush_once_def)
qed

section \<open>Properties\<close>

text \<open>C35. No update is lost or overtaken by the flush task: however submissions, ticks and single publish calls of the one
  background task are interleaved, at every moment what was published for a key, overlaid with what the task still
  holds of its batch and with what is pending, is the last payload submitted for that key; so once the task is idle and nothing is
  pending, the last payload published for every key is the last one submitted.\<close>

theorem flush_task_keeps_latest:
  assumes "co_pending c0 = Map.empty" and "co_sink c0 = []"
    and "(flush_step noop_publish 1)\<^sup>*\<^sup>* (c0, no_batch, []) (c, hands, subs)"
  shows "map_of (rev (co_sink c)) ++ map_of (hands 0) ++ co_pending c = map_of (rev subs) \<and>
         (hands 0 = [] \<and> co_pending c = Map.empty \<longrightarrow> map_of (rev (co_sink c)) = map_of (rev subs))"
  using run_latest [OF assms] by auto

theorem flush_task_keeps_latest_witness:
  "map_of (rev (co_sink (flush_once noop_publish [PublishKey_new K_Quote ''A'']
     (submit noop_publish (PublishKey_new K_Quote ''A'') ''1'' (Coalescer_new []))))) = [PublishKey_new K_Quote ''A'' \<mapsto> ''1'']"
proof -
  have "pk_kind (PublishKey_new K_Quote ''A'') = K_Quote" by (simp add: PublishKey_new_def)
  from flush_task_keeps_latest [OF _ _ one_quote_run [OF this, of "''1''"]] show ?thesis
    by (simp add: Coalescer_new_def no_batch_def flush_once_def)
qed

end
