(* ===== verification/Snapshot_Store.thy ===== *)
theory Snapshot_Store
  imports Coalescer_Task
begin

text \<open>
  What the publisher of \<^verbatim>\<open>crates/fanout/src/publisher.rs\<close> leaves in Redis when it runs behind the coalescer and its flush
  task. Redis is a parameter: \<open>rset\<close> is its \<open>SET\<close> with the optional \<open>EX\<close>, and two observations of its state are
  used, what is stored under a key (with the time to live it was given) and whether the last \<open>SET\<close> of the key was
  answered with success. A \<open>SET\<close> that fails may or may not have taken effect; the publisher reports the error and
  nobody acts on it.
\<close>

section \<open>Redis\<close>

type_synonym 'r redis_set = "bytes \<Rightarrow> bytes \<Rightarrow> u64 option \<Rightarrow> 'r \<Rightarrow> (string + unit) \<times> 'r"

definition redis_laws :: "'r redis_set \<Rightarrow> ('r \<Rightarrow> bytes \<rightharpoonup> bytes \<times> u64 option) \<Rightarrow> ('r \<Rightarrow> bytes \<Rightarrow> bool) \<Rightarrow> bool" where
  "redis_laws rset stored clean \<longleftrightarrow> (\<forall>k x ttl r res r'. rset k x ttl r = (res, r') \<longrightarrow>
     (\<forall>k'. k' \<noteq> k \<longrightarrow> stored r' k' = stored r k' \<and> clean r' k' = clean r k') \<and>
     (case res of
        Inr _ \<Rightarrow> stored r' k = Some (x, ttl) \<and> clean r' k
      | Inl e \<Rightarrow> (stored r' k = stored r k \<or> stored r' k = Some (x, ttl)) \<and> \<not> clean r' k))"

text \<open>What a \<open>GET\<close> finds: a value with a time to live is gone once that has passed, a value without one stays.\<close>

definition live :: "(bytes \<Rightarrow> bool) \<Rightarrow> (bytes \<rightharpoonup> bytes \<times> u64 option) \<Rightarrow> bytes \<Rightarrow> bytes option" where
  "live expired m k =
     (case m k of None \<Rightarrow> None | Some (x, ttl) \<Rightarrow> if ttl \<noteq> None \<and> expired k then None else Some x)"

section \<open>The sink is the fold of its calls\<close>

definition sink_after :: "'s sink \<Rightarrow> (PublishKey \<times> bytes) list \<Rightarrow> 's \<Rightarrow> 's" where
  "sink_after publish calls s = fold (\<lambda>(k, x) s. snd (publish k x s)) calls s"

text \<open>The coalescer of any sink, from the coalescer that records its calls.\<close>

definition replay_calls :: "'s sink \<Rightarrow> 's \<Rightarrow> NoopSink Coalescer \<Rightarrow> 's Coalescer" where
  "replay_calls publish s d =
     \<lparr>co_sink = sink_after publish (co_sink d) s, co_pending = co_pending d, co_quote_window = co_quote_window d,
      co_book_window = co_book_window d, co_trade_window = co_trade_window d\<rparr>"

definition recording :: "'s Coalescer \<Rightarrow> NoopSink Coalescer" where
  "recording c =
     \<lparr>co_sink = [], co_pending = co_pending c, co_quote_window = co_quote_window c,
      co_book_window = co_book_window c, co_trade_window = co_trade_window c\<rparr>"

lemma replay_recording: "replay_calls publish (co_sink c) (recording c) = c"
  by (simp add: replay_calls_def recording_def sink_after_def)

lemma replay_calls_simps [simp]:
  "co_pending (replay_calls publish s d) = co_pending d"
  "co_sink (replay_calls publish s d) = sink_after publish (co_sink d) s"
  "window_for (replay_calls publish s d) k = window_for d k"
  "drain_order order (replay_calls publish s d) = drain_order order d"
  by (simp_all add: replay_calls_def window_for_def drain_order_def split: Kind.split)

lemma replay_calls_ops:
  "submit publish k x (replay_calls publish s d) = replay_calls publish s (submit noop_publish k x d)"
  "publish_next publish p (replay_calls publish s d) = replay_calls publish s (publish_next noop_publish p d)"
  "take_pending order (replay_calls publish s d) =
     map_prod (\<lambda>b. b) (replay_calls publish s) (take_pending order d)"
  by (simp_all add: submit_def publish_next_def take_pending_def replay_calls_def sink_after_def window_for_def
      split_beta split: Kind.split)

text \<open>Every step with a sink is a step of the recorder.\<close>

lemma flush_step_recorded:
  assumes "flush_step publish n (replay_calls publish s d, hands, subs) t"
  shows "\<exists>d' hands' subs'. t = (replay_calls publish s d', hands', subs') \<and>
    flush_step noop_publish n (d, hands, subs) (d', hands', subs')"
  using assms
proof (cases rule: flush_step.cases)
  case (submit k x)
  then show ?thesis using flush_step.submit [of noop_publish n d hands subs k x] by (auto simp: replay_calls_ops)
next
  case (taken i order batch c')
  obtain d' where d': "take_pending order d = (batch, d')" "c' = replay_calls publish s d'"
    using taken by (cases "take_pending order d") (auto simp: replay_calls_ops)
  with taken flush_step.taken [of i n hands order d batch d' noop_publish subs] show ?thesis by auto
next
  case (send i p rest)
  then show ?thesis using flush_step.send [of i n hands p rest noop_publish d subs] by (auto simp: replay_calls_ops)
qed

lemma flush_run_recorded:
  assumes "(flush_step publish n)\<^sup>*\<^sup>* (c0, hands0, subs0) (c, hands, subs)"
  shows "\<exists>d. c = replay_calls publish (co_sink c0) d \<and>
    (flush_step noop_publish n)\<^sup>*\<^sup>* (recording c0, hands0, subs0) (d, hands, subs)"
  using assms
proof (induction "(c, hands, subs)" arbitrary: c hands subs rule: rtranclp_induct)
  case base
  then show ?case using replay_recording [of publish c0] by (intro exI [of _ "recording c0"]) simp
next
  case (step u)
  obtain c1 hands1 subs1 where u: "u = (c1, hands1, subs1)" by (cases u)
  from step(3) [OF u] obtain d1 where d1: "c1 = replay_calls publish (co_sink c0) d1"
    "(flush_step noop_publish n)\<^sup>*\<^sup>* (recording c0, hands0, subs0) (d1, hands1, subs1)" by blast
  from step(2) u d1(1) flush_step_recorded [of publish n "co_sink c0" d1 hands1 subs1] obtain d where
    "c = replay_calls publish (co_sink c0) d" "flush_step noop_publish n (d1, hands1, subs1) (d, hands, subs)" by blast
  with d1(2) show ?case by (blast intro: rtranclp.rtrancl_into_rtrancl)
qed

section \<open>Only submissions are published\<close>

definition all_submitted :: "NoopSink fan \<Rightarrow> bool" where
  "all_submitted = (\<lambda>(c, hands, subs).
     set (co_sink c) \<subseteq> set subs \<and> (\<forall>i. set (hands i) \<subseteq> set subs) \<and> (\<forall>k x. co_pending c k = Some x \<longrightarrow> (k, x) \<in> set subs))"

lemma all_submitted_step:
  assumes "flush_step noop_publish n s t" and "all_submitted s"
  shows "all_submitted t"
  using assms
proof (cases rule: flush_step.cases)
  case (submit c hands subs k x)
  with assms(2) show ?thesis by (auto simp: all_submitted_def Fanout.submit_def split: if_splits)
next
  case (taken i hands order c batch c' subs)
  then have "set batch \<subseteq> set subs" using assms(2) by (force simp: all_submitted_def take_pending_def drain_order_def)
  with taken assms(2) show ?thesis by (auto simp: all_submitted_def take_pending_def)
next
  case (send i hands p rest c subs)
  have sub: "set (co_sink c) \<subseteq> set subs" "\<forall>i. set (hands i) \<subseteq> set subs"
    "\<forall>k x. co_pending c k = Some x \<longrightarrow> (k, x) \<in> set subs"
    using assms(2) send(1) by (simp_all add: all_submitted_def)
  from sub(2) have "set (hands i) \<subseteq> set subs" by blast
  then have "p \<in> set subs" "set rest \<subseteq> set subs" using send(4) by simp_all
  with sub show ?thesis by (simp add: send(2) all_submitted_def publish_next_def split_beta)
qed

interpretation submitted: step_invariant "flush_step noop_publish n" all_submitted for n
  by unfold_locales (rule all_submitted_step)

section \<open>What the publisher leaves in Redis\<close>

definition redis_after :: "('n, 'r) FanoutPublisher \<Rightarrow> (PublishKey \<times> bytes) list \<Rightarrow> 'r \<Rightarrow> 'r" where
  "redis_after P calls r =
     fold (\<lambda>(k, x) r. snd (fp_redis_set P (redis_key k) x (fp_snapshot_ttl_seconds P) r)) calls r"

lemma publisher_redis:
  "snd (snd (publisher_publish P k x (n, r))) = snd (fp_redis_set P (redis_key k) x (fp_snapshot_ttl_seconds P) r)"
  by (simp add: publisher_publish_def split: prod.split sum.split)

lemma sink_after_publisher: "snd (sink_after (publisher_publish P) calls s) = redis_after P calls (snd s)"
proof (induction calls arbitrary: s)
  case (Cons c calls)
  obtain k x n r where c: "c = (k, x)" "s = (n, r)" by (cases c; cases s)
  with Cons [of "snd (publisher_publish P k x s)"] show ?case
    by (simp add: sink_after_def redis_after_def publisher_redis)
qed (simp add: sink_after_def redis_after_def)

text \<open>What is stored under a key, if it holds one of the payloads given for it or nothing, and if after a \<open>clean\<close> answer it holds the last
  payload, with the configured time to live.\<close>

definition holds :: "u64 option \<Rightarrow> PublishKey \<Rightarrow> (PublishKey \<times> bytes) list \<Rightarrow> (bytes \<times> u64 option) option \<Rightarrow> bool \<Rightarrow> bool" where
  "holds ttl key calls v ok \<longleftrightarrow>
     (v = None \<or> (\<exists>x. v = Some (x, ttl) \<and> (key, x) \<in> set calls)) \<and>
     (ok \<longrightarrow> v = map_option (\<lambda>x. (x, ttl)) (map_of (rev calls) key))"

lemma holds_more:
  assumes "holds ttl key calls v ok"
  shows "k \<noteq> key \<Longrightarrow> holds ttl key (calls @ [(k, x)]) v ok"
    and "holds ttl key (calls @ [(key, x)]) (Some (x, ttl)) ok'"
    and "holds ttl key (calls @ [(key, x)]) v False"
  using assms by (auto simp: holds_def)

lemma holds_subset:
  "\<lbrakk>holds ttl key calls v ok; set calls \<subseteq> set subs; map_of (rev calls) = map_of (rev subs)\<rbrakk> \<Longrightarrow> holds ttl key subs v ok"
  by (auto simp: holds_def)

lemma redis_after_holds:
  assumes "redis_laws (fp_redis_set P) stored clean" and "stored r = Map.empty"
    and "\<forall>k \<in> fst ` set calls. utf8_valid (pk_ticker k)" and "utf8_valid (pk_ticker key)"
  shows "holds (fp_snapshot_ttl_seconds P) key calls (stored (redis_after P calls r) (redis_key key))
           (clean (redis_after P calls r) (redis_key key))"
  using assms(3)
proof (induction calls rule: rev_induct)
  case Nil
  then show ?case using assms(2) by (simp add: redis_after_def holds_def)
next
  case (snoc c calls)
  obtain k x where c: "c = (k, x)" by (cases c)
  let ?r = "redis_after P calls r"
  obtain res r' where rset: "fp_redis_set P (redis_key k) x (fp_snapshot_ttl_seconds P) ?r = (res, r')" by (metis surj_pair)
  have after: "redis_after P (calls @ [(k, x)]) r = r'" using rset by (simp add: redis_after_def)
  have key: "redis_key k = redis_key key \<longleftrightarrow> k = key" using snoc.prems c assms(4) redis_key_inj by simp
  note law = assms(1) [unfolded redis_laws_def, rule_format, OF rset]
  have IH: "holds (fp_snapshot_ttl_seconds P) key calls (stored ?r (redis_key key)) (clean ?r (redis_key key))"
    using snoc by simp
  show ?case
  proof (cases "k = key")
    case True
    with law holds_more(2,3) [OF IH] show ?thesis unfolding c after by (auto split: sum.splits)
  next
    case False
    with key law have "stored r' (redis_key key) = stored ?r (redis_key key)" "clean r' (redis_key key) = clean ?r (redis_key key)"
      by auto
    with holds_more(1) [OF IH False] show ?thesis unfolding c after by simp
  qed
qed

text \<open>The state of Redis after a run of the flush task that has come to rest.\<close>

lemma run_holds:
  assumes "redis_laws (fp_redis_set P) stored clean"
    and "co_pending c0 = Map.empty" and "co_sink c0 = (n0, r0)" and "stored r0 = Map.empty"
    and "(flush_step (publisher_publish P) 1)\<^sup>*\<^sup>* (c0, no_batch, []) (c, hands, subs)"
    and "hands 0 = []" and "co_pending c = Map.empty" and "co_sink c = (n, r)"
    and "\<forall>(k, x) \<in> set subs. utf8_valid (pk_ticker k)" and "utf8_valid (pk_ticker key)"
  shows "holds (fp_snapshot_ttl_seconds P) key subs (stored r (redis_key key)) (clean r (redis_key key))"
proof -
  obtain d where d: "c = replay_calls (publisher_publish P) (co_sink c0) d"
    "(flush_step noop_publish 1)\<^sup>*\<^sup>* (recording c0, no_batch, []) (d, hands, subs)"
    using flush_run_recorded [OF assms(5)] by blast
  have start: "co_pending (recording c0) = Map.empty" "co_sink (recording c0) = []"
    using assms(2) by (simp_all add: recording_def)
  have latest: "map_of (rev (co_sink d)) = map_of (rev subs)"
    using run_latest [OF start d(2)] assms(6,7) d(1) by simp
  have "all_submitted (recording c0, no_batch, [])" using start by (simp add: all_submitted_def no_batch_def)
  from submitted.inv_reachable [OF d(2) this] have sub: "set (co_sink d) \<subseteq> set subs" by (simp add: all_submitted_def)
  have r: "r = redis_after P (co_sink d) r0"
    using d(1) assms(3,8) sink_after_publisher [of P "co_sink d" "co_sink c0"] by simp
  have "\<forall>k \<in> fst ` set (co_sink d). utf8_valid (pk_ticker k)" using sub assms(9) by fastforce
  from redis_after_holds [OF assms(1,4) this assms(10)] show ?thesis
    unfolding r by (rule holds_subset [OF _ sub latest])
qed

section \<open>Submissions and one flush as a run\<close>

lemma submit_all_steps:
  "(flush_step publish n)\<^sup>*\<^sup>* (c, hands, subs) (submit_all publish xs c, hands, subs @ xs)"
proof (induction xs arbitrary: c subs)
  case (Cons s xs)
  obtain k x where s: "s = (k, x)" by (cases s)
  have "flush_step publish n (c, hands, subs) (submit publish k x c, hands, subs @ [s])"
    using flush_step.submit [of publish n c hands subs k x] s by simp
  with Cons [of "submit publish k x c" "subs @ [s]"] s show ?case
    by (simp add: submit_all_def converse_rtranclp_into_rtranclp)
qed (simp add: submit_all_def)

lemma submit_flush_run:
  assumes "drain_order order (submit_all publish subs c)"
  shows "(flush_step publish 1)\<^sup>*\<^sup>* (c, no_batch, []) (flush_once publish order (submit_all publish subs c), no_batch, subs)"
  using submit_all_steps [of publish 1 c no_batch "[]" subs]
    flush_once_steps [of 0 1 no_batch order "submit_all publish subs c" publish subs] assms
  by (simp add: no_batch_def rtranclp_trans)

text \<open>A Redis that keeps what it is given, for examples.\<close>

definition demo_set :: "(bytes \<rightharpoonup> bytes \<times> u64 option) redis_set" where
  "demo_set k x ttl m = (Inr (), m(k \<mapsto> (x, ttl)))"

definition demo_publisher :: "u64 option \<Rightarrow> (unit, bytes \<rightharpoonup> bytes \<times> u64 option) FanoutPublisher" where
  "demo_publisher ttl = \<lparr>fp_nats = (\<lambda>s x n. (Inl ''no responders'', n)), fp_redis_set = demo_set, fp_snapshot_ttl_seconds = ttl\<rparr>"

lemma demo_redis_laws: "redis_laws demo_set (\<lambda>m. m) (\<lambda>m k. True)"
  by (simp add: redis_laws_def demo_set_def)

end
