(* ===== verification/Ingest.thy ===== *)
theory Ingest
  imports Pipeline Runtime_Config
begin

text \<open>
  The reader, the bounded channel and the workers together: \<open>send_frame\<close> of \<^verbatim>\<open>crates/cedro-client/src/reader.rs\<close>,
  \<open>Reader::spawn\<close> with its channel, and \<open>spawn_workers\<close> of \<^verbatim>\<open>bin/ingest-daemon/src/pipeline.rs\<close>. A configuration is the
  frames the reader still has to send, the channel, the hands of the workers and the pipeline. The reader sends only while the
  channel has room; a full channel makes it wait. Hiding the channel gives the pool of workers on one
  list of frames, so the facts about the pool carry over.
\<close>

section \<open>Steps\<close>

type_synonym ('dt, 'db, 's, 'c) ingest =
  "frame list \<times> frame list \<times> (nat \<Rightarrow> frame option) \<times> ('dt, 'db, 's, 'c) Pipeline"

inductive ingest_step :: "nat \<Rightarrow> nat \<Rightarrow> ('dt, 'dec, 'db, 's, 'c) pipeline_env \<Rightarrow>
    ('dt, 'db, 's, 'c) ingest \<Rightarrow> ('dt, 'db, 's, 'c) ingest \<Rightarrow> bool" for cap n env where
  send: "length chan < cap \<Longrightarrow> ingest_step cap n env (f # todo, chan, hands, p) (todo, chan @ [f], hands, p)"
| recv: "\<lbrakk>w < n; hands w = None\<rbrakk> \<Longrightarrow>
    ingest_step cap n env (todo, f # chan, hands, p) (todo, chan, hands(w := Some f), p)"
| work: "\<lbrakk>w < n; hands w = Some f\<rbrakk> \<Longrightarrow>
    ingest_step cap n env (todo, chan, hands, p) (todo, chan, hands(w := None), work_frame env now f p)"

inductive_cases ingest_stepE: "ingest_step cap n env s t"

section \<open>The pool behind the channel\<close>

definition hide_channel :: "('dt, 'db, 's, 'c) ingest \<Rightarrow> ('dt, 'db, 's, 'c) pool" where
  "hide_channel = (\<lambda>(todo, chan, hands, p). (chan @ todo, hands, p))"

lemma ingest_simulates_pool:
  "ingest_step cap n env s t \<Longrightarrow> hide_channel t = hide_channel s \<or> pool_step n env (hide_channel s) (hide_channel t)"
  by (induction rule: ingest_step.induct) (auto simp: hide_channel_def intro: pool_step.intros)

interpretation ingest_pool: stuttering_simulation "ingest_step cap n env" "pool_step n env" hide_channel for cap n env
  by unfold_locales (rule ingest_simulates_pool)

section \<open>Capacity and termination\<close>

definition within_capacity :: "nat \<Rightarrow> nat \<Rightarrow> ('dt, 'db, 's, 'c) ingest \<Rightarrow> bool" where
  "within_capacity cap n = (\<lambda>(todo, chan, hands, p). length chan \<le> cap \<and> (\<forall>w \<ge> n. hands w = None))"

text \<open>A frame not yet sent is three steps from done, one in the channel two, one in hand one.\<close>

definition steps_left :: "nat \<Rightarrow> ('dt, 'db, 's, 'c) ingest \<Rightarrow> nat" where
  "steps_left n = (\<lambda>(todo, chan, hands, p). length todo + work_left n (hide_channel (todo, chan, hands, p)))"

lemma within_capacity_step: "ingest_step cap n env s t \<Longrightarrow> within_capacity cap n s \<Longrightarrow> within_capacity cap n t"
  by (induction rule: ingest_step.induct) (auto simp: within_capacity_def)

lemma steps_left_step: "ingest_step cap n env s t \<Longrightarrow> steps_left n t < steps_left n s"
proof (induction rule: ingest_step.induct)
  case (send chan f todo hands p)
  then show ?case by (simp add: steps_left_def hide_channel_def)
next
  case (recv w hands todo f chan p)
  then have "work_left n (chan @ todo, hands(w := Some f), p) < work_left n (f # chan @ todo, hands, p)"
    by (intro work_left_step [where env = env] pool_step.recv)
  then show ?case by (simp add: steps_left_def hide_channel_def)
next
  case (work w hands f todo chan p now)
  then have "work_left n (chan @ todo, hands(w := None), work_frame env now f p) < work_left n (chan @ todo, hands, p)"
    by (intro work_left_step [where env = env] pool_step.work)
  then show ?case by (simp add: steps_left_def hide_channel_def)
qed

interpretation ingest: terminating_steps "ingest_step cap n env" "within_capacity cap n" "steps_left n" for cap n env
  by unfold_locales (rule within_capacity_step steps_left_step, assumption+)+

text \<open>With room in the channel and a worker at all, nothing waits for ever.\<close>

lemma ingest_stuck:
  assumes "cap \<noteq> 0" and "n \<noteq> 0" and "within_capacity cap n (todo, chan, hands, p)"
    and "\<nexists>u. ingest_step cap n env (todo, chan, hands, p) u"
  shows "todo = [] \<and> chan = [] \<and> hands = idle"
proof -
  have none: "hands w = None" for w
  proof (rule ccontr)
    assume "hands w \<noteq> None"
    then obtain f where f: "hands w = Some f" by blast
    then have "w < n" using assms(3) by (cases "w < n") (auto simp: within_capacity_def)
    from ingest_step.work [of w n hands f cap env todo chan p undefined, OF this f] assms(4) show False by blast
  qed
  have "chan = []"
    using assms(2,4) none ingest_step.recv [of 0 n hands cap env] by (cases chan) blast+
  moreover from this have "todo = []"
    using assms(1,4) ingest_step.send [of chan cap n env "hd todo" "tl todo" hands p] by (cases todo) auto
  ultimately show ?thesis using none by (auto simp: idle_def)
qed

text \<open>One schedule that always works: frame by frame.\<close>

lemma ingest_one_frame:
  assumes "0 < cap" and "0 < n"
  shows "(ingest_step cap n env ^^ 3) (f # fs, [], idle, p) (fs, [], idle, work_frame env now f p)"
proof -
  have "ingest_step cap n env (f # fs, [], idle, p) (fs, [f], idle, p)"
    using ingest_step.send [of "[]" cap n env f fs idle p] assms by simp
  moreover have "ingest_step cap n env (fs, [f], idle, p) (fs, [], idle(0 := Some f), p)"
    by (rule ingest_step.recv) (use assms in \<open>simp_all add: idle_def\<close>)
  moreover have "ingest_step cap n env (fs, [], idle(0 := Some f), p) (fs, [], idle, work_frame env now f p)"
    using ingest_step.work [of 0 n "idle(0 := Some f)" f cap env fs "[]" p now] assms
    by (simp add: idle_def fun_upd_idem)
  ultimately show ?thesis by (auto simp: numeral_3_eq_3)
qed

lemma ingest_frame_by_frame:
  assumes "0 < cap" and "0 < n" and "length clocks = length fs"
  shows "(ingest_step cap n env)\<^sup>*\<^sup>* (fs, [], idle, p) ([], [], idle, worker_loop env (zip clocks fs) p)"
  using assms(3)
proof (induction clocks fs arbitrary: p rule: list_induct2)
  case (Cons now clocks f fs)
  have "(ingest_step cap n env)\<^sup>*\<^sup>* (f # fs, [], idle, p) (fs, [], idle, work_frame env now f p)"
    by (rule relpowp_imp_rtranclp [OF ingest_one_frame [OF assms(1,2)]])
  from rtranclp_trans [OF this Cons.IH [of "work_frame env now f p"]] show ?case by (simp add: worker_loop_def)
qed (simp add: worker_loop_def)

text \<open>Without workers nothing is dispatched, and the reader stops for good once the channel is full.\<close>

lemma no_workers_stall:
  assumes "(ingest_step cap 0 env)\<^sup>*\<^sup>* (fs, [], idle, p) (todo, chan, hands, q)"
  shows "q = p \<and> chan @ todo = fs \<and> length chan \<le> cap"
proof -
  have "(pool_step 0 env)\<^sup>*\<^sup>* (fs, idle, p) (chan @ todo, hands, q)"
    using ingest_pool.run_simulated [OF assms] by (simp add: hide_channel_def)
  then have "(chan @ todo, hands, q) = (fs, idle, p)"
    by (cases rule: converse_rtranclpE) (auto elim: pool_stepE)
  moreover have "within_capacity cap 0 (todo, chan, hands, q)"
    using ingest.inv_reachable [OF assms] by (simp add: within_capacity_def idle_def)
  ultimately show ?thesis by (simp add: within_capacity_def)
qed

section \<open>Properties\<close>

text \<open>C15. The ingest never gets stuck: with a configuration the check accepts and at least one worker, whatever the number of
  workers and the scheduling of reader and workers, the channel never exceeds its capacity, a run on \<open>k\<close> frames
  makes at most \<open>3 * k\<close> steps, and when no step is left every frame has been sent, received and dispatched exactly
  once, in some order; with one worker in the order in which the reader sent them.\<close>

theorem ingest_completes:
  assumes "validate config = Inr ()" and "cap = cc_frame_channel_capacity config" and "n \<noteq> 0"
    and "(ingest_step cap n env ^^ m) (fs, [], idle, p) (todo, chan, hands, q)"
  shows "length chan \<le> cap \<and> m \<le> 3 * length fs \<and>
    ((\<exists>u. ingest_step cap n env (todo, chan, hands, q) u) \<or>
     todo = [] \<and> chan = [] \<and> hands = idle \<and>
     (\<exists>gs clocks. mset gs = mset fs \<and> (n = 1 \<longrightarrow> gs = fs) \<and> length clocks = length gs \<and> q = worker_loop env (zip clocks gs) p))"
proof -
  have reach: "(ingest_step cap n env)\<^sup>*\<^sup>* (fs, [], idle, p) (todo, chan, hands, q)"
    using assms(4) by (rule relpowp_imp_rtranclp)
  have start: "within_capacity cap n (fs, [], idle, p)" by (simp add: within_capacity_def idle_def)
  have inv: "within_capacity cap n (todo, chan, hands, q)" using ingest.inv_reachable [OF reach start] .
  have bound: "m \<le> 3 * length fs"
    using ingest.run_bound [OF assms(4) start] by (simp add: steps_left_def work_left_def hide_channel_def idle_def)
  have done_all: "\<exists>gs clocks. mset gs = mset fs \<and> (n = 1 \<longrightarrow> gs = fs) \<and> length clocks = length gs \<and> q = worker_loop env (zip clocks gs) p"
    if stuck: "todo = [] \<and> chan = [] \<and> hands = idle"
  proof -
    have pool: "(pool_step n env)\<^sup>*\<^sup>* (fs, idle, p) ([], idle, q)"
      using ingest_pool.run_simulated [OF reach] stuck by (simp add: hide_channel_def)
    show ?thesis
    proof (cases "n = 1")
      case True
      with one_worker_in_order [of env fs p q] pool show ?thesis by auto
    next
      case False
      have "all_accounted n env fs p (fs, idle, p)" by (auto simp: all_accounted_def worker_loop_def)
      from accounted.inv_reachable [OF pool this] False show ?thesis by (auto simp: all_accounted_def)
    qed
  qed
  have "cap \<noteq> 0" using assms(1,2) by (auto simp: validate_def split: if_splits)
  note settled = ingest_stuck [OF this assms(3) inv, of env]
  have "length chan \<le> cap" using inv by (simp add: within_capacity_def)
  with bound done_all settled show ?thesis by blast
qed

theorem ingest_completes_witness:
  "\<exists>gs clocks. mset gs = mset [(Bang, ''T:PETR4:101758'')] \<and> length clocks = length gs \<and>
     work_frame demo_env 7 (Bang, ''T:PETR4:101758'') demo_pipeline = worker_loop demo_env (zip clocks gs) demo_pipeline"
proof -
  let ?f = "(Bang, ''T:PETR4:101758'')" and ?c = "ConnectionConfig_new ''127.0.0.1'' ''u'' ''p''"
  let ?step = "ingest_step (cc_frame_channel_capacity ?c) 8 demo_env"
  let ?q = "work_frame demo_env 7 ?f demo_pipeline"
  have run: "(?step ^^ 3) ([?f], [], idle, demo_pipeline) ([], [], idle, ?q)"
    by (rule ingest_one_frame) (simp_all add: ConnectionConfig_new_def)
  have stuck: "\<not> ?step ([], [], idle, ?q) u" for u
    by (auto simp: idle_def elim: ingest_stepE)
  have "validate ?c = Inr ()" using validate_exact [of _ "''127.0.0.1''" "''u''" "''p''"] by simp
  from ingest_completes [OF this refl _ run] stuck show ?thesis by auto
qed

end
