(* ===== verification/Exit.thy ===== *)
theory Exit
  imports Pipeline
begin

text \<open>
  The end of the ingest daemon seen from the pipeline: the tail of \<open>main\<close> in \<^verbatim>\<open>bin/ingest-daemon/src/main.rs\<close> and
  the blocking workers of \<^verbatim>\<open>pipeline.rs\<close>. \<open>main\<close> flushes the pipeline, joins the reader and returns; the runtime then
  goes down and waits for the blocking workers. A worker ends only when the channel is
  closed and empty, so it dispatches whatever is left. In which phases the runtime still runs its tasks is a
  parameter; tokio documents that a runtime which has been shut down runs none. What the threads of the reader do
  meanwhile is in \<open>Lifecycle\<close>; here frames just arrive until the reader is joined.
\<close>

section \<open>Phases\<close>

datatype exit_phase = Serving | FinalFlushed | ReaderJoined | RuntimeDown

type_synonym ('dt, 'db, 's, 'c) exiting = "exit_phase \<times> ('dt, 'db, 's, 'c) pool"

inductive exit_step :: "(exit_phase \<Rightarrow> bool) \<Rightarrow> nat \<Rightarrow> ('dt, 'dec, 'db, 's, 'c) pipeline_env \<Rightarrow>
    ('dt, 'db, 's, 'c) exiting \<Rightarrow> ('dt, 'db, 's, 'c) exiting \<Rightarrow> bool" for runs n env where
  worker: "pool_step n env s t \<Longrightarrow> exit_step runs n env (ph, s) (ph, t)"
| arrive: "ph \<in> {Serving, FinalFlushed} \<Longrightarrow> exit_step runs n env (ph, fs, hands, p) (ph, fs @ [f], hands, p)"
| task: "\<lbrakk>runs ph; pl_tasks p = xs @ t # ys\<rbrakk> \<Longrightarrow>
    exit_step runs n env (ph, fs, hands, p) (ph, fs, hands, run_task env t (p\<lparr>pl_tasks := xs @ ys\<rparr>))"
| tick: "ph = Serving \<Longrightarrow> exit_step runs n env (ph, fs, hands, p) (ph, fs, hands, flush_timer_tick env p)"
| fan: "\<lbrakk>runs ph; drain_order order (pl_fanout p)\<rbrakk> \<Longrightarrow>
    exit_step runs n env (ph, fs, hands, p) (ph, fs, hands, p\<lparr>pl_fanout := flush_once (pe_publish env) order (pl_fanout p)\<rparr>)"
| final_flush: "drain_order order (pl_fanout p) \<Longrightarrow>
    exit_step runs n env (Serving, fs, hands, p) (FinalFlushed, fs, hands, snd (flush_all env order p))"
| joined: "exit_step runs n env (FinalFlushed, s) (ReaderJoined, s)"
| down: "exit_step runs n env (ReaderJoined, s) (RuntimeDown, s)"

inductive_cases exit_stepE: "exit_step runs n env s t"

section \<open>Lemmas\<close>

text \<open>Dispatching leaves the fan-out to the tasks, and the final flush leaves the quotes alone.\<close>

lemma dispatch_fanout: "pl_fanout (dispatch env now m p) = pl_fanout p"
  by (cases "(env, now, m, p)" rule: dispatch.cases)
     (auto simp: spawn_fanout_def persist_trade_def spawn_persist_def Let_def split: option.split)

lemma work_frame_fanout: "pl_fanout (work_frame env now f p) = pl_fanout p"
  by (simp add: work_frame_def Let_def dispatch_fanout split: sum.split)

lemma flush_all_quote: "pl_quote (snd (flush_all env order p)) = pl_quote p"
  by (simp add: flush_all_def split: option.split prod.split sum.split)

lemma work_frame_quote:
  assumes "parse_frame k f = Inr (PM_Quote t time diff)"
  shows "pl_quote (work_frame env now (k, f) p) = snd (quote_apply t time diff (pl_quote p))"
  using worker_loop_engines(2) [of env "[(now, k, f)]" p] assms
  by (simp add: worker_loop_def parsed_def run_keyed_def)

text \<open>At the end nothing moves any more.\<close>

lemma exit_ended: "\<not> runs RuntimeDown \<Longrightarrow> \<not> exit_step runs n env (RuntimeDown, [], idle, q) u"
  by (auto simp: idle_def elim!: exit_stepE pool_stepE)

text \<open>The workers go on after the runtime is down.\<close>

lemma drain_one:
  assumes "0 < n"
  shows "(exit_step runs n env)\<^sup>*\<^sup>* (ph, [f], idle, p) (ph, [], idle, work_frame env now f p)"
proof -
  have "pool_step n env ([f], idle, p) ([], idle(0 := Some f), p)"
    by (rule pool_step.recv) (use assms in \<open>simp_all add: idle_def\<close>)
  moreover have "pool_step n env ([], idle(0 := Some f), p) ([], idle, work_frame env now f p)"
    using pool_step.work [of 0 n "idle(0 := Some f)" f env "[]" p now] assms by (simp add: idle_def)
  ultimately show ?thesis
    by (blast intro: exit_step.worker converse_rtranclp_into_rtranclp)
qed

section \<open>Properties\<close>

text \<open>C16. The final flush comes too early: whatever the daemon did so far, if nothing waits in the coalescer, there is a run on which a
  quote arrives and is still in the channel when the final flush has already been made; a worker then
  dispatches it, the quote engine takes it, and the process comes to its end, where nothing can move any more, with the
  fan-out as the final flush left it, so neither NATS nor Redis has seen that quote. The only assumption is that a
  runtime that is down runs no tasks, and that there is a worker.\<close>

theorem final_flush_misses_quote:
  assumes "0 < n" and "\<not> runs RuntimeDown" and "co_pending (pl_fanout p0) = Map.empty"
    and "parse_frame k f = Inr (PM_Quote t time diff)"
  shows "\<exists>p1 q. (exit_step runs n env)\<^sup>*\<^sup>* (Serving, [], idle, p0) (FinalFlushed, [(k, f)], idle, p1) \<and>
    (exit_step runs n env)\<^sup>*\<^sup>* (FinalFlushed, [(k, f)], idle, p1) (RuntimeDown, [], idle, q) \<and>
    (\<nexists>u. exit_step runs n env (RuntimeDown, [], idle, q) u) \<and>
    pl_quote q = snd (quote_apply t time diff (pl_quote p0)) \<and> pl_fanout q = pl_fanout p1"
proof -
  let ?step = "exit_step runs n env" and ?p1 = "snd (flush_all env [] p0)"
  let ?q = "work_frame env undefined (k, f) ?p1"
  have "?step (Serving, [], idle, p0) (Serving, [(k, f)], idle, p0)"
    using exit_step.arrive [of Serving runs n env "[]" idle p0 "(k, f)"] by simp
  moreover have "?step (Serving, [(k, f)], idle, p0) (FinalFlushed, [(k, f)], idle, ?p1)"
    by (rule exit_step.final_flush) (simp add: drain_order_def assms(3))
  ultimately have first: "?step\<^sup>*\<^sup>* (Serving, [], idle, p0) (FinalFlushed, [(k, f)], idle, ?p1)"
    by (blast intro: converse_rtranclp_into_rtranclp)
  have second: "?step\<^sup>*\<^sup>* (FinalFlushed, [(k, f)], idle, ?p1) (RuntimeDown, [], idle, ?q)"
    by (rule converse_rtranclp_into_rtranclp [OF exit_step.joined converse_rtranclp_into_rtranclp [OF exit_step.down
          drain_one [OF assms(1)]]])
  have "pl_quote ?q = snd (quote_apply t time diff (pl_quote p0))" "pl_fanout ?q = pl_fanout ?p1"
    by (simp_all add: work_frame_quote [OF assms(4)] flush_all_quote work_frame_fanout)
  moreover have "\<nexists>u. ?step (RuntimeDown, [], idle, ?q) u" using exit_ended [where runs = runs, OF assms(2)] by blast
  ultimately show ?thesis using first second by blast
qed

theorem final_flush_misses_quote_witness:
  "\<exists>p1 q. (exit_step (\<lambda>ph. ph \<noteq> RuntimeDown) 8 demo_env)\<^sup>*\<^sup>* (Serving, [], idle, build 4 100 [] () None)
       (FinalFlushed, [(Bang, ''T:PETR4:101758'')], idle, p1) \<and>
     (exit_step (\<lambda>ph. ph \<noteq> RuntimeDown) 8 demo_env)\<^sup>*\<^sup>* (FinalFlushed, [(Bang, ''T:PETR4:101758'')], idle, p1) (RuntimeDown, [], idle, q) \<and>
     pl_quote q \<noteq> pl_quote (build 4 100 [] () None :: (nat, nat, NoopSink, unit) Pipeline) \<and> pl_fanout q = pl_fanout p1"
proof -
  let ?p = "build 4 100 [] () None :: (nat, nat, NoopSink, unit) Pipeline"
  have parse: "parse_frame Bang ''T:PETR4:101758'' = Inr (PM_Quote ''PETR4'' 101758 [])"
    by (simp add: parse_frame_table frame_parsers_def sqt_parse_fields parse_u32_eq is_digit_def byte_in_def
        dec_value_def digit_val_def)
  have "co_pending (pl_fanout ?p) = Map.empty" by (simp add: build_def Coalescer_new_def)
  from final_flush_misses_quote [OF _ _ this parse, of 8 "\<lambda>ph. ph \<noteq> RuntimeDown" demo_env]
  obtain p1 q where run: "(exit_step (\<lambda>ph. ph \<noteq> RuntimeDown) 8 demo_env)\<^sup>*\<^sup>* (Serving, [], idle, ?p)
       (FinalFlushed, [(Bang, ''T:PETR4:101758'')], idle, p1)"
     "(exit_step (\<lambda>ph. ph \<noteq> RuntimeDown) 8 demo_env)\<^sup>*\<^sup>* (FinalFlushed, [(Bang, ''T:PETR4:101758'')], idle, p1) (RuntimeDown, [], idle, q)"
     "pl_quote q = snd (quote_apply ''PETR4'' 101758 [] (pl_quote ?p))" "pl_fanout q = pl_fanout p1"
    by auto
  have "pl_quote q ''PETR4'' \<noteq> pl_quote ?p ''PETR4''"
    by (simp add: run(3) quote_apply_def build_def QuoteEngine_new_def split: prod.split)
  with run show ?thesis by metis
qed

end
