(* ===== verification/Ws_Protocol.thy ===== *)
theory Ws_Protocol
  imports Api
begin

text \<open>
  \<^verbatim>\<open>crates/api-server/src/ws/protocol.rs\<close>: the messages of the WebSocket endpoint and the JSON values the
  derived serialisation gives for the server's. The attributes of the types say how: the variant's lower-case name goes into the
  field \<open>op\<close>, in front of the variant's own fields. A byte vector is an array of numbers, an absent ticker is null. How
  client messages are recognised is serde's and left out, as is the text of the JSON; no handler uses the messages yet.
\<close>

section \<open>Messages\<close>

datatype ClientMessage =
    CM_Sub SubscribeChannel bytes
  | CM_Unsub SubscribeChannel bytes
  | CM_Ping i64

datatype ServerMessage =
    SM_Snap SubscribeChannel bytes bytes
  | SM_Upd SubscribeChannel bytes bytes
  | SM_Pong i64
  | SM_Err string bytes "bytes option"

section \<open>As JSON values\<close>

datatype json = JNull | JInt int | JStr bytes | JArr "json list" | JObj "(string \<times> json) list"

definition channel_json :: "SubscribeChannel \<Rightarrow> json" where
  "channel_json c = JStr (SubscribeChannel_as_str c)"

definition data_json :: "bytes \<Rightarrow> json" where
  "data_json bs = JArr (map (\<lambda>b. JInt (int (of_char b))) bs)"

fun server_json :: "ServerMessage \<Rightarrow> json" where
  "server_json (SM_Snap channel ticker data) =
     JObj [(''op'', JStr ''snap''), (''channel'', channel_json channel), (''ticker'', JStr ticker), (''data'', data_json data)]"
| "server_json (SM_Upd channel ticker data) =
     JObj [(''op'', JStr ''upd''), (''channel'', channel_json channel), (''ticker'', JStr ticker), (''data'', data_json data)]"
| "server_json (SM_Pong ts) = JObj [(''op'', JStr ''pong''), (''ts'', JInt (sint ts))]"
| "server_json (SM_Err err_code message ticker) =
     JObj [(''op'', JStr ''err''), (''code'', JStr err_code), (''message'', JStr message),
           (''ticker'', case ticker of None \<Rightarrow> JNull | Some t \<Rightarrow> JStr t)]"

section \<open>Reading them back\<close>

lemma channel_json_inj: "channel_json c = channel_json d \<longleftrightarrow> c = d"
  by (cases c; cases d) (simp_all add: channel_json_def)

lemma data_json_inj: "data_json xs = data_json ys \<longleftrightarrow> xs = ys"
proof -
  have "inj (\<lambda>b :: char. JInt (int (of_char b)))" by (rule injI) simp
  from inj_map_eq_map [OF this, of xs ys] show ?thesis by (simp add: data_json_def)
qed

text \<open>Two messages never look the same, so a client loses nothing.\<close>

lemma server_json_inj: "server_json a = server_json b \<longleftrightarrow> a = b"
  by (cases a; cases b) (auto simp: channel_json_inj data_json_inj dest: signed_word_eqI split: option.splits)

end
