(* ===== verification/Spec2Isabelle.thy ===== *)
theory Spec2Isabelle
  imports Startup Snapshot_Store Ingest Exit Ws_Protocol
begin

text \<open>
  A model of the market data service, a Rust workspace that reads the stream of a data vendor from a TCP
  socket, keeps quotes, order books and recent trades per ticker, stores trades in a database behind a
  write-ahead log, archives the raw stream, fans updates out to NATS and Redis, and serves snapshots over
  HTTP.

  \<^bold>\<open>The path of a message.\<close> \<open>Connection::open\<close> validates the settings, tunes the socket and runs the handshake.
  The reader thread cuts the bytes into frames and puts them into a bounded channel. Workers take
  frames from the channel, copy them to the archive, parse and dispatch them: to the quote engine, the
  sharded book engine or the buffer of recent trades, then to the coalescer of the fan-out, and, for trades,
  to the log of the trade writer. The API server reads from Redis what the coalescer published.

  \<^bold>\<open>Theories and sources\<close> (paths under \<^verbatim>\<open>src/\<close>).
  \<^item> \<open>Prelude\<close>, \<open>F64\<close>: byte strings, result type, separators, machine integers, UTF-8 and the decimal reader
    of 64-bit floating point numbers; used by all other theories.
  \<^item> \<open>Pull_Loop\<close>, \<open>Keyed_Engine\<close>, \<open>Step_System\<close>: the interfaces, as locales (below).
  \<^item> \<open>Enums\<close>, \<open>Types\<close>, \<open>Frame\<close>: \<^verbatim>\<open>crates/cedro-protocol/src/{enums,types,frame}.rs\<close>.
  \<^item> \<open>Scanner\<close>, \<open>Parse_Quote\<close>, \<open>Parse_Book\<close>, \<open>Parse_Trade\<close>, \<open>Parse_Misc\<close>, \<open>Parser\<close>:
    \<^verbatim>\<open>crates/cedro-protocol/src/parser/\<close>, one parser per frame kind in a small error-and-state monad, and their
    dispatch.
  \<^item> \<open>Order_Book\<close>, \<open>Book_Engine\<close>, \<open>Quote_Engine\<close>, \<open>Trade_Buffer\<close>: \<^verbatim>\<open>crates/market-engine/src\<close>.
  \<^item> \<open>Wal\<close>, \<open>Staged_Trade\<close>, \<open>Trade_Writer\<close>, \<open>Asset_Cache\<close>: \<^verbatim>\<open>crates/persistence/src\<close>, with system calls that
    succeed; \<open>Log_Io\<close>: the log and the writer again, with every system call able to fail.
  \<^item> \<open>Fanout\<close>, \<open>Coalescer_Task\<close>: \<^verbatim>\<open>crates/fanout/src\<close>, the second with concurrent flushes; \<open>Snapshot_Store\<close>: what
    \<open>FanoutPublisher\<close> leaves in Redis, with the laws assumed of \<open>SET\<close>; \<open>Archive\<close>: \<^verbatim>\<open>crates/raw-archive/src/writer.rs\<close>.
  \<^item> \<open>Client\<close>, \<open>Handshake\<close>, \<open>Connection\<close>, \<open>Reader\<close>: \<^verbatim>\<open>crates/cedro-client/src\<close>.
  \<^item> \<open>Pipeline\<close>, \<open>Bootstrap\<close>, \<open>Lifecycle\<close>, \<open>Runtime_Config\<close>: \<^verbatim>\<open>bin/ingest-daemon/src\<close>; \<open>Runtime_Config\<close> also holds the
    settings of \<^verbatim>\<open>bin/api-server/src/main.rs\<close>.
  \<^item> \<open>Ingest\<close>, \<open>Exit\<close>: the reader, the bounded channel and the workers together, and what they do after the final flush
    of \<open>main\<close>.
  \<^item> \<open>Api\<close>, \<open>Http_Router\<close>, \<open>Ws_Protocol\<close>: \<^verbatim>\<open>crates/api-server/src\<close>, the handlers and, around them, the routes, extractors and
    errors as answers; the messages of the WebSocket endpoint.
  \<^item> \<open>Startup\<close>: \<open>main\<close> of both binaries up to the point where they run, \<^verbatim>\<open>crates/observability/src/lib.rs\<close>, the
    connection attempts of the fan-out and of the pipeline's \<open>build\<close>, \<^verbatim>\<open>crates/persistence/src/config.rs\<close>.
  \<^item> This theory: the properties that span the program, from the socket to the books and to the engines, from the
    fan-out to the HTTP answer and from the frames to the HTTP answer.

  \<^bold>\<open>Conventions.\<close> A struct is a record whose fields have a two-letter prefix, an enum a datatype, a method a
  function that returns the result and the new state; \<open>Result<T, E>\<close> is \<open>E + T\<close>. Fixed-width integers are
  words of that width, \<open>usize\<close> is \<open>nat\<close> with 64 bits written out where it is parsed, \<open>f64\<close> is its bit pattern.
  What other crates, the operating system and the network do is a parameter: the shard hash, the channels, the
  sink behind the coalescer, the database with its calendar and decimal types, the JSON and MessagePack
  libraries, the Redis commands (of which \<open>redis_laws\<close> says that a successful \<open>SET\<close> stores its value, a failed one may or may not,
  and neither touches another key; keys may expire only if a time to live is configured), in which phases the runtime runs tasks, the outcome of every system call of \<open>Connection::open\<close> and, in \<open>Log_Io\<close>, of the log; the
  record \<open>host\<close> of \<open>Startup\<close> gathers what both programs find when they start. Reads from a socket are a
  script of events; a loop that would still wait when its script ends gives \<open>None\<close> (\<open>Handshake\<close>) or returns
  the state reached so far (\<open>Reader\<close>), so no other bound or fuel is needed. Every recursion terminates: on the
  buffer for \<open>drain\<close>, on the rest of the frame for the scanner, on the log file for \<open>replay_loop\<close>.
  Concurrency is a step relation: \<open>pool_step\<close> for the workers on one channel, \<open>ingest_step\<close> with the reader and the
  channel's capacity, \<open>exit_step\<close> for the end of the process, \<open>daemon_step\<close> for everything
  that can happen to a running pipeline, \<open>flush_step\<close> for submissions beside running flushes, \<open>life_step\<close> for the threads from their start to the end of \<open>main\<close>; each engine call is one step, as its lock
  makes it.

  \<^bold>\<open>Interfaces.\<close> \<open>pull_loop\<close> (an operation that yields items until none is left; interpreted by the frame
  splitter and the field scanner), \<open>keyed_engine\<close> (a registry with one value per ticker; interpreted by the
  book engine, the quote engine and the trade buffer, and behind all facts on the interleaving of tickers),
  \<open>step_invariant\<close> and \<open>terminating_steps\<close> (interpreted by the daemon, by the flush task, by what it submits, by
  the pool of workers, by the ingest and by the life of the threads), \<open>stuttering_simulation\<close>
  (interpreted by the ingest, which does what the pool of workers does once the channel is hidden).

  \<^bold>\<open>What is shown.\<close>
  \<^item> Framing and parsing: the splitter refines a one-byte automaton however the stream is cut; frames are dispatched
    by a table of headers; a message has the kind and the ticker its frame names; numbers are exact; quote frames read
    as the documented table of indices says, five indices apart, one of which makes the parser reject what is
    documented; book, trade and news frames round-trip.
  \<^item> Engines: the order-id index is the inverse of the two sides under distinct ids; the book refines a pair of
    lists; each ticker's state is a function of its own messages in order.
  \<^item> Persistence: encoding round-trips, one-byte damage is found by the checksum, a crash keeps what was synced, no
    trade is lost while the database answers; whatever calls fail, what was synced survives and a flush
    loses nothing after its sync; and where the guarantee ends (failed batches, the race of staging
    with flushing, torn tails). The archive's files hold the frames, after those of earlier runs, and of no stream more than one
    flush threshold is unflushed.
  \<^item> Client: the configuration check is exact, the handshake succeeds on every segmentation of the server's
    text, the command stream is readable, an open connection is ready, the reader hands over exactly the
    frames of the bytes received.
  \<^item> Daemon: a worker refines the engines, a pool of workers terminates and dispatches every frame exactly once, one
    worker keeps the order and several need not, reader and workers never wait for each other for ever, the way the
    bytes arrive does not matter, only the order within a ticker matters, the environment
    variables are read exactly, and two behaviours at odds with the intent: no trade reaches the database
    and the boot order leaves no ticker with a book.
  \<^item> End: the final flush of \<open>main\<close> can miss a quote that is still in the channel; it is dispatched and never published.
  \<^item> Threads: joining them ends in six steps if reads and the reader's blocking sends return, and without a worker the
    send need not; the loss of the feed goes unnoticed, a notification
    can be lost and a quiet feed holds the daemon up.
  \<^item> Fan-out: with the one flush task no update is lost or overtaken, at any moment; with a second flush beside it an older
    payload can come last.
  \<^item> Start: the daemon starts without NATS, Redis, database and log as it does with them, and its engines do not
    depend on them (the documented boot sequence wants it to fail fast).
  \<^item> API: data only for a token of the environment, on every route; what Redis keeps of the publisher's calls is the last payload submitted, if its
    \<open>SET\<close> succeeded, and the answer is that payload until it expires; for the daemon's own submissions it is a
    constant.

  \<^bold>\<open>Not modelled.\<close> The matching of a path and method to a route, HEAD and preflight requests and the headers
  added by the CORS layer (axum, tower); what becomes of the archive's thread when the process ends, a race; the JSON text
  of bodies and the recognition of WebSocket messages of clients (derived by serde; no handler uses them yet); the timers
  themselves, only what a tick does; the protocols of NATS, Redis and the database; compression; metrics and logs other
  than the counters kept in the records; benchmarks.
\<close>

section \<open>From the socket to the books\<close>

text \<open>What the server sends: book operations, each in a line of its own, and quotes, each closed by an exclamation mark,
  in any order.\<close>

datatype feed_item = BookLine bytes BookOp bytes | QuoteFrame bytes

fun feed_frame :: "feed_item \<Rightarrow> frame" where
  "feed_frame (BookLine ticker op price) = (Newline, bqt_print ticker op price)"
| "feed_frame (QuoteFrame body) = (Bang, ''T:'' @ body)"

fun feed_ops :: "feed_item \<Rightarrow> (bytes \<times> BookOp) list" where
  "feed_ops (BookLine ticker op price) = [(ticker, op)]"
| "feed_ops (QuoteFrame body) = []"

definition feed_wire :: "feed_item list \<Rightarrow> bytes" where
  "feed_wire ms = unframe (map feed_frame ms)"

text \<open>The body of a quote frame is not restricted otherwise: it may fail to parse.\<close>

fun sendable :: "feed_item \<Rightarrow> bool" where
  "sendable (BookLine ticker op price) \<longleftrightarrow> wire_op op price \<and> CHR '':'' \<notin> set ticker \<and>
     list_all (\<lambda>b. \<not> is_terminator b) (bqt_print ticker op price)"
| "sendable (QuoteFrame body) \<longleftrightarrow> list_all (\<lambda>b. \<not> is_terminator b) body"

lemma split_unframe:
  "\<forall>(k, f) \<in> set fs. \<forall>b \<in> set f. \<not> is_terminator b \<Longrightarrow> split_bytes [] (unframe fs) = (fs, [])"
proof (induction fs)
  case (Cons x fs)
  obtain k f where x: "x = (k, f)" by (cases x)
  with Cons show ?case
    using split_bytes_first [of f "terminator_of k" "[]" "unframe fs"] by (simp add: unframe_def)
qed (simp add: unframe_def)

lemma feed_wire_split:
  assumes "\<forall>m \<in> set ms. sendable m"
  shows "split_bytes [] (feed_wire ms) = (map feed_frame ms, [])"
proof -
  have "\<forall>b \<in> set (snd (feed_frame m)). \<not> is_terminator b" if "m \<in> set ms" for m
  proof -
    have "sendable m" using assms that by blast
    then show ?thesis by (cases m) (auto simp: list_all_iff is_terminator_def newline_def)
  qed
  then have "\<forall>x \<in> set (map feed_frame ms). \<forall>b \<in> set (snd x). \<not> is_terminator b" by simp
  then show ?thesis unfolding feed_wire_def by (intro split_unframe) (simp add: split_beta)
qed

lemma parse_book_frame:
  assumes "wire_op op price" and "CHR '':'' \<notin> set ticker"
  shows "parse_frame kind (bqt_print ticker op price) = Inr (PM_Book ticker op)"
proof -
  have "split_on (CHR '':'') (bqt_print ticker op price) = ''B'' # ticker # op_fields op price"
    by (rule bqt_print_split [OF assms])
  then show ?thesis
    using bqt_parse_print [OF assms] by (simp add: parse_frame_table frame_parsers_def)
qed

lemma quote_frame_no_book: "parse_frame kind (''T:'' @ body) = Inr m \<Longrightarrow> book_cmds m = []"
proof -
  assume m: "parse_frame kind (''T:'' @ body) = Inr m"
  obtain t ts where "split_on (CHR '':'') body = t # ts" by (cases "split_on (CHR '':'') body") simp_all
  then have f: "split_on (CHR '':'') (''T:'' @ body) = ''T'' # t # ts"
    using split_on_append [of "CHR '':''" "''T''" body] by simp
  with m have "sqt_parse (''T:'' @ body) = Inr m" by (simp add: parse_frame_table frame_parsers_def)
  then have "header_of m = ''T''" using parser_types(1) [OF f] by (simp add: has_type_def)
  then show "book_cmds m = []" by (cases m) simp_all
qed

lemma feed_cmds:
  "\<forall>m \<in> set ms. sendable m \<Longrightarrow>
     concat (map book_cmds (parsed (map feed_frame ms))) = concat (map feed_ops ms)"
proof (induction ms)
  case (Cons m ms)
  have "concat (map book_cmds (parsed [feed_frame m])) = feed_ops m"
  proof (cases m)
    case (BookLine ticker op price)
    with Cons.prems show ?thesis by (simp add: parsed_def parse_book_frame)
  next
    case (QuoteFrame body)
    then show ?thesis
      using quote_frame_no_book [of Bang body] by (cases "parse_frame Bang (''T:'' @ body)") (simp_all add: parsed_def)
  qed
  with Cons show ?case by (simp add: parsed_Cons [of "feed_frame m" "map feed_frame ms"])
qed (simp add: parsed_def)

text \<open>C1. From the socket to the books: when the server sends lines with book operations and quote frames, in any order, and
  the connection's bytes arrive in whatever pieces, with interrupted reads and a channel that is
  full at times, and one worker takes the frames off the channel, then every ticker's
  book is exactly the one its own operations build, in the order they were sent; the quote frames between them,
  well-formed or not, leave the books alone.\<close>

theorem socket_to_books:
  assumes "\<forall>m \<in> set ms. sendable m" and "bytes_taken turns = feed_wire ms"
    and "channel_laws ts sd accepted" and "accepted chan = []"
    and "reader_loop ts sd chan turns = (ex, s, chan', m)" and "ex \<noteq> ReaderDisconnected"
    and "length clocks = length (accepted chan')"
  shows "book_view (pe_hash env)
      (pl_book (worker_loop env (zip clocks (accepted chan')) (build shards cap sink tx writer))) t =
    (let ops = ops_for t (concat (map feed_ops ms))
     in if ops = [] then None else Some (book_run ops OrderBook_default))"
proof -
  have "split_bytes [] (bytes_taken turns) = (map feed_frame ms, [])"
    using assms(2) by (simp add: feed_wire_split [OF assms(1)])
  then have "accepted chan' = map feed_frame ms"
    using reader_turns_accepted [OF assms(3) assms(5) [unfolded reader_loop_def]] assms(4,6) by auto
  then show ?thesis
    using assms(7) by (simp add: worker_book_view feed_cmds [OF assms(1)])
qed

theorem socket_to_books_witness:
  "\<exists>chan'. fst (snd (snd (reader_loop demo_try demo_send [] [(False, ReadOk ''B:PE''), (False, ReadInterrupted),
       (False, ReadOk (''TR4:D:3'' @ [newline] @ ''T:PETR4:1!B:PETR4:E'')), (False, ReadOk [newline]), (False, ReadOk [])]))) = chan' \<and>
     book_view (pe_hash demo_env) (pl_book (worker_loop demo_env (zip [0, 1, 2] chan') (build 4 100 [] () None))) ''PETR4'' =
       Some (book_run [BO_Delete BD_ClearAll, BO_EndOfInitial] OrderBook_default)"
proof -
  let ?turns = "[(False, ReadOk ''B:PE''), (False, ReadInterrupted), (False, ReadOk (''TR4:D:3'' @ [newline] @ ''T:PETR4:1!B:PETR4:E'')),
    (False, ReadOk [newline]), (False, ReadOk [])]"
  let ?ms = "[BookLine ''PETR4'' (BO_Delete BD_ClearAll) [], QuoteFrame ''PETR4:1'', BookLine ''PETR4'' BO_EndOfInitial []]"
  obtain ex s chan' m where run: "reader_loop demo_try demo_send [] ?turns = (ex, s, chan', m)" by (metis prod_cases4)
  have ex: "ex \<noteq> ReaderDisconnected" "length chan' = 3"
    using run by (auto simp: reader_loop_def pump_frames.simps next_frame_def with_capacity_def
        extend_from_slice_def send_frame_def demo_try_def demo_send_def memchr2_def newline_def Let_def)
  have "\<forall>m \<in> set ?ms. sendable m"
    by (simp add: bqt_print_def is_terminator_def newline_def)
  moreover have "bytes_taken ?turns = feed_wire ?ms"
    by (simp add: feed_wire_def unframe_def bqt_print_def terminator_of_def)
  moreover have "channel_laws demo_try demo_send (\<lambda>c. c)"
    by (auto simp: channel_laws_def demo_try_def demo_send_def)
  ultimately show ?thesis
    using socket_to_books [of ?ms ?turns demo_try demo_send "\<lambda>c. c" "[]" ex s chan' m "[0, 1, 2]" demo_env 4 100 "[]" "()" None "''PETR4''"]
      run ex by (simp add: Let_def)
qed

section \<open>From the socket to the engines\<close>

lemma engines_clocks:
  assumes "length clocks = length fs" and "length clocks' = length fs"
  shows "engines (worker_loop env (zip clocks fs) p) = engines (worker_loop env (zip clocks' fs) p)"
  using assms by (simp add: engines_def worker_loop_engines)

lemma ingest_one_engines:
  assumes "(ingest_step cap 1 env)\<^sup>*\<^sup>* (fs, [], idle, p) ([], [], idle, q)" and "length clocks = length fs"
  shows "engines q = engines (worker_loop env (zip clocks fs) p)"
proof -
  have "(pool_step 1 env)\<^sup>*\<^sup>* (fs, idle, p) ([], idle, q)"
    using ingest_pool.run_simulated [OF assms(1)] by (simp add: hide_channel_def)
  then obtain clocks' where "length clocks' = length fs" "q = worker_loop env (zip clocks' fs) p"
    using one_worker_in_order by blast
  with engines_clocks assms(2) show ?thesis by metis
qed

text \<open>C17. How the bytes arrive does not matter: when the server sends the same bytes twice, in whatever pieces, with interrupted
  reads and a channel of whatever capacity that is full at whatever times, and one worker takes the frames, then after
  both runs the books, the quotes and the recent trades are the same.\<close>

theorem delivery_irrelevant:
  assumes "bytes_taken turns = bytes_taken turns'"
    and "channel_laws ts sd accepted" and "accepted chan = []"
    and "reader_loop ts sd chan turns = (ex, s, chan1, m)" and "ex \<noteq> ReaderDisconnected"
    and "channel_laws ts' sd' accepted'" and "accepted' chan' = []"
    and "reader_loop ts' sd' chan' turns' = (ex', s', chan1', m')" and "ex' \<noteq> ReaderDisconnected"
    and "(ingest_step cap 1 env)\<^sup>*\<^sup>* (accepted chan1, [], idle, p) ([], [], idle, q)"
    and "(ingest_step cap' 1 env)\<^sup>*\<^sup>* (accepted' chan1', [], idle, p) ([], [], idle, q')"
  shows "engines q' = engines q"
proof -
  have "accepted' chan1' = accepted chan1"
    using reader_turns_accepted [OF assms(2) assms(4) [unfolded reader_loop_def]]
      reader_turns_accepted [OF assms(6) assms(8) [unfolded reader_loop_def]] assms(1,3,5,7,9) by auto
  with assms(11) have run: "(ingest_step cap' 1 env)\<^sup>*\<^sup>* (accepted chan1, [], idle, p) ([], [], idle, q')" by simp
  let ?clocks = "replicate (length (accepted chan1)) undefined"
  show ?thesis
    using ingest_one_engines [OF assms(10), of ?clocks] ingest_one_engines [OF run, of ?clocks] by simp
qed

theorem delivery_irrelevant_witness:
  "\<exists>q q'. (ingest_step 2 1 demo_env)\<^sup>*\<^sup>* ([(Bang, ''B:A:E'')], [], idle, demo_pipeline) ([], [], idle, q) \<and>
     (ingest_step 9 1 demo_env)\<^sup>*\<^sup>* ([(Bang, ''B:A:E'')], [], idle, demo_pipeline) ([], [], idle, q') \<and> engines q' = engines q"
proof -
  let ?turns = "[(False, ReadOk ''B:A:E!''), (False, ReadOk [])]"
    and ?turns' = "[(False, ReadOk ''B:''), (False, ReadInterrupted), (False, ReadOk ''A:E!''), (False, ReadOk [])]"
  obtain ex s c m where run: "reader_loop demo_try demo_send [] ?turns = (ex, s, c, m)" by (metis prod_cases4)
  obtain ex' s' c' m' where run': "reader_loop demo_try demo_send [] ?turns' = (ex', s', c', m')" by (metis prod_cases4)
  note reader_simps = reader_loop_def pump_frames.simps next_frame_def with_capacity_def extend_from_slice_def
    send_frame_def demo_try_def demo_send_def memchr2_def newline_def Let_def
  have ex: "ex \<noteq> ReaderDisconnected" "c = [(Bang, ''B:A:E'')]" using run by (auto simp: reader_simps)
  have ex': "ex' \<noteq> ReaderDisconnected" "c' = [(Bang, ''B:A:E'')]" using run' by (auto simp: reader_simps)
  have laws: "channel_laws demo_try demo_send (\<lambda>c. c)"
    by (auto simp: channel_laws_def demo_try_def demo_send_def)
  let ?q = "worker_loop demo_env (zip [0] c) demo_pipeline" and ?q' = "worker_loop demo_env (zip [1] c') demo_pipeline"
  have q: "(ingest_step 2 1 demo_env)\<^sup>*\<^sup>* (c, [], idle, demo_pipeline) ([], [], idle, ?q)"
    and q': "(ingest_step 9 1 demo_env)\<^sup>*\<^sup>* (c', [], idle, demo_pipeline) ([], [], idle, ?q')"
    by (rule ingest_frame_by_frame; simp add: ex ex')+
  have "bytes_taken ?turns = bytes_taken ?turns'" by simp
  from delivery_irrelevant [OF this laws refl run ex(1) laws refl run' ex'(1) q q'] q q' show ?thesis
    unfolding ex(2) ex'(2) by blast
qed

section \<open>From the fan-out to the API\<close>

text \<open>The answer to an authorised request for a quote, given what Redis returns.\<close>

definition answer :: "('db, 'json) api_env \<Rightarrow> HeaderMap \<Rightarrow> bytes \<Rightarrow> bytes option \<Rightarrow> ApiError + 'json response" where
  "answer env headers ticker payload =
    (case payload of None \<Rightarrow> Inl (AE_TickerNotFound ticker)
     | Some x \<Rightarrow> Inr (snapshot_response env (from_headers (av_to_str env) headers) x))"

lemma stored_quote:
  assumes "utf8_valid ticker" and "\<And>k. av_get env db k = Inr (store k)"
    and "require_token (av_to_str env) headers cfg = Inr token" and "store (redis_key (PublishKey_new K_Quote ticker)) = r"
  shows "quote_single env cfg db headers ticker = answer env headers ticker r"
proof -
  have "store_get env db SN_Quote ticker = Inr r"
    using snapshot_key_redis [OF assms(1), of SN_Quote] assms(4) by (simp add: store_get_def assms(2) redis_result_def)
  with assms(3) show ?thesis by (simp add: quote_single_def answer_def ok_or_def split: option.split)
qed

lemma live_holds:
  assumes "holds ttl key subs (m k) ok"
  shows "live expired m k = None \<or> (\<exists>x. live expired m k = Some x \<and> (key, x) \<in> set subs)"
    and "ok \<Longrightarrow> live expired m k = (if ttl \<noteq> None \<and> expired k then None else map_of (rev subs) key)"
  using assms by (auto simp: holds_def live_def split: option.splits)

lemma demo_token:
  "require_token (av_to_str demo_api) (\<lambda>n. if n = ''authorization'' then Some ''Bearer good'' else None)
     (ApiConfig_default\<lparr>ap_valid_tokens := {''good''}\<rparr>) = Inr ''good''"
  by (simp add: require_token_def extract_bearer_def demo_api_def ok_or_def trim_id white_space_def
      has_prefix_def strip_prefix_def)


text \<open>A quote submitted to a new coalescer in front of the publisher, then a flush.\<close>

lemma one_quote_stored:
  assumes "k = PublishKey_new K_Quote t" and "c = flush_once (publisher_publish (demo_publisher ttl)) [k]
      (submit (publisher_publish (demo_publisher ttl)) k x (Coalescer_new ((), Map.empty)))"
  shows "(flush_step (publisher_publish (demo_publisher ttl)) 1)\<^sup>*\<^sup>* (Coalescer_new ((), Map.empty), no_batch, []) (c, no_batch, [(k, x)])"
    and "co_pending c = Map.empty" and "co_sink c = ((), [redis_key k \<mapsto> (x, ttl)])"
proof -
  let ?pub = "publisher_publish (demo_publisher ttl)" and ?c0 = "Coalescer_new ((), Map.empty)"
  have "drain_order [k] (submit_all ?pub [(k, x)] ?c0)"
    by (simp add: submit_all_def drain_order_def submit_def window_for_def Coalescer_new_def assms(1) PublishKey_new_def)
  from submit_flush_run [OF this]
  show "(flush_step ?pub 1)\<^sup>*\<^sup>* (?c0, no_batch, []) (c, no_batch, [(k, x)])"
    by (simp add: assms(2) submit_all_def)
qed (simp_all add: assms flush_once_def submit_def window_for_def Coalescer_new_def PublishKey_new_def publisher_publish_def
      demo_publisher_def demo_set_def)


section \<open>From the frames to the API\<close>

text \<open>What the dispatch of a message hands to the fan-out: a one-letter marker under the key of the kind and the ticker.\<close>

fun marker :: "Kind \<Rightarrow> bytes" where
  "marker K_Quote = ''q''"
| "marker K_Book = ''b''"
| "marker K_Trade = ''t''"

fun published_key :: "ProtocolMessage \<Rightarrow> PublishKey option" where
  "published_key (PM_Quote t time diff) = Some (PublishKey_new K_Quote t)"
| "published_key (PM_Book t op) = Some (PublishKey_new K_Book t)"
| "published_key (PM_Trade t (TO_Add r)) = Some (PublishKey_new K_Trade t)"
| "published_key _ = None"

fun submission :: "task \<Rightarrow> (PublishKey \<times> bytes) list" where
  "submission (SubmitTask k x) = [(k, x)]"
| "submission (AppendTask x) = []"

definition submissions :: "task list \<Rightarrow> (PublishKey \<times> bytes) list" where
  "submissions ts = concat (map submission ts)"

lemma dispatch_tasks:
  assumes "pe_runtime env"
  shows "submissions (pl_tasks (dispatch env now m p)) =
    submissions (pl_tasks p) @ (case published_key m of Some k \<Rightarrow> [(k, marker (pk_kind k))] | None \<Rightarrow> [])"
  using assms
  by (cases "(env, now, m, p)" rule: dispatch.cases)
     (auto simp: submissions_def spawn_fanout_def persist_trade_def spawn_persist_def Let_def PublishKey_new_def
       split: option.split)

lemma map_filter_appended: "List.map_filter f (xs @ ys) = List.map_filter f xs @ List.map_filter f ys"
  by (simp add: List.map_filter_def)

lemma worker_tasks:
  assumes "pe_runtime env"
  shows "submissions (pl_tasks (worker_loop env fs p)) =
    submissions (pl_tasks p) @ map (\<lambda>k. (k, marker (pk_kind k))) (List.map_filter published_key (parsed (map snd fs)))"
proof (induction fs arbitrary: p)
  case Nil
  then show ?case by (simp add: worker_loop_def parsed_def List.map_filter_simps)
next
  case (Cons x fs)
  obtain now f where x: "x = (now, f)" by (cases x)
  have "submissions (pl_tasks (work_frame env now f p)) =
      submissions (pl_tasks p) @ map (\<lambda>k. (k, marker (pk_kind k))) (List.map_filter published_key (parsed [f]))"
    by (cases f) (auto simp: work_frame_def Let_def dispatch_tasks [OF assms] parsed_def List.map_filter_simps
        split: sum.split option.split)
  with Cons [of "work_frame env now f p"] show ?case
    by (simp add: x worker_loop_def parsed_Cons [of f "map snd fs"] map_filter_appended)
qed

lemma worker_fanout: "pl_fanout (worker_loop env fs p) = pl_fanout p"
proof (induction fs arbitrary: p)
  case (Cons x fs)
  have "pl_fanout (work_frame env now f p) = pl_fanout p" for now f
    by (simp add: work_frame_def Let_def dispatch_fanout split: sum.split)
  with Cons show ?case by (simp add: worker_loop_def split_beta)
qed (simp add: worker_loop_def)

lemma run_tasks_fanout:
  "pl_fanout (fold (run_task env) ts p) = submit_all (pe_publish env) (submissions ts) (pl_fanout p)"
proof (induction ts arbitrary: p)
  case (Cons x ts)
  then show ?case by (cases x) (simp_all add: submissions_def submit_all_def)
qed (simp add: submissions_def submit_all_def)

text \<open>A payload that is a function of its key leaves no trace of the order.\<close>

lemma map_of_determined:
  "\<forall>(k, p) \<in> set xs. p = f k \<Longrightarrow> map_of xs key = (if key \<in> fst ` set xs then Some (f key) else None)"
  by (induction xs) auto

lemma submitted_by_worker:
  assumes "pe_runtime env" and "mset ts = mset (pl_tasks (worker_loop env fs (build shards cap sink tx writer)))"
  shows "set (submissions ts) = {(k, marker (pk_kind k)) | k m. m \<in> set (parsed (map snd fs)) \<and> published_key m = Some k}"
proof -
  have "set (submissions ts) = set (submissions (pl_tasks (worker_loop env fs (build shards cap sink tx writer))))"
    using mset_eq_setD [OF assms(2)] by (simp add: submissions_def)
  also have "\<dots> = (\<lambda>k. (k, marker (pk_kind k))) ` set (List.map_filter published_key (parsed (map snd fs)))"
    by (simp add: worker_tasks [OF assms(1)]) (simp add: build_def submissions_def)
  finally show ?thesis
    by (auto simp: List.map_filter_def image_iff) (metis option.sel)
qed

lemma published_quote: "published_key m = Some (PublishKey_new K_Quote t) \<longleftrightarrow> (\<exists>time diff. m = PM_Quote t time diff)"
  by (cases m rule: published_key.cases) (auto simp: PublishKey_new_def)

lemma submitted_quote:
  assumes "pe_runtime env" and "mset ts = mset (pl_tasks (worker_loop env fs (build shards cap sink tx writer)))"
  shows "map_of (rev (submissions ts)) (PublishKey_new K_Quote ticker) =
    (if \<exists>time diff. PM_Quote ticker time diff \<in> set (parsed (map snd fs)) then Some ''q'' else None)"
proof -
  let ?key = "PublishKey_new K_Quote ticker"
  note subs = submitted_by_worker [OF assms]
  have "map_of (rev (submissions ts)) ?key =
      (if ?key \<in> fst ` set (rev (submissions ts)) then Some (marker (pk_kind ?key)) else None)"
    by (rule map_of_determined) (auto simp: subs)
  also have "?key \<in> fst ` set (rev (submissions ts)) \<longleftrightarrow> (\<exists>m \<in> set (parsed (map snd fs)). published_key m = Some ?key)"
    by (force simp: subs)
  also have "\<dots> \<longleftrightarrow> (\<exists>time diff. PM_Quote ticker time diff \<in> set (parsed (map snd fs)))"
    by (auto simp: published_quote)
  finally show ?thesis by (simp add: PublishKey_new_def)
qed


lemma parse_quote_example: "parse_frame Bang ''T:PETR4:101758'' = Inr (PM_Quote ''PETR4'' 101758 [])"
  by (simp add: parse_frame_table frame_parsers_def sqt_parse_fields parse_u32_eq is_digit_def byte_in_def
      dec_value_def digit_val_def)

definition demo_live_env :: "(nat, nat, nat, unit \<times> (bytes \<rightharpoonup> bytes \<times> u64 option), unit) pipeline_env" where
  "demo_live_env =
     \<lparr>pe_hash = (\<lambda>t. 0), pe_archive_send = (\<lambda>c f. (PushSent, c)), pe_publish = publisher_publish (demo_publisher None),
      pe_runtime = True, pe_json = (\<lambda>s. ''{}''), pe_writer = pe_writer demo_env\<rparr>"


end
